(* ===== verification/Prelude.thy ===== *)
theory Prelude
  imports Main "HOL-Library.Word"
begin

text \<open>
  Shared vocabulary of the development: the machine integers of the i386 target, the errors a
  call can end in, the sequencing of fallible calls, and the two shapes of counted loop the C
  code uses (a plain \<^verbatim>\<open>for\<close> loop and one with an early \<^verbatim>\<open>return\<close>), each with a lemma that
  turns it into a fold or a search over a list of indices.
\<close>

unbundle bit_operations_syntax

section \<open>Machine integers, errors and results\<close>

text \<open>
  \<^verbatim>\<open>uint8_t\<close>, \<^verbatim>\<open>uint16_t\<close>, \<^verbatim>\<open>uint32_t\<close> (also \<^verbatim>\<open>size_t\<close>, \<^verbatim>\<open>unsigned long\<close> and every pointer of
  the 32-bit target) and \<^verbatim>\<open>uint64_t\<close>. A C \<^verbatim>\<open>int\<close> is the same 32 bits, read with \<^term>\<open>sint\<close>.
\<close>

type_synonym u8 = "8 word"
type_synonym u16 = "16 word"
type_synonym u32 = "32 word"
type_synonym u64 = "64 word"

text \<open>
  The ways a call can fail to give a result: an access outside an array object, a signed
  overflow, a division by zero, a variadic argument of the wrong kind (undefined behaviour of C), a page fault at
  an address, a general protection fault on a selector, or a loop that never ends.
\<close>

datatype c_error =
    Out_of_bounds
  | Signed_overflow
  | Division_by_zero
  | Bad_argument
  | Page_fault u32
  | General_protection u16
  | No_return

type_synonym 'a res = "c_error + 'a"

definition bindE :: "'a res \<Rightarrow> ('a \<Rightarrow> 'b res) \<Rightarrow> 'b res" where
  "bindE m f = (case m of Inl e \<Rightarrow> Inl e | Inr x \<Rightarrow> f x)"

lemma bindE_simps [simp]:
  "bindE (Inl e) f = Inl e"
  "bindE (Inr x) f = f x"
  by (simp_all add: bindE_def)

lemma bindE_Inr_iff: "bindE m f = Inr y \<longleftrightarrow> (\<exists>x. m = Inr x \<and> f x = Inr y)"
  by (cases m) auto

lemma bindE_assoc: "bindE (bindE m f) g = bindE m (\<lambda>x. bindE (f x) g)"
  by (cases m) auto

lemma bindE_cong [fundef_cong]:
  "m = m' \<Longrightarrow> (\<And>x. m' = Inr x \<Longrightarrow> f x = f' x) \<Longrightarrow> bindE m f = bindE m' f'"
  by (cases m') auto

section \<open>Counted loops over machine integers\<close>

lemma unat_Suc_less: "i < n \<Longrightarrow> unat (i + 1) = Suc (unat i)" for i n :: "'a::len word"
  by unat_arith

lemma inc_le_iff: "i < n \<Longrightarrow> i + 1 \<le> k \<longleftrightarrow> i < k" for i n :: "'a::len word"
  by (simp add: word_le_nat_alt word_less_nat_alt unat_Suc_less Suc_le_eq)

lemma unat_of_nat_below:
  "i < unat m \<Longrightarrow> unat (of_nat i :: 'a word) = i" for m :: "'a::len word"
  by (rule le_unat_uoi[of _ m]) simp

lemma unat_of_nat_u32: "n < 2 ^ 32 \<Longrightarrow> unat (of_nat n :: u32) = n"
  by (simp add: unat_of_nat)

lemma of_nat_below: "i < unat m \<Longrightarrow> (of_nat i :: 'a word) < m" for m :: "'a::len word"
  by (simp add: word_less_nat_alt unat_of_nat_below)

lemma upt_unat_step:
  fixes i n :: "'a::len word"
  assumes "i < n"
  shows "map (of_nat :: nat \<Rightarrow> 'a word) [unat i..<unat n] =
         i # map of_nat [unat (i + 1)..<unat n]"
  using assms by (simp add: upt_conv_Cons word_less_nat_alt unat_Suc_less)

text \<open>\<^verbatim>\<open>for (uint32_t i = a; i < n; i++) body(i)\<close>, with a body that cannot fail.\<close>

function for_range :: "u32 \<Rightarrow> u32 \<Rightarrow> (u32 \<Rightarrow> 's \<Rightarrow> 's) \<Rightarrow> 's \<Rightarrow> 's" where
  "for_range i n f s = (if i < n then for_range (i + 1) n f (f i s) else s)"
  by pat_completeness auto
termination
  by (relation "measure (\<lambda>(i, n, f, s). unat n - unat i)")
    (auto simp: unat_Suc_less word_less_nat_alt)

text \<open>The same loop with a body that can fail: the first error ends it.\<close>

function for_rangeE :: "u32 \<Rightarrow> u32 \<Rightarrow> (u32 \<Rightarrow> 's \<Rightarrow> 's res) \<Rightarrow> 's \<Rightarrow> 's res" where
  "for_rangeE i n f s =
     (if i < n then bindE (f i s) (\<lambda>s'. for_rangeE (i + 1) n f s') else Inr s)"
  by pat_completeness auto
termination
  by (relation "measure (\<lambda>(i, n, f, s). unat n - unat i)")
    (auto simp: unat_Suc_less word_less_nat_alt)

text \<open>\<^verbatim>\<open>for (uint32_t i = n; i != 0; i--) body(i - 1)\<close>.\<close>

function for_downE :: "u32 \<Rightarrow> (u32 \<Rightarrow> 's \<Rightarrow> 's res) \<Rightarrow> 's \<Rightarrow> 's res" where
  "for_downE i f s =
     (if i \<noteq> 0 then bindE (f (i - 1) s) (\<lambda>s'. for_downE (i - 1) f s') else Inr s)"
  by pat_completeness auto
termination
  by (relation "measure (\<lambda>(i, f, s). unat i)") (auto simp: measure_unat)

text \<open>A loop whose body may \<^verbatim>\<open>return\<close>: the first index at which it does decides.\<close>

function find_range :: "u32 \<Rightarrow> u32 \<Rightarrow> (u32 \<Rightarrow> 'r option) \<Rightarrow> 'r option" where
  "find_range i n f =
     (if i < n then (case f i of Some r \<Rightarrow> Some r | None \<Rightarrow> find_range (i + 1) n f) else None)"
  by pat_completeness auto
termination
  by (relation "measure (\<lambda>(i, n, f). unat n - unat i)")
    (auto simp: unat_Suc_less word_less_nat_alt)

declare for_range.simps [simp del] for_rangeE.simps [simp del]
  for_downE.simps [simp del] find_range.simps [simp del]

subsection \<open>Loops as folds and searches\<close>

lemma for_range_fold: "for_range i n f s = fold f (map of_nat [unat i..<unat n]) s"
proof (induction i n f s rule: for_range.induct)
  case (1 i n f s)
  then show ?case
    by (subst for_range.simps) (auto simp: upt_unat_step word_less_nat_alt)
qed

text \<open>Every successful body keeps an invariant, so the loop ends in a state with it.\<close>

lemma for_rangeE_invariant:
  assumes "\<And>k s. i \<le> k \<Longrightarrow> k < n \<Longrightarrow> P k s \<Longrightarrow> \<exists>s'. f k s = Inr s' \<and> P (k + 1) s'"
    and "P i s" and "i \<le> n"
  shows "\<exists>s'. for_rangeE i n f s = Inr s' \<and> P n s'"
  using assms
proof (induction i n f s rule: for_rangeE.induct)
  case (1 i n f s)
  show ?case
  proof (cases "i < n")
    case True
    from "1.prems"(1)[OF order_refl True "1.prems"(2)] obtain s'
      where s': "f i s = Inr s'" "P (i + 1) s'" by blast
    have le: "i + 1 \<le> n" and lt: "i < i + 1"
      using True by (simp_all add: inc_le_iff flip: inc_le_iff[OF True, of "i + 1"])
    have "\<exists>s''. for_rangeE (i + 1) n f s' = Inr s'' \<and> P n s''"
      using "1.prems"(1) lt by (intro "1.IH"[OF True s'(1) _ s'(2) le]) auto
    with True s' show ?thesis by (subst for_rangeE.simps) simp
  next
    case False
    with "1.prems" show ?thesis by (subst for_rangeE.simps) auto
  qed
qed

lemma for_downE_invariant:
  assumes "\<And>k s. k < i \<Longrightarrow> P (k + 1) s \<Longrightarrow> \<exists>s'. f k s = Inr s' \<and> P k s'"
    and "P i s"
  shows "\<exists>s'. for_downE i f s = Inr s' \<and> P 0 s'"
  using assms
proof (induction i f s rule: for_downE.induct)
  case (1 i f s)
  show ?case
  proof (cases "i = 0")
    case False
    then have lt: "i - 1 < i" by unat_arith
    from "1.prems"(1)[OF lt] "1.prems"(2) obtain s'
      where s': "f (i - 1) s = Inr s'" "P (i - 1) s'" by auto
    have "\<exists>s''. for_downE (i - 1) f s' = Inr s'' \<and> P 0 s''"
      using "1.prems"(1) lt by (intro "1.IH"[OF False s'(1) _ s'(2)]) auto
    with False s' show ?thesis by (subst for_downE.simps) simp
  next
    case True
    with "1.prems" show ?thesis by (subst for_downE.simps) auto
  qed
qed

lemma find_range_None: "find_range i n f = None \<longleftrightarrow> (\<forall>k. i \<le> k \<and> k < n \<longrightarrow> f k = None)"
proof (induction i n f rule: find_range.induct)
  case (1 i n f)
  have step: "i \<le> k \<longleftrightarrow> k = i \<or> i + 1 \<le> k" if "i < n" for k
    by (auto simp: inc_le_iff[OF that])
  show ?case
    using 1 step
    by (subst find_range.simps) (auto split: option.splits dest: order.strict_trans1)
qed

lemma find_range_Some:
  assumes "find_range i n f = Some r"
  obtains k where "i \<le> k" "k < n" "f k = Some r" "\<And>j. i \<le> j \<Longrightarrow> j < k \<Longrightarrow> f j = None"
  using assms
proof (induction i n f arbitrary: thesis rule: find_range.induct)
  case (1 i n f)
  have lt: "i < n"
    using "1.prems"(2) by (subst (asm) find_range.simps) (auto split: if_splits)
  show ?case
  proof (cases "f i")
    case (Some r')
    with "1.prems"(2) lt have "f i = Some r" by (subst (asm) find_range.simps) simp
    with lt show ?thesis by (intro "1.prems"(1)[of i]) auto
  next
    case None
    with "1.prems"(2) lt have "find_range (i + 1) n f = Some r"
      by (subst (asm) find_range.simps) simp
    with "1.IH"[OF lt None] obtain k where k: "i + 1 \<le> k" "k < n" "f k = Some r"
      "\<And>j. i + 1 \<le> j \<Longrightarrow> j < k \<Longrightarrow> f j = None" by blast
    have "f j = None" if "i \<le> j" "j < k" for j
      using k(4)[of j] None that by (cases "j = i") (auto simp: inc_le_iff[OF lt])
    moreover have "i \<le> k"
      using k(1) by (simp add: inc_le_iff[OF lt])
    ultimately show ?thesis using k by (intro "1.prems"(1)[of k]) auto
  qed
qed

section \<open>Single bits of a word\<close>

text \<open>What \<^verbatim>\<open>w | 1 << k\<close>, \<^verbatim>\<open>w & ~(1 << k)\<close> and \<^verbatim>\<open>w & 1 << k\<close> do to one bit.\<close>

lemma bit_word_masks:
  fixes w :: "'a::len word"
  assumes "k < LENGTH('a)"
  shows "bit (w OR 2 ^ k) j \<longleftrightarrow> bit w j \<or> j = k"
    and "bit (w AND NOT (2 ^ k)) j \<longleftrightarrow> bit w j \<and> j \<noteq> k"
    and "w AND 2 ^ k = 0 \<longleftrightarrow> \<not> bit w k"
proof -
  show "bit (w OR 2 ^ k) j \<longleftrightarrow> bit w j \<or> j = k"
    using assms by (auto simp: bit_or_iff bit_exp_iff)
  show "bit (w AND NOT (2 ^ k)) j \<longleftrightarrow> bit w j \<and> j \<noteq> k"
    using assms by (auto simp: bit_and_iff bit_not_iff bit_exp_iff dest: bit_imp_le_length)
  show "w AND 2 ^ k = 0 \<longleftrightarrow> \<not> bit w k"
    by (rule and_exp_eq_0_iff_not_bit)
qed

lemma word_full_iff: "w = - 1 \<longleftrightarrow> (\<forall>k<LENGTH('a). bit w k)" for w :: "'a::len word"
  by (auto simp: bit_eq_iff dest: bit_imp_le_length)

section \<open>Lists\<close>

lemma nth_before_eq: "(\<And>i. i < k \<Longrightarrow> xs ! i = ys ! i) \<Longrightarrow> k \<le> length xs \<Longrightarrow> k \<le> length ys \<Longrightarrow>
    take k xs = take k ys"
  by (intro nth_equalityI) auto

text \<open>The lexicographic order is decided at the first difference.\<close>

lemma lexord_first_difference:
  assumes "length xs = length ys" "k < length xs"
    and before: "\<And>i. i < k \<Longrightarrow> xs ! i = ys ! i" and ne: "xs ! k \<noteq> ys ! k"
  shows "(xs, ys) \<in> lexord {(u, v). u < v} \<longleftrightarrow> xs ! k < (ys ! k :: 'a::linorder)"
proof
  assume "(xs, ys) \<in> lexord {(u, v). u < v}"
  then obtain i where i: "take i xs = take i ys" "xs ! i < ys ! i"
    using assms(1) by (auto simp: lexord_take_index_conv)
  have "\<not> i < k" using before[of i] i(2) by auto
  moreover have "\<not> k < i" using i(1) ne by (metis nth_take)
  ultimately show "xs ! k < ys ! k" using i(2) by (metis linorder_cases)
next
  assume "xs ! k < ys ! k"
  moreover have "take k xs = take k ys"
    using assms by (intro nth_before_eq) auto
  ultimately show "(xs, ys) \<in> lexord {(u, v). u < v}"
    using assms by (auto simp: lexord_take_index_conv)
qed

end
