(* ===== verification/Libc_String.thy ===== *)
theory Libc_String
  imports Prelude
begin

text \<open>
  The string routines of \<^verbatim>\<open>src/libc/string\<close>. Each takes the byte load and the byte store of
  the memory it runs on as arguments, so that the same definition serves the flat memory of the
  terminal and the paged memory of the page-table code. The locale \<open>byte_memory\<close> states what
  the routines rely on; their contracts are proved in it once.
\<close>

section \<open>The routines\<close>

definition memset ::
  "(u32 \<Rightarrow> u8 \<Rightarrow> 's \<Rightarrow> 's res) \<Rightarrow> u32 \<Rightarrow> u32 \<Rightarrow> u32 \<Rightarrow> 's \<Rightarrow> (u32 \<times> 's) res" where
  "memset st bufptr value sz s =
     bindE (for_rangeE 0 sz (\<lambda>i s. st (bufptr + i) (ucast value) s) s)
       (\<lambda>s'. Inr (bufptr, s'))"

definition memcpy ::
  "(u32 \<Rightarrow> 's \<Rightarrow> u8 res) \<Rightarrow> (u32 \<Rightarrow> u8 \<Rightarrow> 's \<Rightarrow> 's res) \<Rightarrow>
     u32 \<Rightarrow> u32 \<Rightarrow> u32 \<Rightarrow> 's \<Rightarrow> (u32 \<times> 's) res" where
  "memcpy ld st dstptr srcptr sz s =
     bindE (for_rangeE 0 sz
              (\<lambda>i s. bindE (ld (srcptr + i) s) (\<lambda>b. st (dstptr + i) b s)) s)
       (\<lambda>s'. Inr (dstptr, s'))"

definition memmove ::
  "(u32 \<Rightarrow> 's \<Rightarrow> u8 res) \<Rightarrow> (u32 \<Rightarrow> u8 \<Rightarrow> 's \<Rightarrow> 's res) \<Rightarrow>
     u32 \<Rightarrow> u32 \<Rightarrow> u32 \<Rightarrow> 's \<Rightarrow> (u32 \<times> 's) res" where
  "memmove ld st dstptr srcptr sz s =
     bindE (if dstptr < srcptr
            then for_rangeE 0 sz
                   (\<lambda>i s. bindE (ld (srcptr + i) s) (\<lambda>b. st (dstptr + i) b s)) s
            else for_downE sz
                   (\<lambda>i s. bindE (ld (srcptr + i) s) (\<lambda>b. st (dstptr + i) b s)) s)
       (\<lambda>s'. Inr (dstptr, s'))"

definition memcmp_byte :: "(u32 \<Rightarrow> 's \<Rightarrow> u8 res) \<Rightarrow> u32 \<Rightarrow> u32 \<Rightarrow> 's \<Rightarrow> u32 \<Rightarrow> int res option" where
  "memcmp_byte ld aptr bptr s i =
     (case ld (aptr + i) s of
        Inl e \<Rightarrow> Some (Inl e)
      | Inr a \<Rightarrow>
          (case ld (bptr + i) s of
             Inl e \<Rightarrow> Some (Inl e)
           | Inr b \<Rightarrow>
               if a < b then Some (Inr (-1)) else if b < a then Some (Inr 1) else None))"

definition memcmp :: "(u32 \<Rightarrow> 's \<Rightarrow> u8 res) \<Rightarrow> u32 \<Rightarrow> u32 \<Rightarrow> u32 \<Rightarrow> 's \<Rightarrow> int res" where
  "memcmp ld aptr bptr sz s =
     (case find_range 0 sz (memcmp_byte ld aptr bptr s) of Some r \<Rightarrow> r | None \<Rightarrow> Inr 0)"

partial_function (option) strlen_loop ::
  "(u32 \<Rightarrow> 's \<Rightarrow> u8 res) \<Rightarrow> u32 \<Rightarrow> u32 \<Rightarrow> 's \<Rightarrow> u32 res option" where
  "strlen_loop ld str len s =
     (case ld (str + len) s of
        Inl e \<Rightarrow> Some (Inl e)
      | Inr b \<Rightarrow> if b \<noteq> 0 then strlen_loop ld str (len + 1) s else Some (Inr len))"

definition strlen :: "(u32 \<Rightarrow> 's \<Rightarrow> u8 res) \<Rightarrow> u32 \<Rightarrow> 's \<Rightarrow> u32 res" where
  "strlen ld str s = (case strlen_loop ld str 0 s of None \<Rightarrow> Inl No_return | Some r \<Rightarrow> r)"

section \<open>Regions of the address space\<close>

definition in_region :: "u32 \<Rightarrow> u32 \<Rightarrow> u32 \<Rightarrow> bool" where
  "in_region base n a \<longleftrightarrow> a - base < n"

lemma in_region_0 [simp]: "\<not> in_region base 0 a"
  by (simp add: in_region_def)

lemma in_region_offset [simp]: "in_region base n (base + k) \<longleftrightarrow> k < n"
  by (simp add: in_region_def)

lemma in_region_inc_le: "k < n \<Longrightarrow> in_region base (k + 1) a \<longleftrightarrow> a - base \<le> k"
  using inc_le_iff[of k n "a - base"] by (auto simp: in_region_def simp flip: not_le)

lemma in_region_inc:
  assumes "k < n"
  shows "in_region base (k + 1) a \<longleftrightarrow> in_region base k a \<or> a = base + k"
  unfolding in_region_inc_le[OF assms]
  by (auto simp: in_region_def order_le_less diff_eq_eq add.commute)

text \<open>
  The two facts that make \<^verbatim>\<open>memmove\<close> safe on overlapping regions: a source byte that is still
  to be read has not been overwritten by the iterations already done.
\<close>

lemma forward_unread:
  fixes src dst k n :: u32
  assumes "dst < src" "k < n" "unat src + unat n \<le> 2 ^ 32"
  shows "\<not> src + k - dst < k"
  using assms by (auto simp: word_less_nat_alt unat_sub_if' unat_plus_if' split: if_splits)

lemma backward_unread:
  fixes src dst k n :: u32
  assumes "src \<le> dst" "k < n" "unat dst + unat n \<le> 2 ^ 32" "src + k - dst < n"
  shows "src + k - dst \<le> k"
  using assms by (auto simp: word_less_nat_alt word_le_nat_alt unat_sub_if' unat_plus_if' split: if_splits)

text \<open>The bytes of a region, in order.\<close>

definition region_bytes :: "(u32 \<Rightarrow> u8) \<Rightarrow> u32 \<Rightarrow> u32 \<Rightarrow> u8 list" where
  "region_bytes m base n = map (\<lambda>i. m (base + of_nat i)) [0..<unat n]"

section \<open>The memory the routines run on\<close>

text \<open>
  A memory is a load and a store that succeed on the addresses that are \<open>ok\<close>, where they read
  and update one byte; a store at an \<open>ok\<close> address changes neither which addresses are \<open>ok\<close> nor
  the other bytes.
\<close>

locale byte_memory =
  fixes ld :: "u32 \<Rightarrow> 's \<Rightarrow> u8 res"
    and st :: "u32 \<Rightarrow> u8 \<Rightarrow> 's \<Rightarrow> 's res"
    and rd :: "'s \<Rightarrow> u32 \<Rightarrow> u8"
    and wr :: "u32 \<Rightarrow> u8 \<Rightarrow> 's \<Rightarrow> 's"
    and ok :: "'s \<Rightarrow> u32 \<Rightarrow> bool"
  assumes ld_ok: "ok s a \<Longrightarrow> ld a s = Inr (rd s a)"
    and st_ok: "ok s a \<Longrightarrow> st a b s = Inr (wr a b s)"
    and ok_wr: "ok s a \<Longrightarrow> ok (wr a b s) c \<longleftrightarrow> ok s c"
    and rd_wr: "ok s a \<Longrightarrow> ok s c \<Longrightarrow> rd (wr a b s) c = (if c = a then b else rd s c)"
begin

text \<open>
  The state after a routine has stored \<open>f a\<close> at the addresses \<open>a\<close> of the set \<open>A\<close> and nothing
  else; \<open>Q\<close> is whatever single stores keep (the rest of the state).
\<close>

definition stored :: "'s \<Rightarrow> (u32 \<Rightarrow> bool) \<Rightarrow> (u32 \<Rightarrow> u8) \<Rightarrow> ('s \<Rightarrow> bool) \<Rightarrow> 's \<Rightarrow> bool" where
  "stored s A f Q s' \<longleftrightarrow>
     ok s' = ok s \<and> (\<forall>c. ok s c \<longrightarrow> rd s' c = (if A c then f c else rd s c)) \<and> Q s'"

lemma stored_init: "Q s \<Longrightarrow> (\<And>c. \<not> A c) \<Longrightarrow> stored s A f Q s"
  by (simp add: stored_def)

lemma stored_step:
  assumes "stored s A f Q s'" "ok s a" "b = f a"
    and "\<And>c. B c \<longleftrightarrow> A c \<or> c = a" "\<And>t. Q t \<Longrightarrow> Q (wr a b t)"
  shows "stored s B f Q (wr a b s')"
  using assms by (auto simp: stored_def rd_wr ok_wr fun_eq_iff)

lemma memset_stored:
  assumes ok: "\<And>k. k < n \<Longrightarrow> ok s (buf + k)" and Q: "Q s"
    and wr: "\<And>k t. k < n \<Longrightarrow> Q t \<Longrightarrow> Q (wr (buf + k) (ucast v) t)"
  shows "\<exists>s'. memset st buf v n s = Inr (buf, s') \<and>
              stored s (in_region buf n) (\<lambda>_. ucast v) Q s'"
proof -
  have "\<exists>s'. for_rangeE 0 n (\<lambda>i s. st (buf + i) (ucast v) s) s = Inr s' \<and>
             stored s (in_region buf n) (\<lambda>_. ucast v) Q s'"
  proof (rule for_rangeE_invariant[where P = "\<lambda>k. stored s (in_region buf k) (\<lambda>_. ucast v) Q"])
    fix k t assume k: "k < n" and t: "stored s (in_region buf k) (\<lambda>_. ucast v) Q t"
    then have "st (buf + k) (ucast v) t = Inr (wr (buf + k) (ucast v) t)"
      using ok by (intro st_ok) (simp add: stored_def)
    moreover have "stored s (in_region buf (k + 1)) (\<lambda>_. ucast v) Q (wr (buf + k) (ucast v) t)"
      using t ok[OF k] by (rule stored_step) (auto simp: in_region_inc[OF k] wr[OF k])
    ultimately show "\<exists>s'. st (buf + k) (ucast v) t = Inr s' \<and>
        stored s (in_region buf (k + 1)) (\<lambda>_. ucast v) Q s'" by blast
  qed (auto intro: stored_init Q)
  then show ?thesis by (auto simp: memset_def)
qed

text \<open>One iteration of a copying loop, whichever way it runs.\<close>

lemma copy_step:
  assumes t: "stored s A (\<lambda>c. rd s (src + (c - dst))) Q t"
    and ok: "ok s (dst + k)" "ok s (src + k)"
    and fresh: "\<not> A (src + k)"
    and B: "\<And>c. B c \<longleftrightarrow> A c \<or> c = dst + k"
    and wr: "\<And>b t. Q t \<Longrightarrow> Q (wr (dst + k) b t)"
  shows "\<exists>s'. bindE (ld (src + k) t) (\<lambda>b. st (dst + k) b t) = Inr s' \<and>
              stored s B (\<lambda>c. rd s (src + (c - dst))) Q s'"
proof -
  have rd: "rd t (src + k) = rd s (src + k)" and okt: "ok t = ok s"
    using t ok fresh by (auto simp: stored_def)
  have "stored s B (\<lambda>c. rd s (src + (c - dst))) Q (wr (dst + k) (rd t (src + k)) t)"
    using t ok(1) by (rule stored_step) (auto simp: rd B wr)
  then show ?thesis
    using ok okt by (simp add: ld_ok st_ok)
qed

lemma memcpy_stored:
  assumes ok: "\<And>k. k < n \<Longrightarrow> ok s (dst + k) \<and> ok s (src + k)" and Q: "Q s"
    and disj: "\<And>a. in_region dst n a \<Longrightarrow> \<not> in_region src n a"
    and wr: "\<And>k b t. k < n \<Longrightarrow> Q t \<Longrightarrow> Q (wr (dst + k) b t)"
  shows "\<exists>s'. memcpy ld st dst src n s = Inr (dst, s') \<and>
              stored s (in_region dst n) (\<lambda>c. rd s (src + (c - dst))) Q s'"
proof -
  let ?f = "\<lambda>c. rd s (src + (c - dst))"
  have "\<exists>s'. for_rangeE 0 n (\<lambda>i s. bindE (ld (src + i) s) (\<lambda>b. st (dst + i) b s)) s = Inr s' \<and>
             stored s (in_region dst n) ?f Q s'"
  proof (rule for_rangeE_invariant[where P = "\<lambda>k. stored s (in_region dst k) ?f Q"])
    fix k t assume k: "k < n" and t: "stored s (in_region dst k) ?f Q t"
    have "\<not> in_region dst k (src + k)"
      using disj[of "src + k"] k by (auto simp: in_region_def dest: order.strict_trans)
    then show "\<exists>s'. bindE (ld (src + k) t) (\<lambda>b. st (dst + k) b t) = Inr s' \<and>
        stored s (in_region dst (k + 1)) ?f Q s'"
      using ok[OF k] by (intro copy_step[OF t]) (auto simp: in_region_inc[OF k] wr[OF k])
  qed (auto intro: stored_init Q)
  then show ?thesis by (auto simp: memcpy_def)
qed

lemma memmove_stored:
  assumes ok: "\<And>k. k < n \<Longrightarrow> ok s (dst + k) \<and> ok s (src + k)" and Q: "Q s"
    and src: "unat src + unat n \<le> 2 ^ 32" and dst: "unat dst + unat n \<le> 2 ^ 32"
    and wr: "\<And>k b t. k < n \<Longrightarrow> Q t \<Longrightarrow> Q (wr (dst + k) b t)"
  shows "\<exists>s'. memmove ld st dst src n s = Inr (dst, s') \<and>
              stored s (in_region dst n) (\<lambda>c. rd s (src + (c - dst))) Q s'"
proof (cases "dst < src")
  case True
  let ?f = "\<lambda>c. rd s (src + (c - dst))"
  have "\<exists>s'. for_rangeE 0 n (\<lambda>i s. bindE (ld (src + i) s) (\<lambda>b. st (dst + i) b s)) s = Inr s' \<and>
             stored s (in_region dst n) ?f Q s'"
  proof (rule for_rangeE_invariant[where P = "\<lambda>k. stored s (in_region dst k) ?f Q"])
    fix k t assume k: "k < n" and t: "stored s (in_region dst k) ?f Q t"
    have "\<not> in_region dst k (src + k)"
      using forward_unread[OF True k src] by (simp add: in_region_def)
    then show "\<exists>s'. bindE (ld (src + k) t) (\<lambda>b. st (dst + k) b t) = Inr s' \<and>
        stored s (in_region dst (k + 1)) ?f Q s'"
      using ok[OF k] by (intro copy_step[OF t]) (auto simp: in_region_inc[OF k] wr[OF k])
  qed (auto intro: stored_init Q)
  with True show ?thesis by (auto simp: memmove_def)
next
  case False
  let ?f = "\<lambda>c. rd s (src + (c - dst))"
  let ?A = "\<lambda>k c. in_region dst n c \<and> \<not> in_region dst k c"
  have "\<exists>s'. for_downE n (\<lambda>i s. bindE (ld (src + i) s) (\<lambda>b. st (dst + i) b s)) s = Inr s' \<and>
             stored s (?A 0) ?f Q s'"
  proof (rule for_downE_invariant[where P = "\<lambda>k. stored s (?A k) ?f Q"])
    fix k t assume k: "k < n" and t: "stored s (?A (k + 1)) ?f Q t"
    have "\<not> ?A (k + 1) (src + k)"
      using backward_unread[of src dst k n] False k dst
      unfolding in_region_inc_le[OF k] by (auto simp: in_region_def)
    then show "\<exists>s'. bindE (ld (src + k) t) (\<lambda>b. st (dst + k) b t) = Inr s' \<and>
        stored s (?A k) ?f Q s'"
      using ok[OF k] k
      by (intro copy_step[OF t]) (auto simp: in_region_inc[OF k] wr[OF k])
  qed (auto intro: stored_init Q)
  with False show ?thesis by (auto simp: memmove_def)
qed

text \<open>\<^verbatim>\<open>memcmp\<close> compares the two regions in the lexicographic order of their bytes.\<close>

lemma memcmp_lexord:
  assumes ok: "\<And>k. k < n \<Longrightarrow> ok s (a + k) \<and> ok s (b + k)"
  defines "xs \<equiv> region_bytes (rd s) a n" and "ys \<equiv> region_bytes (rd s) b n"
  shows "memcmp ld a b n s =
    Inr (if xs = ys then 0 else if (xs, ys) \<in> lexord {(u, v). u < v} then - 1 else 1)"
proof -
  let ?f = "memcmp_byte ld a b s"
  have f: "?f k = (if rd s (a + k) < rd s (b + k) then Some (Inr (-1))
                   else if rd s (b + k) < rd s (a + k) then Some (Inr 1) else None)"
    if "k < n" for k
    using ok[OF that] by (simp add: ld_ok memcmp_byte_def)
  have len: "length xs = unat n" "length ys = unat n"
    by (simp_all add: xs_def ys_def region_bytes_def)
  have nth: "xs ! unat k = rd s (a + k)" "ys ! unat k = rd s (b + k)" if "k < n" for k
    using that by (simp_all add: xs_def ys_def region_bytes_def word_less_nat_alt)
  have same: "xs ! i = ys ! i" if "i < unat m" "\<And>j. j < m \<Longrightarrow> ?f j = None" "m \<le> n" for i m
  proof -
    from that(1) have i: "(of_nat i :: u32) < m" "unat (of_nat i :: u32) = i"
      by (simp_all add: of_nat_below unat_of_nat_below)
    with that(3) have n: "(of_nat i :: u32) < n" by simp
    from that(2)[OF i(1)] f[OF n] nth[OF n] show ?thesis
      by (auto simp: i(2) split: if_splits)
  qed
  show ?thesis
  proof (cases "find_range 0 n ?f")
    case None
    then have "xs = ys"
      using len by (intro nth_equalityI same) (auto simp: find_range_None)
    with None show ?thesis by (simp add: memcmp_def)
  next
    case (Some r)
    then obtain k where k: "k < n" "?f k = Some r" "\<And>j. j < k \<Longrightarrow> ?f j = None"
      by (auto elim!: find_range_Some)
    then have ne: "xs ! unat k \<noteq> ys ! unat k"
      and r: "r = Inr (if xs ! unat k < ys ! unat k then -1 else 1)"
      using f nth by (auto split: if_splits)
    have "(xs, ys) \<in> lexord {(u, v). u < v} \<longleftrightarrow> xs ! unat k < ys ! unat k"
      using k len ne by (intro lexord_first_difference same) (auto simp: word_less_nat_alt word_le_nat_alt)
    moreover have "xs \<noteq> ys" using ne by auto
    ultimately show ?thesis using Some r by (simp add: memcmp_def)
  qed
qed

text \<open>\<^verbatim>\<open>strlen\<close> stops at the first zero byte, whenever there is one.\<close>

lemma strlen_first_zero:
  assumes ok: "\<And>i. i \<le> n \<Longrightarrow> ok s (str + of_nat i)"
    and nz: "\<And>i. i < n \<Longrightarrow> rd s (str + of_nat i) \<noteq> 0" and z: "rd s (str + of_nat n) = 0"
  shows "strlen ld str s = Inr (of_nat n)"
proof -
  have "strlen_loop ld str (of_nat i) s = Some (Inr (of_nat n))" if "i \<le> n" for i
    using that
  proof (induction i rule: inc_induct)
    case base
    show ?case using ok[of n] z by (subst strlen_loop.simps) (simp add: ld_ok)
  next
    case (step i)
    then show ?case using ok[of i] nz[of i]
      by (subst strlen_loop.simps) (simp add: ld_ok add.commute)
  qed
  from this[of 0] show ?thesis by (simp add: strlen_def)
qed

end

section \<open>Flat memory\<close>

text \<open>The memory of a C program that every address of which can be read and written.\<close>

type_synonym mem = "u32 \<Rightarrow> u8"

definition flat_ld :: "u32 \<Rightarrow> mem \<Rightarrow> u8 res" where
  "flat_ld a m = Inr (m a)"

definition flat_st :: "u32 \<Rightarrow> u8 \<Rightarrow> mem \<Rightarrow> mem res" where
  "flat_st a b m = Inr (m(a := b))"

interpretation flat: byte_memory flat_ld flat_st "\<lambda>m a. m a" "\<lambda>a b m. m(a := b)" "\<lambda>_ _. True"
  by unfold_locales (auto simp: flat_ld_def flat_st_def)

lemma flat_stored_eq:
  "flat.stored m A f (\<lambda>_. True) m' \<longleftrightarrow> m' = (\<lambda>c. if A c then f c else m c)"
  by (auto simp: flat.stored_def fun_eq_iff)

lemma flat_memset:
  "memset flat_st buf v n m = Inr (buf, \<lambda>c. if in_region buf n c then ucast v else m c)"
  using flat.memset_stored[where s = m and Q = "\<lambda>_. True" and buf = buf and v = v and n = n]
  by (auto simp: flat_stored_eq)

lemma flat_memmove:
  assumes "unat src + unat n \<le> 2 ^ 32" "unat dst + unat n \<le> 2 ^ 32"
  shows "memmove flat_ld flat_st dst src n m =
    Inr (dst, \<lambda>c. if in_region dst n c then m (src + (c - dst)) else m c)"
  using flat.memmove_stored[where s = m and Q = "\<lambda>_. True", OF _ _ assms]
  by (auto simp: flat_stored_eq)

lemma strlen_loop_no_zero:
  assumes nz: "\<And>a. m a \<noteq> 0"
  shows "strlen_loop flat_ld str len m = None"
proof (rule ccontr)
  assume "strlen_loop flat_ld str len m \<noteq> None"
  then obtain r where r: "strlen_loop flat_ld str len m = Some r" by blast
  have "flat_ld = flat_ld \<longrightarrow> m = m \<longrightarrow> False"
  proof (rule strlen_loop.raw_induct[where P = "\<lambda>ld str len s r. ld = flat_ld \<longrightarrow> s = m \<longrightarrow> False",
        OF _ r])
    fix f :: "(u32 \<Rightarrow> mem \<Rightarrow> u8 res) \<Rightarrow> u32 \<Rightarrow> u32 \<Rightarrow> mem \<Rightarrow> u32 res option"
      and ld str len s r
    assume IH: "\<And>ld str len s r. f ld str len s = Some r \<Longrightarrow> ld = flat_ld \<longrightarrow> s = m \<longrightarrow> False"
      and eq: "(case ld (str + len) s of Inl e \<Rightarrow> Some (Inl e)
        | Inr b \<Rightarrow> if b \<noteq> 0 then f ld str (len + 1) s else Some (Inr len)) = Some r"
    show "ld = flat_ld \<longrightarrow> s = m \<longrightarrow> False"
      using eq IH[of ld str "len + 1" s r] by (auto simp: flat_ld_def nz)
  qed
  then show False by simp
qed

lemma strlen_diverges: "\<forall>a. m a \<noteq> 0 \<Longrightarrow> strlen flat_ld str m = Inl No_return"
  by (simp add: strlen_def strlen_loop_no_zero)

section \<open>Properties\<close>

text \<open>
  C33. \<^verbatim>\<open>memmove\<close> copies as if through a temporary: whatever way the two regions overlap, as long
  as neither runs over the end of the address space, every destination byte gets the value its
  source byte had before the call, every other byte is untouched, and the destination pointer
  is returned.
\<close>

theorem memmove_overlap:
  assumes "unat src + unat n \<le> 2 ^ 32" and "unat dst + unat n \<le> 2 ^ 32"
  shows "memmove flat_ld flat_st dst src n m =
    Inr (dst, \<lambda>c. if in_region dst n c then m (src + (c - dst)) else m c)"
  using assms by (rule flat_memmove)

theorem memmove_overlap_witness:
  "unat (0x1000 :: u32) + unat (8 :: u32) \<le> 2 ^ 32 \<and>
   unat (0x1003 :: u32) + unat (8 :: u32) \<le> 2 ^ 32 \<and>
   (\<exists>m'. memmove flat_ld flat_st 0x1003 0x1000 8 (\<lambda>a. ucast a) = Inr (0x1003, m') \<and>
         m' 0x1005 = 2 \<and> m' 0x100A = 7 \<and> m' 0x100B = 0x0B)"
  using memmove_overlap[of "0x1000" 8 "0x1003" "\<lambda>a. ucast a"] by (simp add: in_region_def)

text \<open>
  \<^verbatim>\<open>memcpy\<close> on regions that do not overlap (what \<^verbatim>\<open>restrict\<close> promises) copies every byte and
  touches nothing else.
\<close>

theorem memcpy_disjoint:
  assumes "\<And>a. in_region dst n a \<Longrightarrow> \<not> in_region src n a"
  shows "memcpy flat_ld flat_st dst src n m =
    Inr (dst, \<lambda>c. if in_region dst n c then m (src + (c - dst)) else m c)"
  using flat.memcpy_stored[where s = m and Q = "\<lambda>_. True", OF _ _ assms]
  by (auto simp: flat_stored_eq)

theorem memcpy_disjoint_witness:
  "Collect (in_region 0x2000 4) \<inter> Collect (in_region 0x1000 4) = {} \<and>
   memcpy flat_ld flat_st 0x2000 0x1000 4 (\<lambda>a. ucast a) =
     Inr (0x2000, \<lambda>c. if in_region 0x2000 4 c then ucast (0x1000 + (c - 0x2000)) else ucast c)"
proof -
  have d: "\<not> in_region 0x1000 4 a" if "in_region 0x2000 4 a" for a
    using that by (auto simp: in_region_def word_less_nat_alt unat_sub_if' split: if_splits)
  show ?thesis using memcpy_disjoint[of "0x2000" 4 "0x1000" "\<lambda>a. ucast a", OF d] d by blast
qed

text \<open>\<^verbatim>\<open>memset\<close> fills exactly the region with the low byte of its value argument.\<close>

theorem memset_fills:
  "memset flat_st buf v n m = Inr (buf, \<lambda>c. if in_region buf n c then ucast v else m c)"
  by (rule flat_memset)

text \<open>
  \<^verbatim>\<open>memcmp\<close> is zero exactly on equal regions and otherwise has the sign of the
  lexicographic order of the two byte sequences, compared as unsigned bytes.
\<close>

theorem memcmp_sign:
  "memcmp flat_ld a b n m =
     Inr (if region_bytes m a n = region_bytes m b n then 0
          else if (region_bytes m a n, region_bytes m b n) \<in> lexord {(u, v). u < v} then - 1
          else 1)"
  using flat.memcmp_lexord[where s = m and a = a and b = b and n = n] by simp

text \<open>
  C36. \<^verbatim>\<open>strlen\<close> returns the number of bytes before the first zero byte whenever there is one,
  and never returns when the whole address space holds none.
\<close>

theorem strlen_spec:
  "(n < 2 ^ 32 \<and> (\<forall>i<n. m (str + of_nat i) \<noteq> 0) \<and> m (str + of_nat n) = 0 \<longrightarrow>
      strlen flat_ld str m = Inr (of_nat n)) \<and>
   ((\<forall>a. m a \<noteq> 0) \<longrightarrow> strlen flat_ld str m = Inl No_return)"
  using flat.strlen_first_zero[where s = m and str = str and n = n]
    strlen_diverges[of m str] by blast

theorem strlen_spec_witness:
  "strlen flat_ld 0x1000 (\<lambda>a. if a = 0x1003 then 0 else 65) = Inr 3 \<and>
   strlen flat_ld 0 (\<lambda>_. 65) = Inl No_return"
proof -
  have "\<forall>i<3. (0x1000 + of_nat i :: u32) \<noteq> 0x1003"
    by (auto simp: numeral_3_eq_3 less_Suc_eq)
  then show ?thesis
    using strlen_spec[of 3 "\<lambda>a. if a = 0x1003 then 0 else 65" "0x1000"]
      strlen_spec[of 0 "\<lambda>_. 65" 0] by simp
qed

end
