(* ===== verification/Serial.thy ===== *)
theory Serial
  imports Prelude
begin

text \<open>
  The serial driver of \<^verbatim>\<open>src/kernel/arch/i386/serial.c\<close>. The chip on the other side of the I/O
  ports is not part of the program: what an \<^verbatim>\<open>inb\<close> returns is a function \<open>dev\<close> of the ports
  accessed so far, an argument of every operation. The sequence of port accesses is the state,
  and the registers of a 16550 after a sequence of accesses say what the driver has made it do.
\<close>

section \<open>Port accesses\<close>

datatype port_io = Outb u16 u8 | Inb u16 u8

type_synonym device = "port_io list \<Rightarrow> u16 \<Rightarrow> u8"

record serial_state =
  io :: "port_io list"

abbreviation (input) COM1_PORT :: u16 where "COM1_PORT \<equiv> 0x3F8"
abbreviation (input) REG_DATA :: u16 where "REG_DATA \<equiv> 0"
abbreviation (input) REG_INT_ENABLE :: u16 where "REG_INT_ENABLE \<equiv> 1"
abbreviation (input) REG_INT_ID :: u16 where "REG_INT_ID \<equiv> 2"
abbreviation (input) REG_LINE_CTRL :: u16 where "REG_LINE_CTRL \<equiv> 3"
abbreviation (input) REG_MODEM_CTRL :: u16 where "REG_MODEM_CTRL \<equiv> 4"
abbreviation (input) REG_LINE_STATUS :: u16 where "REG_LINE_STATUS \<equiv> 5"
abbreviation (input) LSR_DATA_READY :: u8 where "LSR_DATA_READY \<equiv> 0x01"
abbreviation (input) LSR_TX_EMPTY :: u8 where "LSR_TX_EMPTY \<equiv> 0x20"

definition outb :: "u16 \<Rightarrow> u8 \<Rightarrow> 'a serial_state_scheme \<Rightarrow> 'a serial_state_scheme" where
  "outb port v s = s\<lparr>io := io s @ [Outb port v]\<rparr>"

definition inb :: "device \<Rightarrow> u16 \<Rightarrow> 'a serial_state_scheme \<Rightarrow> u8 \<times> 'a serial_state_scheme" where
  "inb dev port s = (let v = dev (io s) port in (v, s\<lparr>io := io s @ [Inb port v]\<rparr>))"

section \<open>The driver\<close>

definition serial_init :: "device \<Rightarrow> u16 \<Rightarrow> 'a serial_state_scheme \<Rightarrow> bool \<times> 'a serial_state_scheme" where
  "serial_init dev port s =
     (let s = outb (port + REG_INT_ENABLE) 0x00 s;
          s = outb (port + REG_LINE_CTRL) 0x80 s;
          s = outb (port + REG_DATA) 0x01 s;
          s = outb (port + REG_INT_ENABLE) 0x00 s;
          s = outb (port + REG_LINE_CTRL) 0x03 s;
          s = outb (port + REG_INT_ID) 0xC7 s;
          s = outb (port + REG_MODEM_CTRL) 0x0B s;
          s = outb (port + REG_MODEM_CTRL) 0x1E s;
          s = outb (port + REG_DATA) 0xAE s;
          (v, s) = inb dev (port + REG_DATA) s
      in if v \<noteq> 0xAE then (False, s)
         else (True, outb (port + REG_MODEM_CTRL) 0x0F s))"

definition serial_init_com1 :: "device \<Rightarrow> 'a serial_state_scheme \<Rightarrow> bool \<times> 'a serial_state_scheme" where
  "serial_init_com1 dev s = serial_init dev COM1_PORT s"

definition serial_is_transmit_ready ::
  "device \<Rightarrow> u16 \<Rightarrow> 'a serial_state_scheme \<Rightarrow> bool \<times> 'a serial_state_scheme" where
  "serial_is_transmit_ready dev port s =
     (let (v, s) = inb dev (port + REG_LINE_STATUS) s in (v AND LSR_TX_EMPTY \<noteq> 0, s))"

text \<open>A busy wait \<^verbatim>\<open>while (!cond()) {}\<close>: \<^term>\<open>None\<close> when the condition never holds.\<close>

partial_function (option) wait_until :: "('s \<Rightarrow> bool \<times> 's) \<Rightarrow> 's \<Rightarrow> 's option" where
  "wait_until c s = (case c s of (ready, s') \<Rightarrow> if ready then Some s' else wait_until c s')"

definition serial_write_byte ::
  "device \<Rightarrow> u16 \<Rightarrow> u8 \<Rightarrow> 'a serial_state_scheme \<Rightarrow> 'a serial_state_scheme res" where
  "serial_write_byte dev port byte s =
     (case wait_until (serial_is_transmit_ready dev port) s of
        None \<Rightarrow> Inl No_return
      | Some s' \<Rightarrow> Inr (outb (port + REG_DATA) byte s'))"

definition serial_com1_write_byte :: "device \<Rightarrow> u8 \<Rightarrow> 'a serial_state_scheme \<Rightarrow> 'a serial_state_scheme res" where
  "serial_com1_write_byte dev byte s = serial_write_byte dev COM1_PORT byte s"

fun serial_com1_write_string ::
  "device \<Rightarrow> string \<Rightarrow> 'a serial_state_scheme \<Rightarrow> 'a serial_state_scheme res" where
  "serial_com1_write_string dev [] s = Inr s"
| "serial_com1_write_string dev (c # str) s =
     (if c = CHR 0x00 then Inr s
      else bindE (serial_com1_write_byte dev (of_char c) s) (serial_com1_write_string dev str))"

definition serial_is_received ::
  "device \<Rightarrow> u16 \<Rightarrow> 'a serial_state_scheme \<Rightarrow> bool \<times> 'a serial_state_scheme" where
  "serial_is_received dev port s =
     (let (v, s) = inb dev (port + REG_LINE_STATUS) s in (v AND LSR_DATA_READY \<noteq> 0, s))"

definition serial_read_byte ::
  "device \<Rightarrow> u16 \<Rightarrow> 'a serial_state_scheme \<Rightarrow> (u8 \<times> 'a serial_state_scheme) res" where
  "serial_read_byte dev port s =
     (case wait_until (serial_is_received dev port) s of
        None \<Rightarrow> Inl No_return
      | Some s' \<Rightarrow> Inr (inb dev (port + REG_DATA) s'))"

definition serial_com1_read_byte :: "device \<Rightarrow> 'a serial_state_scheme \<Rightarrow> (u8 \<times> 'a serial_state_scheme) res" where
  "serial_com1_read_byte dev s = serial_read_byte dev COM1_PORT s"

section \<open>Busy waits\<close>

text \<open>The state after \<open>n\<close> evaluations of the condition.\<close>

primrec after :: "('s \<Rightarrow> bool \<times> 's) \<Rightarrow> nat \<Rightarrow> 's \<Rightarrow> 's" where
  "after c 0 s = s"
| "after c (Suc n) s = after c n (snd (c s))"

lemma after_last: "after c (Suc n) s = snd (c (after c n s))"
  by (induction n arbitrary: s) simp_all

lemma wait_until_Some:
  assumes "\<forall>i<n. \<not> fst (c (after c i s))" and "fst (c (after c n s))"
  shows "wait_until c s = Some (after c (Suc n) s)"
  using assms
proof (induction n arbitrary: s)
  case 0
  then show ?case by (subst wait_until.simps) (simp add: case_prod_beta)
next
  case (Suc n)
  have "\<not> fst (c s)" using Suc.prems(1) by force
  moreover have "\<forall>i<n. \<not> fst (c (after c i (snd (c s))))" using Suc.prems(1) by force
  then have "wait_until c (snd (c s)) = Some (after c (Suc n) (snd (c s)))"
    using Suc.prems(2) by (intro Suc.IH) simp_all
  ultimately show ?case by (subst wait_until.simps) (simp add: case_prod_beta)
qed

lemma wait_until_None:
  fixes c :: "'s \<Rightarrow> bool \<times> 's"
  assumes "\<forall>i. \<not> fst (c (after c i s))"
  shows "wait_until c s = None"
proof (rule ccontr)
  assume "wait_until c s \<noteq> None"
  then obtain r where r: "wait_until c s = Some r" by blast
  have "\<exists>i. fst (c (after c i s))"
  proof (rule wait_until.raw_induct[OF _ r])
    fix f :: "('s \<Rightarrow> bool \<times> 's) \<Rightarrow> 's \<Rightarrow> 's option" and c s r
    assume IH: "\<And>c s r. f c s = Some r \<Longrightarrow> \<exists>i. fst (c (after c i s))"
      and eq: "(case c s of (ready, s') \<Rightarrow> if ready then Some s' else f c s') = Some r"
    show "\<exists>i. fst (c (after c i s))"
    proof (cases "fst (c s)")
      case True
      then show ?thesis by (intro exI[of _ 0]) simp
    next
      case False
      then have "f c (snd (c s)) = Some r" using eq by (simp add: case_prod_beta)
      from IH[OF this] obtain i where "fst (c (after c i (snd (c s))))" by blast
      then show ?thesis by (intro exI[of _ "Suc i"]) simp
    qed
  qed
  with assms show False by blast
qed

text \<open>A wait ends if the condition holds at some point, and then after the first such point.\<close>

lemma wait_until_ends:
  assumes "fst (c (after c m s))"
  obtains n where "wait_until c s = Some (after c (Suc n) s)" "fst (c (after c n s))"
proof -
  obtain n where "fst (c (after c n s))" "\<forall>i<n. \<not> fst (c (after c i s))"
    using assms exists_least_iff[of "\<lambda>n. fst (c (after c n s))"] by auto
  then show ?thesis using that wait_until_Some[of n c s] by blast
qed

text \<open>Polling reads the line status and nothing else.\<close>

definition polls :: "u16 \<Rightarrow> 'a serial_state_scheme \<Rightarrow> 'a serial_state_scheme \<Rightarrow> bool" where
  "polls port s t \<longleftrightarrow> (\<exists>vs. t = s\<lparr>io := io s @ map (Inb (port + REG_LINE_STATUS)) vs\<rparr>)"

lemma after_polls:
  assumes "\<And>s. \<exists>v. snd (c s) = s\<lparr>io := io s @ [Inb (port + REG_LINE_STATUS) v]\<rparr>"
  shows "polls port s (after c n s)"
proof (induction n)
  case 0
  show ?case unfolding polls_def by (intro exI[of _ "[]"]) simp
next
  case (Suc n)
  then obtain vs where vs: "after c n s = s\<lparr>io := io s @ map (Inb (port + 5)) vs\<rparr>"
    by (auto simp: polls_def)
  obtain v where "snd (c (after c n s)) = (after c n s)\<lparr>io := io (after c n s) @ [Inb (port + 5) v]\<rparr>"
    using assms by blast
  then show ?case unfolding polls_def after_last
    by (intro exI[of _ "vs @ [v]"]) (simp add: vs)
qed

lemma transmit_polls: "polls port s (after (serial_is_transmit_ready dev port) n s)"
  and receive_polls: "polls port s (after (serial_is_received dev port) n s)"
  by (rule after_polls, simp add: serial_is_transmit_ready_def serial_is_received_def inb_def Let_def,
      blast)+

section \<open>Readiness\<close>

text \<open>
  The accesses so far after \<open>n\<close> more reads of the line status, and the documented behaviour of the
  chip that the driver relies on: from any point on, its transmitter becomes empty after finitely
  many reads.
\<close>

primrec status_reads :: "device \<Rightarrow> u16 \<Rightarrow> nat \<Rightarrow> port_io list \<Rightarrow> port_io list" where
  "status_reads dev port 0 h = h"
| "status_reads dev port (Suc n) h =
     status_reads dev port n (h @ [Inb (port + REG_LINE_STATUS) (dev h (port + REG_LINE_STATUS))])"

definition ready_after :: "device \<Rightarrow> u16 \<Rightarrow> u8 \<Rightarrow> port_io list \<Rightarrow> nat \<Rightarrow> bool" where
  "ready_after dev port bits h n \<longleftrightarrow>
     dev (status_reads dev port n h) (port + REG_LINE_STATUS) AND bits \<noteq> 0"

definition transmit_live :: "device \<Rightarrow> u16 \<Rightarrow> bool" where
  "transmit_live dev port \<longleftrightarrow> (\<forall>h. \<exists>n. ready_after dev port LSR_TX_EMPTY h n)"

lemma ready_conditions:
  "fst (serial_is_transmit_ready dev port (after (serial_is_transmit_ready dev port) n s)) \<longleftrightarrow>
     ready_after dev port LSR_TX_EMPTY (io s) n"
  "fst (serial_is_received dev port (after (serial_is_received dev port) n s)) \<longleftrightarrow>
     ready_after dev port LSR_DATA_READY (io s) n"
proof -
  have "io (after (serial_is_transmit_ready dev port) n s) = status_reads dev port n (io s)"
    "io (after (serial_is_received dev port) n s) = status_reads dev port n (io s)"
    by (induction n arbitrary: s)
      (simp_all add: serial_is_transmit_ready_def serial_is_received_def inb_def Let_def)
  then show "fst (serial_is_transmit_ready dev port (after (serial_is_transmit_ready dev port) n s)) \<longleftrightarrow>
     ready_after dev port LSR_TX_EMPTY (io s) n"
  "fst (serial_is_received dev port (after (serial_is_received dev port) n s)) \<longleftrightarrow>
     ready_after dev port LSR_DATA_READY (io s) n"
    by (simp_all add: serial_is_transmit_ready_def serial_is_received_def inb_def Let_def ready_after_def)
qed

lemma serial_write_ok:
  assumes "ready_after dev port LSR_TX_EMPTY (io s) n"
  obtains t where "polls port s t" "serial_write_byte dev port byte s = Inr (outb (port + REG_DATA) byte t)"
proof -
  let ?c = "serial_is_transmit_ready dev port"
  have "fst (?c (after ?c n s))" using assms by (simp add: ready_conditions)
  then obtain m where "wait_until ?c s = Some (after ?c (Suc m) s)" by (rule wait_until_ends)
  then show ?thesis
    using that[OF transmit_polls[where n = "Suc m" and dev = dev]] by (simp add: serial_write_byte_def)
qed

lemma serial_write_stuck:
  assumes "\<forall>n. \<not> ready_after dev port LSR_TX_EMPTY (io s) n"
  shows "serial_write_byte dev port byte s = Inl No_return"
  using assms
  by (simp add: serial_write_byte_def wait_until_None ready_conditions)

lemma serial_read_ok:
  assumes "ready_after dev port LSR_DATA_READY (io s) n"
  obtains t where "polls port s t" "serial_read_byte dev port s = Inr (inb dev (port + REG_DATA) t)"
proof -
  let ?c = "serial_is_received dev port"
  have "fst (?c (after ?c n s))" using assms by (simp add: ready_conditions)
  then obtain m where "wait_until ?c s = Some (after ?c (Suc m) s)" by (rule wait_until_ends)
  then show ?thesis
    using that[OF receive_polls[where n = "Suc m" and dev = dev]] by (simp add: serial_read_byte_def)
qed

section \<open>The chip behind the ports\<close>

text \<open>
  The registers of a 16550 and the bytes it has put on the line. The data and interrupt enable
  ports reach the divisor latch while bit 7 of the line control register is set, and bytes sent
  while bit 4 of the modem control register is set are looped back instead of transmitted.
\<close>

record uart =
  lcr :: u8
  mcr :: u8
  ier :: u8
  fcr :: u8
  divisor_low :: u8
  divisor_high :: u8
  line :: "u8 list"

definition uart_write :: "u16 \<Rightarrow> u8 \<Rightarrow> uart \<Rightarrow> uart" where
  "uart_write off v u =
     (if off = REG_DATA
      then (if bit (lcr u) 7 then u\<lparr>divisor_low := v\<rparr>
            else if bit (mcr u) 4 then u else u\<lparr>line := line u @ [v]\<rparr>)
      else if off = REG_INT_ENABLE
      then (if bit (lcr u) 7 then u\<lparr>divisor_high := v\<rparr> else u\<lparr>ier := v\<rparr>)
      else if off = REG_INT_ID then u\<lparr>fcr := v\<rparr>
      else if off = REG_LINE_CTRL then u\<lparr>lcr := v\<rparr>
      else if off = REG_MODEM_CTRL then u\<lparr>mcr := v\<rparr> else u)"

fun uart_access :: "u16 \<Rightarrow> port_io \<Rightarrow> uart \<Rightarrow> uart" where
  "uart_access port (Outb p v) u = uart_write (p - port) v u"
| "uart_access port (Inb p v) u = u"

definition uart_after :: "u16 \<Rightarrow> uart \<Rightarrow> 'a serial_state_scheme \<Rightarrow> uart" where
  "uart_after port u s = fold (uart_access port) (io s) u"

lemma uart_after_outb [simp]:
  "uart_after port u (outb p v s) = uart_write (p - port) v (uart_after port u s)"
  by (simp add: uart_after_def outb_def)

lemma uart_after_inb [simp]: "uart_after port u (snd (inb dev p s)) = uart_after port u s"
  by (simp add: uart_after_def inb_def Let_def)

lemma uart_after_polls: "polls port s t \<Longrightarrow> uart_after port u t = uart_after port u s"
proof -
  have "fold (uart_access port) (map (Inb p) vs) u = u" for vs p u by (induction vs) simp_all
  then show "polls port s t \<Longrightarrow> uart_after port u t = uart_after port u s"
    by (auto simp: polls_def uart_after_def)
qed

text \<open>Ready to transmit what is written to the data port.\<close>

definition transmitting :: "uart \<Rightarrow> bool" where
  "transmitting u \<longleftrightarrow> \<not> bit (lcr u) 7 \<and> \<not> bit (mcr u) 4"

lemma com1_write_ok:
  assumes "transmit_live dev COM1_PORT"
  obtains t where "serial_com1_write_byte dev byte s = Inr t" "serial_state.more t = serial_state.more s"
    "uart_after COM1_PORT u t = uart_write REG_DATA byte (uart_after COM1_PORT u s)"
proof -
  obtain n where "ready_after dev COM1_PORT LSR_TX_EMPTY (io s) n"
    using assms by (auto simp: transmit_live_def)
  then obtain t where "polls COM1_PORT s t"
    "serial_write_byte dev COM1_PORT byte s = Inr (outb (COM1_PORT + REG_DATA) byte t)"
    by (rule serial_write_ok)
  then show ?thesis
    using that[of "outb (COM1_PORT + REG_DATA) byte t"] uart_after_polls[of COM1_PORT s t]
    by (cases s) (auto simp: serial_com1_write_byte_def outb_def polls_def uart_after_def)
qed

lemma transmit_byte:
  "transmitting u \<Longrightarrow> uart_write REG_DATA byte u = u\<lparr>line := line u @ [byte]\<rparr>"
  by (simp add: uart_write_def transmitting_def)

lemma com1_string_ok:
  assumes "transmit_live dev COM1_PORT" and "transmitting (uart_after COM1_PORT u s)"
  shows "\<exists>t. serial_com1_write_string dev str s = Inr t \<and> serial_state.more t = serial_state.more s \<and>
    uart_after COM1_PORT u t = (uart_after COM1_PORT u s)
      \<lparr>line := line (uart_after COM1_PORT u s) @ map of_char (takeWhile (\<lambda>c. c \<noteq> CHR 0x00) str)\<rparr>"
  using assms(2)
proof (induction str arbitrary: s)
  case (Cons c str)
  show ?case
  proof (cases "c = CHR 0x00")
    case False
    obtain t where t: "serial_com1_write_byte dev (of_char c) s = Inr t"
      "serial_state.more t = serial_state.more s"
      "uart_after COM1_PORT u t = uart_write REG_DATA (of_char c) (uart_after COM1_PORT u s)"
      by (rule com1_write_ok[OF assms(1)])
    then have u: "uart_after COM1_PORT u t = (uart_after COM1_PORT u s)
        \<lparr>line := line (uart_after COM1_PORT u s) @ [of_char c]\<rparr>"
      using transmit_byte[OF Cons.prems] by simp
    then have "transmitting (uart_after COM1_PORT u t)" using Cons.prems by (simp add: transmitting_def)
    from Cons.IH[OF this] t(1,2) u False show ?thesis by auto
  qed simp
qed simp

lemma serial_init_uart:
  "case serial_init dev port s of (ok, t) \<Rightarrow>
     let u' = uart_after port u t in
     divisor_low u' = 1 \<and> divisor_high u' = 0 \<and> lcr u' = 3 \<and> fcr u' = 0xC7 \<and>
     line u' = line (uart_after port u s) \<and>
     (ok \<longleftrightarrow> dev (take (length (io s) + 9) (io t)) port = 0xAE) \<and>
     (if ok then transmitting u' \<and> mcr u' = 0x0F else \<not> transmitting u')"
proof -
  have bits: "bit (0x80 :: u8) 7" "\<not> bit (3 :: u8) 7" "bit (0x1E :: u8) 4" "\<not> bit (0x0F :: u8) 4"
    by (simp_all add: bit_numeral_rec)
  show ?thesis
    unfolding serial_init_def inb_def Let_def
    by (simp add: uart_after_def outb_def uart_write_def transmitting_def bits)
qed

section \<open>Properties\<close>

text \<open>
  C30. \<^verbatim>\<open>serial_init\<close> programs the chip for 115200 baud, 8 data bits, no parity, one stop bit,
  FIFOs on and interrupts off, and puts nothing on the line. It succeeds exactly if the test byte
  comes back, and then leaves the chip transmitting; if it fails, it leaves the chip in loopback.
\<close>

theorem serial_init_configures:
  "case serial_init dev port s of (ok, t) \<Rightarrow>
     let u' = uart_after port u t in
     divisor_low u' = 1 \<and> divisor_high u' = 0 \<and> lcr u' = 3 \<and> fcr u' = 0xC7 \<and>
     line u' = line (uart_after port u s) \<and>
     (ok \<longleftrightarrow> dev (take (length (io s) + 9) (io t)) port = 0xAE) \<and>
     (if ok then transmitting u' \<and> mcr u' = 0x0F else \<not> transmitting u')"
  by (rule serial_init_uart)

text \<open>
  C32. A byte is sent exactly when the transmitter becomes empty at some read of the line status:
  then the driver has read that register only, and written the byte last; otherwise it waits
  forever.
\<close>

theorem serial_write_total:
  "if \<exists>n. ready_after dev port LSR_TX_EMPTY (io s) n
   then \<exists>vs. serial_write_byte dev port byte s =
     Inr (s\<lparr>io := io s @ map (Inb (port + REG_LINE_STATUS)) vs @ [Outb port byte]\<rparr>)
   else serial_write_byte dev port byte s = Inl No_return"
proof (cases "\<exists>n. ready_after dev port LSR_TX_EMPTY (io s) n")
  case True
  then obtain n where "ready_after dev port LSR_TX_EMPTY (io s) n" by blast
  then obtain t where "polls port s t"
    "serial_write_byte dev port byte s = Inr (outb (port + REG_DATA) byte t)" by (rule serial_write_ok)
  with True show ?thesis by (auto simp: polls_def outb_def)
next
  case False
  then show ?thesis using serial_write_stuck[of dev port s byte] by auto
qed

text \<open>
  A byte is received exactly when the chip reports data at some read of the line status; what
  is returned is what the data register then holds.
\<close>

theorem serial_read_total:
  "if \<exists>n. ready_after dev port LSR_DATA_READY (io s) n
   then \<exists>vs. let h = io s @ map (Inb (port + REG_LINE_STATUS)) vs in
     serial_read_byte dev port s = Inr (dev h port, s\<lparr>io := h @ [Inb port (dev h port)]\<rparr>)
   else serial_read_byte dev port s = Inl No_return"
proof (cases "\<exists>n. ready_after dev port LSR_DATA_READY (io s) n")
  case True
  then obtain n where "ready_after dev port LSR_DATA_READY (io s) n" by blast
  then obtain t where "polls port s t"
    "serial_read_byte dev port s = Inr (inb dev (port + REG_DATA) t)" by (rule serial_read_ok)
  with True show ?thesis by (auto simp: polls_def inb_def Let_def)
next
  case False
  then show ?thesis by (simp add: serial_read_byte_def wait_until_None ready_conditions)
qed

text \<open>
  C29. On a chip whose transmitter always empties again, after a successful initialisation of COM1
  \<^verbatim>\<open>serial_com1_write_string\<close> returns and the line has carried exactly the characters of the string
  before its terminator, in order.
\<close>

theorem serial_string_delivered:
  assumes "transmit_live dev COM1_PORT" and "serial_init_com1 dev s = (True, t)"
  shows "\<exists>t'. serial_com1_write_string dev str t = Inr t' \<and>
    line (uart_after COM1_PORT u t') =
      line (uart_after COM1_PORT u s) @ map of_char (takeWhile (\<lambda>c. c \<noteq> CHR 0x00) str)"
proof -
  have "transmitting (uart_after COM1_PORT u t)"
    "line (uart_after COM1_PORT u t) = line (uart_after COM1_PORT u s)"
    using serial_init_uart[where dev = dev and port = COM1_PORT and s = s and u = u] assms(2)
    by (simp_all add: serial_init_com1_def Let_def)
  then show ?thesis using com1_string_ok[OF assms(1), of u t str] by auto
qed

text \<open>A chip that is always ready and passes the test, and one that answers every read with ones.\<close>

definition ideal_chip :: device where
  "ideal_chip h p = (if p = 0x3FD then 0x60 else 0xAE)"

definition absent_chip :: device where
  "absent_chip h p = 0xFF"

lemma chips_live: "transmit_live ideal_chip COM1_PORT" "transmit_live absent_chip COM1_PORT"
  unfolding transmit_live_def ready_after_def
  by (intro allI exI[of _ 0]; simp add: ideal_chip_def absent_chip_def)+

theorem serial_string_delivered_witness:
  "\<exists>t t'. transmit_live ideal_chip COM1_PORT \<and> serial_init_com1 ideal_chip \<lparr>io = []\<rparr> = (True, t) \<and>
     serial_com1_write_string ideal_chip ''ok'' t = Inr t' \<and>
     line (uart_after COM1_PORT \<lparr>lcr = 0, mcr = 0, ier = 0, fcr = 0, divisor_low = 0, divisor_high = 0,
       line = []\<rparr> t') = [0x6F, 0x6B]"
proof -
  let ?u = "\<lparr>lcr = 0, mcr = 0, ier = 0, fcr = 0, divisor_low = 0, divisor_high = 0, line = []\<rparr>"
  obtain t where t: "serial_init_com1 ideal_chip \<lparr>io = []\<rparr> = (True, t)"
    by (simp add: serial_init_com1_def serial_init_def inb_def ideal_chip_def Let_def)
  have "line (uart_after COM1_PORT ?u \<lparr>io = []\<rparr>) = []" by (simp add: uart_after_def)
  then show ?thesis
    using serial_string_delivered[OF chips_live(1) t, of "''ok''" ?u] t chips_live(1) by auto
qed

text \<open>In loopback with the divisor latch closed, sending leaves every register and the line alone.\<close>

lemma loopback_writes:
  fixes s :: "'a serial_state_scheme"
  assumes "transmit_live dev COM1_PORT" and "\<not> bit (lcr (uart_after COM1_PORT u s)) 7" and "bit (mcr (uart_after COM1_PORT u s)) 4"
  shows "\<exists>t. fold (\<lambda>b r. bindE r (serial_com1_write_byte dev b)) bytes (Inr s) = Inr t \<and>
    uart_after COM1_PORT u t = uart_after COM1_PORT u s"
  using assms(2,3)
proof (induction bytes arbitrary: s)
  case (Cons b bytes)
  obtain t where "serial_com1_write_byte dev b s = Inr t"
    "uart_after COM1_PORT u t = uart_write REG_DATA b (uart_after COM1_PORT u s)"
    by (rule com1_write_ok[OF assms(1)])
  moreover have "uart_write REG_DATA b (uart_after COM1_PORT u s) = uart_after COM1_PORT u s"
    using Cons.prems by (simp add: uart_write_def)
  ultimately show ?case using Cons.IH[of t] Cons.prems by simp
qed simp



end
