(* ===== verification/Tty.thy ===== *)
theory Tty
  imports Libc_String Serial
begin

text \<open>
  The text terminal of \<^verbatim>\<open>src/kernel/arch/i386/tty.c\<close> and \<^verbatim>\<open>vga.h\<close>. Its screen is 4000 bytes of the
  memory that the byte load \<open>ld\<close> and the byte store \<open>st\<close> reach, flat or paged; characters are also
  sent to COM1 while serial output is enabled.
\<close>

section \<open>Colours and entries\<close>

datatype vga_color =
    VGA_COLOR_BLACK | VGA_COLOR_BLUE | VGA_COLOR_GREEN | VGA_COLOR_CYAN
  | VGA_COLOR_RED | VGA_COLOR_MAGENTA | VGA_COLOR_BROWN | VGA_COLOR_LIGHT_GREY
  | VGA_COLOR_DARK_GREY | VGA_COLOR_LIGHT_BLUE | VGA_COLOR_LIGHT_GREEN | VGA_COLOR_LIGHT_CYAN
  | VGA_COLOR_LIGHT_RED | VGA_COLOR_LIGHT_MAGENTA | VGA_COLOR_LIGHT_BROWN | VGA_COLOR_WHITE

fun vga_color_value :: "vga_color \<Rightarrow> u32" where
  "vga_color_value VGA_COLOR_BLACK = 0"
| "vga_color_value VGA_COLOR_BLUE = 1"
| "vga_color_value VGA_COLOR_GREEN = 2"
| "vga_color_value VGA_COLOR_CYAN = 3"
| "vga_color_value VGA_COLOR_RED = 4"
| "vga_color_value VGA_COLOR_MAGENTA = 5"
| "vga_color_value VGA_COLOR_BROWN = 6"
| "vga_color_value VGA_COLOR_LIGHT_GREY = 7"
| "vga_color_value VGA_COLOR_DARK_GREY = 8"
| "vga_color_value VGA_COLOR_LIGHT_BLUE = 9"
| "vga_color_value VGA_COLOR_LIGHT_GREEN = 10"
| "vga_color_value VGA_COLOR_LIGHT_CYAN = 11"
| "vga_color_value VGA_COLOR_LIGHT_RED = 12"
| "vga_color_value VGA_COLOR_LIGHT_MAGENTA = 13"
| "vga_color_value VGA_COLOR_LIGHT_BROWN = 14"
| "vga_color_value VGA_COLOR_WHITE = 15"

definition vga_entry_color :: "vga_color \<Rightarrow> vga_color \<Rightarrow> u8" where
  "vga_entry_color fg bg = ucast (vga_color_value fg OR push_bit 4 (vga_color_value bg))"

definition vga_entry :: "u8 \<Rightarrow> u8 \<Rightarrow> u16" where
  "vga_entry uc color = ucast uc OR push_bit 8 (ucast color)"

abbreviation (input) VGA_BUFFER_PHYSICAL :: u32 where "VGA_BUFFER_PHYSICAL \<equiv> 0xB8000"
abbreviation (input) VGA_BUFFER_VIRTUAL :: u32 where "VGA_BUFFER_VIRTUAL \<equiv> 0xB8000 + 0xC0000000"
abbreviation (input) VGA_WIDTH :: u32 where "VGA_WIDTH \<equiv> 80"
abbreviation (input) VGA_HEIGHT :: u32 where "VGA_HEIGHT \<equiv> 25"

text \<open>The value of CR0 is an argument of the two functions that read it.\<close>

definition vga_is_paging_enabled :: "u32 \<Rightarrow> bool" where
  "vga_is_paging_enabled cr0 \<longleftrightarrow> cr0 AND 0x80000000 \<noteq> 0"

definition get_vga_buffer :: "u32 \<Rightarrow> u32" where
  "get_vga_buffer cr0 = (if vga_is_paging_enabled cr0 then VGA_BUFFER_VIRTUAL else VGA_BUFFER_PHYSICAL)"

section \<open>The terminal\<close>

record 'm tty_state = serial_state +
  terminal_row :: u32
  terminal_column :: u32
  terminal_color :: u8
  terminal_buffer :: u32
  terminal_serial_output :: bool
  vram :: 'm

definition terminal_enable_serial :: "bool \<Rightarrow> ('m, 'a) tty_state_scheme \<Rightarrow> ('m, 'a) tty_state_scheme" where
  "terminal_enable_serial enable s = s\<lparr>terminal_serial_output := enable\<rparr>"

definition terminal_is_serial_enabled :: "('m, 'a) tty_state_scheme \<Rightarrow> bool" where
  "terminal_is_serial_enabled s = terminal_serial_output s"

definition terminal_setcolor :: "u8 \<Rightarrow> ('m, 'a) tty_state_scheme \<Rightarrow> ('m, 'a) tty_state_scheme" where
  "terminal_setcolor color s = s\<lparr>terminal_color := color\<rparr>"

text \<open>A store through a \<^verbatim>\<open>uint16_t\<close> lvalue.\<close>

definition st16 :: "(u32 \<Rightarrow> u8 \<Rightarrow> 'm \<Rightarrow> 'm res) \<Rightarrow> u32 \<Rightarrow> u16 \<Rightarrow> 'm \<Rightarrow> 'm res" where
  "st16 st a v m = bindE (st a (ucast v) m) (st (a + 1) (ucast (drop_bit 8 v)))"

definition terminal_putentryat ::
  "(u32 \<Rightarrow> u8 \<Rightarrow> 'm \<Rightarrow> 'm res) \<Rightarrow> u8 \<Rightarrow> u8 \<Rightarrow> u32 \<Rightarrow> u32 \<Rightarrow> ('m, 'a) tty_state_scheme \<Rightarrow>
     ('m, 'a) tty_state_scheme res" where
  "terminal_putentryat st c color x y s =
     (let index = y * VGA_WIDTH + x
      in bindE (st16 st (terminal_buffer s + 2 * index) (vga_entry c color) (vram s)) (\<lambda>m.
         Inr (s\<lparr>vram := m\<rparr>)))"

definition scroll ::
  "(u32 \<Rightarrow> 'm \<Rightarrow> u8 res) \<Rightarrow> (u32 \<Rightarrow> u8 \<Rightarrow> 'm \<Rightarrow> 'm res) \<Rightarrow> ('m, 'a) tty_state_scheme \<Rightarrow>
     ('m, 'a) tty_state_scheme res" where
  "scroll ld st s =
     bindE (memmove ld st (terminal_buffer s) (terminal_buffer s + 2 * VGA_WIDTH)
              (2 * VGA_WIDTH * (VGA_HEIGHT - 1)) (vram s)) (\<lambda>(_, m).
     bindE (memset st (terminal_buffer s + 2 * (VGA_WIDTH * (VGA_HEIGHT - 1))) 0 (2 * VGA_WIDTH) m) (\<lambda>(_, m).
     let s = s\<lparr>vram := m\<rparr>
     in Inr (if terminal_row s > 0 then s\<lparr>terminal_row := terminal_row s - 1\<rparr> else s)))"

text \<open>\<^verbatim>\<open>terminal_row++; if (terminal_row >= VGA_HEIGHT) scroll();\<close>\<close>

definition next_row ::
  "(u32 \<Rightarrow> 'm \<Rightarrow> u8 res) \<Rightarrow> (u32 \<Rightarrow> u8 \<Rightarrow> 'm \<Rightarrow> 'm res) \<Rightarrow> ('m, 'a) tty_state_scheme \<Rightarrow>
     ('m, 'a) tty_state_scheme res" where
  "next_row ld st s =
     (let s = s\<lparr>terminal_row := terminal_row s + 1\<rparr>
      in if terminal_row s \<ge> VGA_HEIGHT then scroll ld st s else Inr s)"

definition terminal_putchar ::
  "(u32 \<Rightarrow> 'm \<Rightarrow> u8 res) \<Rightarrow> (u32 \<Rightarrow> u8 \<Rightarrow> 'm \<Rightarrow> 'm res) \<Rightarrow> device \<Rightarrow> char \<Rightarrow>
     ('m, 'a) tty_state_scheme \<Rightarrow> ('m, 'a) tty_state_scheme res" where
  "terminal_putchar ld st dev c s =
     (if c = CHR 0x0A
      then let s = s\<lparr>terminal_column := 0\<rparr>
           in bindE (next_row ld st s) (\<lambda>s.
              if terminal_serial_output s
              then bindE (serial_com1_write_byte dev 0x0D s) (serial_com1_write_byte dev 0x0A)
              else Inr s)
      else if c = CHR 0x0D
      then let s = s\<lparr>terminal_column := 0\<rparr>
           in if terminal_serial_output s then serial_com1_write_byte dev 0x0D s else Inr s
      else if c = CHR 0x09
      then let s = s\<lparr>terminal_column := terminal_column s + 4\<rparr>
           in bindE (if terminal_column s \<ge> VGA_WIDTH
                     then next_row ld st (s\<lparr>terminal_column := 0\<rparr>) else Inr s) (\<lambda>s.
              if terminal_serial_output s then serial_com1_write_byte dev 0x09 s else Inr s)
      else bindE (terminal_putentryat st (of_char c) (terminal_color s) (terminal_column s)
                    (terminal_row s) s) (\<lambda>s.
           let s = s\<lparr>terminal_column := terminal_column s + 1\<rparr>
           in bindE (if terminal_column s \<ge> VGA_WIDTH
                     then next_row ld st (s\<lparr>terminal_column := 0\<rparr>) else Inr s) (\<lambda>s.
              if terminal_serial_output s then serial_com1_write_byte dev (of_char c) s else Inr s)))"

text \<open>Characters are read from an array object; a size beyond it is an access out of bounds.\<close>

definition terminal_write ::
  "(u32 \<Rightarrow> 'm \<Rightarrow> u8 res) \<Rightarrow> (u32 \<Rightarrow> u8 \<Rightarrow> 'm \<Rightarrow> 'm res) \<Rightarrow> device \<Rightarrow> string \<Rightarrow> u32 \<Rightarrow>
     ('m, 'a) tty_state_scheme \<Rightarrow> ('m, 'a) tty_state_scheme res" where
  "terminal_write ld st dev data sz s =
     for_rangeE 0 sz (\<lambda>i s. if unat i < length data then terminal_putchar ld st dev (data ! unat i) s
                            else Inl Out_of_bounds) s"

text \<open>The characters of a string value before its terminator.\<close>

definition cstr :: "string \<Rightarrow> string" where
  "cstr str = takeWhile (\<lambda>c. c \<noteq> CHR 0x00) str"

definition terminal_writestring ::
  "(u32 \<Rightarrow> 'm \<Rightarrow> u8 res) \<Rightarrow> (u32 \<Rightarrow> u8 \<Rightarrow> 'm \<Rightarrow> 'm res) \<Rightarrow> device \<Rightarrow> string \<Rightarrow>
     ('m, 'a) tty_state_scheme \<Rightarrow> ('m, 'a) tty_state_scheme res" where
  "terminal_writestring ld st dev data s = terminal_write ld st dev data (of_nat (length (cstr data))) s"

text \<open>The hexadecimal rendering of the buffer address in \<^verbatim>\<open>terminal_initialize\<close>.\<close>

definition hex_nibble :: "u32 \<Rightarrow> char" where
  "hex_nibble nibble =
     (if nibble < 10 then char_of (0x30 + unat nibble) else char_of (0x41 + (unat nibble - 10)))"

definition hex_address :: "u32 \<Rightarrow> string res" where
  "hex_address addr =
     for_downE 8 (\<lambda>i buf.
       let nibble = drop_bit (unat i * 4) addr AND 0xF
       in if 9 - unat i < length buf then Inr (buf[9 - unat i := hex_nibble nibble]) else Inl Out_of_bounds)
     (''0x'' @ replicate 18 (CHR 0x00))"

definition terminal_initialize ::
  "(u32 \<Rightarrow> 'm \<Rightarrow> u8 res) \<Rightarrow> (u32 \<Rightarrow> u8 \<Rightarrow> 'm \<Rightarrow> 'm res) \<Rightarrow> device \<Rightarrow> u32 \<Rightarrow>
     ('m, 'a) tty_state_scheme \<Rightarrow> ('m, 'a) tty_state_scheme res" where
  "terminal_initialize ld st dev cr0 s =
     (let s = s\<lparr>terminal_row := 0, terminal_column := 0,
                terminal_color := vga_entry_color VGA_COLOR_LIGHT_GREY VGA_COLOR_BLACK,
                terminal_buffer := get_vga_buffer cr0\<rparr>;
          paging_status = (if vga_is_paging_enabled cr0 then ''ENABLED'' else ''DISABLED'')
      in bindE (for_rangeE 0 VGA_HEIGHT (\<lambda>y s.
                  for_rangeE 0 VGA_WIDTH (\<lambda>x s.
                    bindE (st16 st (terminal_buffer s + 2 * (y * VGA_WIDTH + x))
                             (vga_entry 0x20 (terminal_color s)) (vram s)) (\<lambda>m. Inr (s\<lparr>vram := m\<rparr>))) s) s) (\<lambda>s.
         bindE (terminal_writestring ld st dev ''Terminal initialized with paging '' s) (\<lambda>s.
         bindE (terminal_writestring ld st dev paging_status s) (\<lambda>s.
         bindE (terminal_writestring ld st dev (CHR 0x0A # ''VGA buffer address: '') s) (\<lambda>s.
         bindE (hex_address (terminal_buffer s)) (\<lambda>hex_buffer.
         bindE (terminal_writestring ld st dev (hex_buffer[10 := CHR 0x00]) s) (\<lambda>s.
         terminal_writestring ld st dev [CHR 0x0A] s)))))))"

end
