(* ===== verification/Numbers.thy ===== *)
theory Numbers
  imports Prelude
begin

text \<open>
  Numbers as digit strings, which \<^verbatim>\<open>printf.c\<close> and \<^verbatim>\<open>debug.c\<close> each produce in their own way: the
  abstract notation, what makes an alphabet of digits usable, and the facts about array updates the
  conversions share.
\<close>

section \<open>Positional notation\<close>

text \<open>The digits of a number, least significant first and without leading zeros; none for 0.\<close>

function rdigits :: "nat \<Rightarrow> nat \<Rightarrow> nat list" where
  "rdigits base n = (if n = 0 \<or> base < 2 then [] else n mod base # rdigits base (n div base))"
  by pat_completeness auto
termination
  by (relation "measure snd") auto

declare rdigits.simps [simp del]

lemma rdigits_0 [simp]: "rdigits base 0 = []"
  by (simp add: rdigits.simps)

lemma rdigits_step: "0 < n \<Longrightarrow> 2 \<le> base \<Longrightarrow> rdigits base n = n mod base # rdigits base (n div base)"
  by (subst rdigits.simps) simp

lemma rdigits_less: "2 \<le> base \<Longrightarrow> d \<in> set (rdigits base n) \<Longrightarrow> d < base"
proof (induction base n rule: rdigits.induct)
  case (1 base n)
  then show ?case by (subst (asm) rdigits.simps) (auto split: if_splits)
qed

lemma rdigits_length: "n < base ^ k \<Longrightarrow> length (rdigits base n) \<le> k"
proof (induction k arbitrary: n)
  case (Suc k)
  show ?case
  proof (cases "n = 0 \<or> base < 2")
    case False
    then have "n div base < base ^ k" using Suc.prems by (simp add: less_mult_imp_div_less mult.commute)
    from Suc.IH[OF this] False show ?thesis by (simp add: rdigits_step)
  qed (simp add: rdigits.simps)
qed simp

lemma rdigits_value: "2 \<le> base \<Longrightarrow> foldr (\<lambda>d v. v * base + d) (rdigits base n) 0 = n"
proof (induction base n rule: rdigits.induct)
  case (1 base n)
  then show ?case by (subst rdigits.simps) auto
qed

text \<open>The string for a number: at least one digit, most significant first.\<close>

definition number_string :: "(nat \<Rightarrow> char) \<Rightarrow> nat \<Rightarrow> nat \<Rightarrow> string" where
  "number_string alpha base n = (if n = 0 then [alpha 0] else map alpha (rev (rdigits base n)))"

text \<open>Reading it back.\<close>

definition read_number :: "(char \<Rightarrow> nat) \<Rightarrow> nat \<Rightarrow> string \<Rightarrow> nat" where
  "read_number val base str = foldl (\<lambda>v c. v * base + val c) 0 str"

section \<open>Alphabets\<close>

locale alphabet =
  fixes alpha :: "nat \<Rightarrow> char" and val :: "char \<Rightarrow> nat" and base :: nat
  assumes base2: "2 \<le> base"
    and val_alpha: "d < base \<Longrightarrow> val (alpha d) = d"
    and printable: "d < base \<Longrightarrow> alpha d \<noteq> CHR 0x00"
begin

lemma read_string: "read_number val base (number_string alpha base n) = n"
proof (cases "n = 0")
  case True
  then show ?thesis using base2 by (simp add: number_string_def read_number_def val_alpha)
next
  case False
  have "foldl (\<lambda>v c. v * base + val c) 0 (map alpha (rev ds)) = foldr (\<lambda>d v. v * base + d) ds 0"
    if "\<forall>d\<in>set ds. d < base" for ds
    using that by (induction ds) (simp_all add: val_alpha)
  then show ?thesis
    using False rdigits_less[OF base2] rdigits_value[OF base2, of n]
    by (simp add: number_string_def read_number_def)
qed

lemma string_chars: "c \<in> set (number_string alpha base n) \<Longrightarrow> c \<noteq> CHR 0x00"
  using base2 rdigits_less[OF base2] printable by (auto simp: number_string_def split: if_splits)

lemma string_length: "n < base ^ k \<Longrightarrow> 0 < k \<Longrightarrow> length (number_string alpha base n) \<le> k"
  using rdigits_length[of n base k] by (simp add: number_string_def)

end

text \<open>The digits of the C code: \<^verbatim>\<open>'0' + d\<close> below ten, then upper or lower case letters.\<close>

definition digit_upper :: "nat \<Rightarrow> char" where
  "digit_upper d = (if d < 10 then char_of (0x30 + d) else char_of (0x41 + (d - 10)))"

definition digit_lower :: "nat \<Rightarrow> char" where
  "digit_lower d = (if d < 10 then char_of (0x30 + d) else char_of (0x61 + (d - 10)))"

definition digit_value :: "char \<Rightarrow> nat" where
  "digit_value c = (let n = of_char c in if n < 0x3A then n - 0x30 else if n < 0x61 then n - 0x41 + 10 else n - 0x61 + 10)"

lemma digit_16:
  assumes "d < 16"
  shows "digit_value (digit_upper d) = d" "digit_value (digit_lower d) = d"
    "digit_upper d \<noteq> CHR 0x00" "digit_lower d \<noteq> CHR 0x00"
proof -
  have up: "of_char (digit_upper d) = (if d < 10 then 48 + d else 65 + (d - 10))"
    and lo: "of_char (digit_lower d) = (if d < 10 then 48 + d else 97 + (d - 10))"
    using assms by (simp_all add: digit_upper_def digit_lower_def)
  show "digit_value (digit_upper d) = d" "digit_value (digit_lower d) = d"
    using assms up lo by (auto simp: digit_value_def Let_def)
  have "of_char (CHR 0x00) = (0 :: nat)" by simp
  then show "digit_upper d \<noteq> CHR 0x00" "digit_lower d \<noteq> CHR 0x00" using up lo by (auto split: if_splits)
qed

interpretation decimal: alphabet digit_upper digit_value 10
  by unfold_locales (simp_all add: digit_16)

interpretation hex_upper: alphabet digit_upper digit_value 16
  by unfold_locales (simp_all add: digit_16)

interpretation hex_lower: alphabet digit_lower digit_value 16
  by unfold_locales (simp_all add: digit_16)

section \<open>Arrays of characters\<close>

text \<open>\<^verbatim>\<open>str[i] = c\<close>\<close>

definition put :: "nat \<Rightarrow> char \<Rightarrow> string \<Rightarrow> string res" where
  "put i c str = (if i < length str then Inr (str[i := c]) else Inl Out_of_bounds)"

text \<open>\<open>cs\<close> stored from index \<open>i\<close> on.\<close>

definition write_at :: "nat \<Rightarrow> string \<Rightarrow> string \<Rightarrow> string" where
  "write_at i cs str = take i str @ cs @ drop (i + length cs) str"

lemma write_at_Nil [simp]: "write_at i [] str = str"
  by (simp add: write_at_def)

lemma write_at_length: "i + length cs \<le> length str \<Longrightarrow> length (write_at i cs str) = length str"
  by (simp add: write_at_def)

lemma write_at_Cons:
  assumes "i < length str"
  shows "write_at (Suc i) cs (str[i := c]) = write_at i (c # cs) str"
  using assms by (simp add: write_at_def take_Suc_conv_app_nth drop_update_swap)

end
