(* ===== verification/Kernel_Log.thy ===== *)
theory Kernel_Log
  imports Prelude
begin

text \<open>
  The calls that the kernel proper makes into its two output channels, \<^verbatim>\<open>printf\<close> of libc and
  the \<^verbatim>\<open>debug_*\<close> functions of \<^verbatim>\<open>debug.c\<close>. A component that only prints records each call, with
  its level, format string and arguments, in the order in which it makes them; what a call then
  does to the terminal and the serial port is the business of the components that implement it.
\<close>

section \<open>Variadic arguments and output calls\<close>

text \<open>
  A variadic argument is a 32-bit value (an integer or a pointer: one stack slot of the i386
  calling convention) or a string, \<^term>\<open>None\<close> being the null pointer.
\<close>

datatype va_arg = Va_int u32 | Va_str "string option"

datatype out_call =
    Debug_call int string "va_arg list"
  | Printf_call string "va_arg list"

abbreviation (input) DEBUG_LEVEL_NONE :: int where "DEBUG_LEVEL_NONE \<equiv> 0"
abbreviation (input) DEBUG_LEVEL_ERROR :: int where "DEBUG_LEVEL_ERROR \<equiv> 1"
abbreviation (input) DEBUG_LEVEL_WARNING :: int where "DEBUG_LEVEL_WARNING \<equiv> 2"
abbreviation (input) DEBUG_LEVEL_INFO :: int where "DEBUG_LEVEL_INFO \<equiv> 3"
abbreviation (input) DEBUG_LEVEL_DEBUG :: int where "DEBUG_LEVEL_DEBUG \<equiv> 4"
abbreviation (input) DEBUG_LEVEL_TRACE :: int where "DEBUG_LEVEL_TRACE \<equiv> 5"

abbreviation (input) NL :: string where "NL \<equiv> [CHR 0x0A]"

record log_state =
  klog :: "out_call list"

definition log_debug :: "int \<Rightarrow> string \<Rightarrow> va_arg list \<Rightarrow> 'a log_state_scheme \<Rightarrow> 'a log_state_scheme" where
  "log_debug level format args s = s\<lparr>klog := klog s @ [Debug_call level format args]\<rparr>"

definition log_printf :: "string \<Rightarrow> va_arg list \<Rightarrow> 'a log_state_scheme \<Rightarrow> 'a log_state_scheme" where
  "log_printf format args s = s\<lparr>klog := klog s @ [Printf_call format args]\<rparr>"

end
