(* ===== verification/Stdio.thy ===== *)
theory Stdio
  imports Tty Numbers Kernel_Log
begin

text \<open>
  Formatted output of libc: \<^verbatim>\<open>src/libc/stdio/printf.c\<close>, \<^verbatim>\<open>putchar.c\<close> and \<^verbatim>\<open>puts.c\<close>, on the terminal
  and the serial port. Arrays of characters are lists with bounds checks, a C \<^verbatim>\<open>int\<close> is an integer
  in its 32-bit range, and negating the least of them is a signed overflow.
\<close>

section \<open>putchar and print\<close>

record 'm stdio_state = "'m tty_state" +
  putchar_serial_output :: bool
  serial_output_enabled :: bool

definition putchar_enable_serial :: "bool \<Rightarrow> ('m, 'a) stdio_state_scheme \<Rightarrow> ('m, 'a) stdio_state_scheme" where
  "putchar_enable_serial enable s = s\<lparr>putchar_serial_output := enable\<rparr>"

definition printf_enable_serial :: "bool \<Rightarrow> ('m, 'a) stdio_state_scheme \<Rightarrow> ('m, 'a) stdio_state_scheme" where
  "printf_enable_serial enable s = s\<lparr>serial_output_enabled := enable\<rparr>"

abbreviation (input) EOF :: u32 where "EOF \<equiv> - 1"

text \<open>A character on the serial line, with a carriage return before a line feed.\<close>

definition serial_char :: "device \<Rightarrow> char \<Rightarrow> 'a serial_state_scheme \<Rightarrow> 'a serial_state_scheme res" where
  "serial_char dev c s =
     bindE (if c = CHR 0x0A then serial_com1_write_byte dev 0x0D s else Inr s)
       (serial_com1_write_byte dev (of_char c))"

definition putchar ::
  "(u32 \<Rightarrow> 'm \<Rightarrow> u8 res) \<Rightarrow> (u32 \<Rightarrow> u8 \<Rightarrow> 'm \<Rightarrow> 'm res) \<Rightarrow> device \<Rightarrow> u32 \<Rightarrow>
     ('m, 'a) stdio_state_scheme \<Rightarrow> (u32 \<times> ('m, 'a) stdio_state_scheme) res" where
  "putchar ld st dev ic s =
     (let c = char_of (unat ic)
      in bindE (terminal_write ld st dev [c] 1 s) (\<lambda>s.
         bindE (if putchar_serial_output s \<and> \<not> terminal_is_serial_enabled s
                then serial_char dev c s else Inr s) (\<lambda>s.
         Inr (ic, s))))"

fun print_bytes ::
  "(u32 \<Rightarrow> 'm \<Rightarrow> u8 res) \<Rightarrow> (u32 \<Rightarrow> u8 \<Rightarrow> 'm \<Rightarrow> 'm res) \<Rightarrow> device \<Rightarrow> string \<Rightarrow>
     ('m, 'a) stdio_state_scheme \<Rightarrow> (bool \<times> ('m, 'a) stdio_state_scheme) res" where
  "print_bytes ld st dev [] s = Inr (True, s)"
| "print_bytes ld st dev (c # cs) s =
     bindE (putchar ld st dev (of_char c) s) (\<lambda>(r, s).
       if r = EOF then Inr (False, s)
       else bindE (if serial_output_enabled s \<and> \<not> terminal_is_serial_enabled s
                   then serial_char dev c s else Inr s) (print_bytes ld st dev cs))"

text \<open>\<^verbatim>\<open>print(data, length)\<close> on an array of characters: bytes beyond it are out of bounds.\<close>

definition print ::
  "(u32 \<Rightarrow> 'm \<Rightarrow> u8 res) \<Rightarrow> (u32 \<Rightarrow> u8 \<Rightarrow> 'm \<Rightarrow> 'm res) \<Rightarrow> device \<Rightarrow> string \<Rightarrow> nat \<Rightarrow>
     ('m, 'a) stdio_state_scheme \<Rightarrow> (bool \<times> ('m, 'a) stdio_state_scheme) res" where
  "print ld st dev data len s =
     bindE (print_bytes ld st dev (take len data) s) (\<lambda>(ok, s).
       if ok \<and> length data < len then Inl Out_of_bounds else Inr (ok, s))"

section \<open>Numbers to strings\<close>

abbreviation (input) INT_MIN :: int where "INT_MIN \<equiv> - (2 ^ 31)"
abbreviation (input) INT_MAX :: int where "INT_MAX \<equiv> 2 ^ 31 - 1"

text \<open>Division of C, which rounds towards zero.\<close>

definition c_quot :: "int \<Rightarrow> int \<Rightarrow> int" where
  "c_quot a b = sgn a * sgn b * (\<bar>a\<bar> div \<bar>b\<bar>)"

definition c_rem :: "int \<Rightarrow> int \<Rightarrow> int" where
  "c_rem a b = a - b * c_quot a b"

definition itoa_char :: "int \<Rightarrow> char" where
  "itoa_char r = (if r < 10 then char_of (nat ((r + 0x30) mod 256)) else char_of (nat ((r - 10 + 0x41) mod 256)))"

partial_function (option) itoa_digits :: "int \<Rightarrow> int \<Rightarrow> nat \<Rightarrow> string \<Rightarrow> (nat \<times> string) res option" where
  "itoa_digits base num i str =
     (if num = 0 then Some (Inr (i, str))
      else if base = 0 then Some (Inl Division_by_zero)
      else case put i (itoa_char (c_rem num base)) str of
             Inl e \<Rightarrow> Some (Inl e)
           | Inr str \<Rightarrow> itoa_digits base (c_quot num base) (i + 1) str)"

text \<open>The in-place reversal both conversions end with.\<close>

function reverse_between :: "nat \<Rightarrow> nat \<Rightarrow> string \<Rightarrow> string res" where
  "reverse_between start fin str =
     (if start < fin
      then if fin < length str
           then reverse_between (start + 1) (fin - 1) (str[start := str ! fin, fin := str ! start])
           else Inl Out_of_bounds
      else Inr str)"
  by pat_completeness auto
termination
  by (relation "measure (\<lambda>(a, b, _). b - a)") auto

declare reverse_between.simps [simp del]

definition itoa :: "string \<Rightarrow> int \<Rightarrow> int \<Rightarrow> (nat \<times> string) res" where
  "itoa str num base =
     (if num = 0
      then bindE (put 0 (CHR ''0'') str) (\<lambda>str. bindE (put 1 (CHR 0x00) str) (\<lambda>str. Inr (1, str)))
      else bindE (if num < 0 \<and> base = 10
                  then if num = INT_MIN then Inl Signed_overflow else Inr (True, - num)
                  else Inr (False, num)) (\<lambda>(is_negative, num).
           bindE (case itoa_digits base num 0 str of None \<Rightarrow> Inl No_return | Some r \<Rightarrow> r) (\<lambda>(i, str).
           bindE (if is_negative then bindE (put i (CHR ''-'') str) (\<lambda>str. Inr (i + 1, str))
                  else Inr (i, str)) (\<lambda>(i, str).
           bindE (reverse_between 0 (i - 1) str) (\<lambda>str.
           bindE (put i (CHR 0x00) str) (\<lambda>str. Inr (i, str)))))))"

partial_function (option) utoa_digits :: "u32 \<Rightarrow> u32 \<Rightarrow> nat \<Rightarrow> string \<Rightarrow> (nat \<times> string) res option" where
  "utoa_digits base num i str =
     (if num = 0 then Some (Inr (i, str))
      else if base = 0 then Some (Inl Division_by_zero)
      else case put i (itoa_char (uint (num mod base))) str of
             Inl e \<Rightarrow> Some (Inl e)
           | Inr str \<Rightarrow> utoa_digits base (num div base) (i + 1) str)"

definition utoa :: "string \<Rightarrow> u32 \<Rightarrow> u32 \<Rightarrow> (nat \<times> string) res" where
  "utoa str num base =
     (if num = 0
      then bindE (put 0 (CHR ''0'') str) (\<lambda>str. bindE (put 1 (CHR 0x00) str) (\<lambda>str. Inr (1, str)))
      else bindE (case utoa_digits base num 0 str of None \<Rightarrow> Inl No_return | Some r \<Rightarrow> r) (\<lambda>(i, str).
           bindE (reverse_between 0 (i - 1) str) (\<lambda>str.
           bindE (put i (CHR 0x00) str) (\<lambda>str. Inr (i, str)))))"

section \<open>printf\<close>

text \<open>
  An indeterminate local array \<^verbatim>\<open>char num_str[32]\<close>; its contents before the conversion do not matter.
\<close>

abbreviation (input) num_str :: string where "num_str \<equiv> replicate 32 (CHR 0x00)"

text \<open>
  \<^verbatim>\<open>if (maxrem < len) return -1; if (!print(data, len)) return -1; written += len;\<close> where the result
  \<^term>\<open>None\<close> stands for the early return.
\<close>

definition print_checked ::
  "(u32 \<Rightarrow> 'm \<Rightarrow> u8 res) \<Rightarrow> (u32 \<Rightarrow> u8 \<Rightarrow> 'm \<Rightarrow> 'm res) \<Rightarrow> device \<Rightarrow> int \<Rightarrow> int \<Rightarrow> string \<Rightarrow> nat \<Rightarrow> int \<Rightarrow>
     ('m, 'a) stdio_state_scheme \<Rightarrow> (int option \<times> ('m, 'a) stdio_state_scheme) res" where
  "print_checked ld st dev maxrem need data len written s =
     (if maxrem < need then Inr (None, s)
      else bindE (print ld st dev data len s) (\<lambda>(ok, s).
           Inr (if ok then Some (written + int len) else None, s)))"

fun printf_conv ::
  "(u32 \<Rightarrow> 'm \<Rightarrow> u8 res) \<Rightarrow> (u32 \<Rightarrow> u8 \<Rightarrow> 'm \<Rightarrow> 'm res) \<Rightarrow> device \<Rightarrow> char \<Rightarrow> va_arg list \<Rightarrow> int \<Rightarrow>
     ('m, 'a) stdio_state_scheme \<Rightarrow> (va_arg list \<times> int option \<times> ('m, 'a) stdio_state_scheme) res" where
  "printf_conv ld st dev f [] written s = Inl Bad_argument"
| "printf_conv ld st dev f (Va_str p # args) written s =
     (let maxrem = INT_MAX - written
      in if f = CHR ''s''
         then let str = (case p of None \<Rightarrow> ''(null)'' | Some str \<Rightarrow> str); len = length (cstr str)
              in bindE (print_checked ld st dev maxrem (int len) str len written s) (\<lambda>r. Inr (args, r))
         else Inl Bad_argument)"
| "printf_conv ld st dev f (Va_int v # args) written s =
     (let maxrem = INT_MAX - written
      in if f = CHR ''c''
         then bindE (print_checked ld st dev maxrem 1 [char_of (unat v)] 1 written s) (\<lambda>r. Inr (args, r))
         else if f = CHR ''d'' \<or> f = CHR ''i''
         then bindE (itoa num_str (sint v) 10) (\<lambda>(len, str).
              bindE (print_checked ld st dev maxrem (int len) str len written s) (\<lambda>r. Inr (args, r)))
         else if f = CHR ''u''
         then bindE (utoa num_str v 10) (\<lambda>(len, str).
              bindE (print_checked ld st dev maxrem (int len) str len written s) (\<lambda>r. Inr (args, r)))
         else if f = CHR ''p'' \<and> v = 0
         then bindE (print_checked ld st dev maxrem 5 ''(nil)'' 5 written s) (\<lambda>r. Inr (args, r))
         else if f = CHR ''x'' \<or> f = CHR ''X'' \<or> f = CHR ''p''
         then bindE (print_checked ld st dev maxrem 2 ''0x'' 2 written s) (\<lambda>(w, s).
              case w of None \<Rightarrow> Inr (args, None, s)
              | Some written \<Rightarrow>
                  bindE (utoa num_str v 16) (\<lambda>(len, str).
                  bindE (print_checked ld st dev maxrem (int len + 2) str len written s) (\<lambda>r. Inr (args, r))))
         else Inl Bad_argument)"

definition conversion :: "char \<Rightarrow> bool" where
  "conversion f \<longleftrightarrow> f \<in> set ''csdiuxXp''"

text \<open>
  The loop of \<^verbatim>\<open>printf\<close>: a run of ordinary characters (of which the first may be the second of
  two per cent signs), a conversion, or, when the conversion is unknown, the rest of the format.
\<close>

function printf_loop ::
  "(u32 \<Rightarrow> 'm \<Rightarrow> u8 res) \<Rightarrow> (u32 \<Rightarrow> u8 \<Rightarrow> 'm \<Rightarrow> 'm res) \<Rightarrow> device \<Rightarrow> string \<Rightarrow> va_arg list \<Rightarrow> int \<Rightarrow>
     ('m, 'a) stdio_state_scheme \<Rightarrow> (int \<times> ('m, 'a) stdio_state_scheme) res" where
  "printf_loop ld st dev [] args written s = Inr (written, s)"
| "printf_loop ld st dev (c # format) args written s =
     (let maxrem = INT_MAX - written
      in if c \<noteq> CHR ''%'' \<or> (format \<noteq> [] \<and> hd format = CHR ''%'')
         then let format = (if c = CHR ''%'' then format else c # format);
                  amount = 1 + length (takeWhile (\<lambda>c. c \<noteq> CHR ''%'') (tl format))
              in bindE (print_checked ld st dev maxrem (int amount) format amount written s) (\<lambda>(w, s).
                 case w of None \<Rightarrow> Inr (- 1, s)
                 | Some written \<Rightarrow> printf_loop ld st dev (drop amount format) args written s)
         else if format \<noteq> [] \<and> conversion (hd format)
         then bindE (printf_conv ld st dev (hd format) args written s) (\<lambda>(args, w, s).
                 case w of None \<Rightarrow> Inr (- 1, s)
                 | Some written \<Rightarrow> printf_loop ld st dev (tl format) args written s)
         else let format = c # format
              in bindE (print_checked ld st dev maxrem (int (length format)) format (length format) written s) (\<lambda>(w, s).
                 case w of None \<Rightarrow> Inr (- 1, s)
                 | Some written \<Rightarrow> printf_loop ld st dev [] args written s))"
  by pat_completeness auto
termination
  by (relation "measure (\<lambda>(_, _, _, format, _). length format)") (auto split: if_splits)

definition printf ::
  "(u32 \<Rightarrow> 'm \<Rightarrow> u8 res) \<Rightarrow> (u32 \<Rightarrow> u8 \<Rightarrow> 'm \<Rightarrow> 'm res) \<Rightarrow> device \<Rightarrow> string \<Rightarrow> va_arg list \<Rightarrow>
     ('m, 'a) stdio_state_scheme \<Rightarrow> (int \<times> ('m, 'a) stdio_state_scheme) res" where
  "printf ld st dev format args s = printf_loop ld st dev (cstr format) args 0 s"

definition puts ::
  "(u32 \<Rightarrow> 'm \<Rightarrow> u8 res) \<Rightarrow> (u32 \<Rightarrow> u8 \<Rightarrow> 'm \<Rightarrow> 'm res) \<Rightarrow> device \<Rightarrow> string \<Rightarrow>
     ('m, 'a) stdio_state_scheme \<Rightarrow> (int \<times> ('m, 'a) stdio_state_scheme) res" where
  "puts ld st dev string s = printf ld st dev (''%s'' @ NL) [Va_str (Some string)] s"

end
