(* ===== verification/Debug.thy ===== *)
theory Debug
  imports Stdio
begin

text \<open>
  The debug log of \<^verbatim>\<open>src/kernel/kernel/debug.c\<close>: its own formatter, which writes into a bounded
  buffer, and the routines that send a formatted line to the terminal and the serial port.
\<close>

section \<open>vsnprintf\<close>

text \<open>
  The output of the formatter: \<^verbatim>\<open>output_index\<close>, \<^verbatim>\<open>count\<close> and the array the buffer lies in, from
  index \<open>off\<close> on. \<open>lim\<close> is \<^verbatim>\<open>size - 1\<close>.
\<close>

type_synonym vs_out = "nat \<times> nat \<times> string"

definition vs_emit :: "nat \<Rightarrow> char \<Rightarrow> vs_out \<Rightarrow> vs_out res" where
  "vs_emit off c = (\<lambda>(output_index, count, str).
     bindE (put (off + output_index) c str) (\<lambda>str. Inr (output_index + 1, count + 1, str)))"

definition vs_emit_if :: "nat \<Rightarrow> nat \<Rightarrow> char \<Rightarrow> vs_out \<Rightarrow> vs_out res" where
  "vs_emit_if off lim c out = (if fst out < lim then vs_emit off c out else Inr out)"

text \<open>\<^verbatim>\<open>do { buffer[pos++] = digit(value); value = next(value); } while (value && pos < sizeof(buffer) - 1);\<close>\<close>

function digits_loop :: "(u32 \<Rightarrow> char) \<Rightarrow> (u32 \<Rightarrow> u32) \<Rightarrow> u32 \<Rightarrow> nat \<Rightarrow> string \<Rightarrow> (nat \<times> string) res" where
  "digits_loop digit nxt v pos buffer =
     bindE (put pos (digit v) buffer) (\<lambda>buffer.
       if nxt v \<noteq> 0 \<and> pos + 1 < 31 then digits_loop digit nxt (nxt v) (pos + 1) buffer
       else Inr (pos + 1, buffer))"
  by pat_completeness auto
termination
  by (relation "measure (\<lambda>(_, _, _, pos, _). 31 - pos)") auto

declare digits_loop.simps [simp del]

definition dec_digit :: "u32 \<Rightarrow> char" where
  "dec_digit v = char_of (0x30 + unat (v mod 10))"

definition hex_digit_lower :: "u32 \<Rightarrow> char" where
  "hex_digit_lower v =
     (let digit = unat (v AND 0xF) in if digit < 10 then char_of (0x30 + digit) else char_of (0x61 + (digit - 10)))"

definition hex_digit_upper :: "u32 \<Rightarrow> char" where
  "hex_digit_upper v =
     (let digit = unat (v AND 0xF) in if digit < 10 then char_of (0x30 + digit) else char_of (0x41 + (digit - 10)))"

text \<open>\<^verbatim>\<open>while (pos < 8 && pos < sizeof(buffer) - 1) buffer[pos++] = '0';\<close>\<close>

function pad_loop :: "nat \<Rightarrow> string \<Rightarrow> (nat \<times> string) res" where
  "pad_loop pos buffer =
     (if pos < 8 \<and> pos < 31 then bindE (put pos (CHR ''0'') buffer) (pad_loop (pos + 1)) else Inr (pos, buffer))"
  by pat_completeness auto
termination
  by (relation "measure (\<lambda>(pos, _). 8 - pos)") auto

declare pad_loop.simps [simp del]

text \<open>\<^verbatim>\<open>while (pos > 0 && output_index < size - 1) { str[output_index++] = buffer[--pos]; count++; }\<close>\<close>

primrec copy_back :: "nat \<Rightarrow> nat \<Rightarrow> string \<Rightarrow> nat \<Rightarrow> vs_out \<Rightarrow> vs_out res" where
  "copy_back off lim buffer 0 out = Inr out"
| "copy_back off lim buffer (Suc pos) out =
     (if fst out < lim
      then if pos < length buffer then bindE (vs_emit off (buffer ! pos) out) (copy_back off lim buffer pos)
           else Inl Out_of_bounds
      else Inr out)"

text \<open>The local array \<^verbatim>\<open>char buffer[32]\<close> of each conversion; its contents do not matter.\<close>

abbreviation (input) local_buffer :: string where "local_buffer \<equiv> replicate 32 (CHR 0x00)"

definition vs_signed :: "nat \<Rightarrow> nat \<Rightarrow> int \<Rightarrow> vs_out \<Rightarrow> vs_out res" where
  "vs_signed off lim v out =
     (if v = INT_MIN then Inl Signed_overflow
      else bindE (digits_loop dec_digit (\<lambda>v. v div 10) (word_of_int \<bar>v\<bar>) 0 local_buffer) (\<lambda>(pos, buffer).
           bindE (if v < 0 \<and> pos < 31
                  then bindE (put pos (CHR ''-'') buffer) (\<lambda>buffer. Inr (pos + 1, buffer))
                  else Inr (pos, buffer)) (\<lambda>(pos, buffer).
           copy_back off lim buffer pos out)))"

definition vs_unsigned :: "nat \<Rightarrow> nat \<Rightarrow> u32 \<Rightarrow> vs_out \<Rightarrow> vs_out res" where
  "vs_unsigned off lim v out =
     bindE (digits_loop dec_digit (\<lambda>v. v div 10) v 0 local_buffer) (\<lambda>(pos, buffer).
     copy_back off lim buffer pos out)"

text \<open>\<^verbatim>\<open>%x\<close> and \<^verbatim>\<open>%X\<close>: when the prefix does not fit, the conversion prints nothing.\<close>

definition vs_hex :: "nat \<Rightarrow> nat \<Rightarrow> (u32 \<Rightarrow> char) \<Rightarrow> u32 \<Rightarrow> vs_out \<Rightarrow> vs_out res" where
  "vs_hex off lim digit v out =
     (if fst out + 1 < lim
      then bindE (vs_emit off (CHR ''0'') out) (\<lambda>out.
           bindE (vs_emit off (CHR ''x'') out) (\<lambda>out.
           if v = 0 \<and> fst out < lim then vs_emit off (CHR ''0'') out
           else bindE (digits_loop digit (drop_bit 4) v 0 local_buffer) (\<lambda>(pos, buffer).
                copy_back off lim buffer pos out)))
      else Inr out)"

text \<open>\<^verbatim>\<open>memcpy\<close> between two array objects.\<close>

definition copy_into :: "nat \<Rightarrow> string \<Rightarrow> nat \<Rightarrow> string \<Rightarrow> string res" where
  "copy_into off src n str =
     (if n \<le> length src \<and> off + n \<le> length str then Inr (write_at off (take n src) str) else Inl Out_of_bounds)"

definition vs_pointer :: "nat \<Rightarrow> nat \<Rightarrow> u32 \<Rightarrow> vs_out \<Rightarrow> vs_out res" where
  "vs_pointer off lim ptr out =
     (if ptr = 0
      then case out of (output_index, count, str) \<Rightarrow>
             let len = 5; to_copy = (if (output_index + len) mod 2 ^ 32 < lim then len else lim - output_index)
             in bindE (copy_into (off + output_index) ''(nil)'' to_copy str) (\<lambda>str.
                Inr (output_index + to_copy, count + to_copy, str))
      else if fst out + 1 < lim
      then bindE (vs_emit off (CHR ''0'') out) (\<lambda>out.
           bindE (vs_emit off (CHR ''x'') out) (\<lambda>out.
           bindE (digits_loop hex_digit_lower (drop_bit 4) ptr 0 local_buffer) (\<lambda>(pos, buffer).
           bindE (pad_loop pos buffer) (\<lambda>(pos, buffer).
           copy_back off lim buffer pos out))))
      else Inr out)"

fun vs_string :: "nat \<Rightarrow> nat \<Rightarrow> string \<Rightarrow> vs_out \<Rightarrow> vs_out res" where
  "vs_string off lim [] out = Inr out"
| "vs_string off lim (c # cs) out =
     (if fst out < lim then bindE (vs_emit off c out) (vs_string off lim cs) else Inr out)"

text \<open>The \<^verbatim>\<open>switch\<close> over the conversion character, with the arguments it leaves.\<close>

definition vs_switch :: "nat \<Rightarrow> nat \<Rightarrow> char \<Rightarrow> va_arg list \<Rightarrow> vs_out \<Rightarrow> (va_arg list \<times> vs_out) res" where
  "vs_switch off lim f args out =
     (if f \<in> set ''diuxXpsc''
      then case args of [] \<Rightarrow> Inl Bad_argument
           | a # args \<Rightarrow>
               bindE (case a of
                   Va_int v \<Rightarrow>
                     if f = CHR ''d'' \<or> f = CHR ''i'' then vs_signed off lim (sint v) out
                     else if f = CHR ''u'' then vs_unsigned off lim v out
                     else if f = CHR ''x'' then vs_hex off lim hex_digit_lower v out
                     else if f = CHR ''X'' then vs_hex off lim hex_digit_upper v out
                     else if f = CHR ''p'' then vs_pointer off lim v out
                     else if f = CHR ''c'' then vs_emit_if off lim (char_of (unat v)) out
                     else Inl Bad_argument
                 | Va_str p \<Rightarrow>
                     if f = CHR ''s''
                     then vs_string off lim (case p of None \<Rightarrow> ''(null)'' | Some str \<Rightarrow> cstr str) out
                     else Inl Bad_argument) (\<lambda>out. Inr (args, out))
      else bindE (vs_emit_if off lim (CHR ''%'') out) (\<lambda>out.
           bindE (vs_emit_if off lim f out) (\<lambda>out. Inr (args, out))))"

fun vs_loop :: "nat \<Rightarrow> nat \<Rightarrow> string \<Rightarrow> va_arg list \<Rightarrow> vs_out \<Rightarrow> vs_out res" where
  "vs_loop off lim [] args out = Inr out"
| "vs_loop off lim [c] args out =
     (if fst out < lim then if c \<noteq> CHR ''%'' then vs_emit off c out else Inr out else Inr out)"
| "vs_loop off lim (c # f # format) args out =
     (if fst out < lim
      then if c \<noteq> CHR ''%'' then bindE (vs_emit off c out) (vs_loop off lim (f # format) args)
           else if f = CHR ''%'' then bindE (vs_emit off (CHR ''%'') out) (vs_loop off lim format args)
           else bindE (vs_switch off lim f args out) (\<lambda>(args, out). vs_loop off lim format args out)
      else Inr out)"

text \<open>
  The buffer is part of the array \<open>str\<close>, from \<open>off\<close> on. The count is converted to \<^verbatim>\<open>int\<close> on return.
\<close>

definition vsnprintf :: "string \<Rightarrow> nat \<Rightarrow> nat \<Rightarrow> string \<Rightarrow> va_arg list \<Rightarrow> (int \<times> string) res" where
  "vsnprintf str off sz format args =
     (if sz = 0 then Inr (0, str)
      else if sz = 1 then bindE (put off (CHR 0x00) str) (\<lambda>str. Inr (0, str))
      else bindE (vs_loop off (sz - 1) (cstr format) args (0, 0, str)) (\<lambda>(output_index, count, str).
           bindE (put (off + output_index) (CHR 0x00) str) (\<lambda>str.
           Inr (sint (of_nat count :: u32), str))))"

definition snprintf :: "string \<Rightarrow> nat \<Rightarrow> nat \<Rightarrow> string \<Rightarrow> va_arg list \<Rightarrow> (int \<times> string) res" where
  "snprintf str off sz format args = vsnprintf str off sz format args"

section \<open>The log\<close>

abbreviation (input) DEBUG_TARGET_VGA :: u32 where "DEBUG_TARGET_VGA \<equiv> 1"
abbreviation (input) DEBUG_TARGET_SERIAL :: u32 where "DEBUG_TARGET_SERIAL \<equiv> 2"
abbreviation (input) DEBUG_TARGET_ALL :: u32 where "DEBUG_TARGET_ALL \<equiv> 0xFF"
abbreviation (input) DEBUG_BUFFER_SIZE :: nat where "DEBUG_BUFFER_SIZE \<equiv> 1024"

record 'm debug_state = "'m stdio_state" +
  debug_level :: int
  debug_target :: u32
  debug_initialized :: bool
  debug_buffer :: string

definition level_prefix :: "string list" where
  "level_prefix = ['''', ''[ERROR] '', ''[WARN]  '', ''[INFO]  '', ''[DEBUG] '', ''[TRACE] '']"

definition debug_set_level :: "int \<Rightarrow> ('m, 'a) debug_state_scheme \<Rightarrow> ('m, 'a) debug_state_scheme" where
  "debug_set_level level s =
     (if DEBUG_LEVEL_NONE \<le> level \<and> level \<le> DEBUG_LEVEL_TRACE then s\<lparr>debug_level := level\<rparr> else s)"

definition debug_get_level :: "('m, 'a) debug_state_scheme \<Rightarrow> int" where
  "debug_get_level s = debug_level s"

definition debug_set_target :: "u32 \<Rightarrow> ('m, 'a) debug_state_scheme \<Rightarrow> ('m, 'a) debug_state_scheme" where
  "debug_set_target target s = s\<lparr>debug_target := target\<rparr>"

definition debug_get_target :: "('m, 'a) debug_state_scheme \<Rightarrow> u32" where
  "debug_get_target s = debug_target s"

definition debug_write ::
  "(u32 \<Rightarrow> 'm \<Rightarrow> u8 res) \<Rightarrow> (u32 \<Rightarrow> u8 \<Rightarrow> 'm \<Rightarrow> 'm res) \<Rightarrow> device \<Rightarrow> string \<Rightarrow>
     ('m, 'a) debug_state_scheme \<Rightarrow> ('m, 'a) debug_state_scheme res" where
  "debug_write ld st dev str s =
     bindE (if debug_target s AND DEBUG_TARGET_VGA \<noteq> 0 then terminal_writestring ld st dev str s else Inr s) (\<lambda>s.
     if debug_target s AND DEBUG_TARGET_SERIAL \<noteq> 0 \<and> \<not> terminal_is_serial_enabled s
     then serial_com1_write_string dev str s else Inr s)"

definition debug_format_and_write ::
  "(u32 \<Rightarrow> 'm \<Rightarrow> u8 res) \<Rightarrow> (u32 \<Rightarrow> u8 \<Rightarrow> 'm \<Rightarrow> 'm res) \<Rightarrow> device \<Rightarrow> int \<Rightarrow> string \<Rightarrow> va_arg list \<Rightarrow>
     ('m, 'a) debug_state_scheme \<Rightarrow> ('m, 'a) debug_state_scheme res" where
  "debug_format_and_write ld st dev level format args s =
     (if level > debug_level s then Inr s
      else let prefix = (if DEBUG_LEVEL_NONE \<le> level \<and> level \<le> DEBUG_LEVEL_TRACE
                         then level_prefix ! nat level else '''');
               prefix_len = length (cstr prefix);
               prefix_len = (if prefix_len \<ge> DEBUG_BUFFER_SIZE then DEBUG_BUFFER_SIZE - 1 else prefix_len)
           in bindE (copy_into 0 prefix prefix_len (debug_buffer s)) (\<lambda>buf.
              bindE (vsnprintf buf prefix_len (DEBUG_BUFFER_SIZE - prefix_len - 2) format args) (\<lambda>(message_len, buf).
              if message_len < 0 then Inr (s\<lparr>debug_buffer := buf\<rparr>)
              else let total_len = prefix_len + nat message_len;
                       total_len = (if total_len > DEBUG_BUFFER_SIZE - 3 then DEBUG_BUFFER_SIZE - 3 else total_len)
                   in bindE (put total_len (CHR 0x0D) buf) (\<lambda>buf.
                      bindE (put (total_len + 1) (CHR 0x0A) buf) (\<lambda>buf.
                      bindE (put (total_len + 2) (CHR 0x00) buf) (\<lambda>buf.
                      debug_write ld st dev buf (s\<lparr>debug_buffer := buf\<rparr>)))))))"

definition debug_error ::
  "(u32 \<Rightarrow> 'm \<Rightarrow> u8 res) \<Rightarrow> (u32 \<Rightarrow> u8 \<Rightarrow> 'm \<Rightarrow> 'm res) \<Rightarrow> device \<Rightarrow> string \<Rightarrow> va_arg list \<Rightarrow>
     ('m, 'a) debug_state_scheme \<Rightarrow> ('m, 'a) debug_state_scheme res" where
  "debug_error ld st dev format args s = debug_format_and_write ld st dev DEBUG_LEVEL_ERROR format args s"

definition debug_warning ::
  "(u32 \<Rightarrow> 'm \<Rightarrow> u8 res) \<Rightarrow> (u32 \<Rightarrow> u8 \<Rightarrow> 'm \<Rightarrow> 'm res) \<Rightarrow> device \<Rightarrow> string \<Rightarrow> va_arg list \<Rightarrow>
     ('m, 'a) debug_state_scheme \<Rightarrow> ('m, 'a) debug_state_scheme res" where
  "debug_warning ld st dev format args s = debug_format_and_write ld st dev DEBUG_LEVEL_WARNING format args s"

definition debug_info ::
  "(u32 \<Rightarrow> 'm \<Rightarrow> u8 res) \<Rightarrow> (u32 \<Rightarrow> u8 \<Rightarrow> 'm \<Rightarrow> 'm res) \<Rightarrow> device \<Rightarrow> string \<Rightarrow> va_arg list \<Rightarrow>
     ('m, 'a) debug_state_scheme \<Rightarrow> ('m, 'a) debug_state_scheme res" where
  "debug_info ld st dev format args s = debug_format_and_write ld st dev DEBUG_LEVEL_INFO format args s"

definition debug_debug ::
  "(u32 \<Rightarrow> 'm \<Rightarrow> u8 res) \<Rightarrow> (u32 \<Rightarrow> u8 \<Rightarrow> 'm \<Rightarrow> 'm res) \<Rightarrow> device \<Rightarrow> string \<Rightarrow> va_arg list \<Rightarrow>
     ('m, 'a) debug_state_scheme \<Rightarrow> ('m, 'a) debug_state_scheme res" where
  "debug_debug ld st dev format args s = debug_format_and_write ld st dev DEBUG_LEVEL_DEBUG format args s"

definition debug_trace ::
  "(u32 \<Rightarrow> 'm \<Rightarrow> u8 res) \<Rightarrow> (u32 \<Rightarrow> u8 \<Rightarrow> 'm \<Rightarrow> 'm res) \<Rightarrow> device \<Rightarrow> string \<Rightarrow> va_arg list \<Rightarrow>
     ('m, 'a) debug_state_scheme \<Rightarrow> ('m, 'a) debug_state_scheme res" where
  "debug_trace ld st dev format args s = debug_format_and_write ld st dev DEBUG_LEVEL_TRACE format args s"

definition debug_log ::
  "(u32 \<Rightarrow> 'm \<Rightarrow> u8 res) \<Rightarrow> (u32 \<Rightarrow> u8 \<Rightarrow> 'm \<Rightarrow> 'm res) \<Rightarrow> device \<Rightarrow> int \<Rightarrow> string \<Rightarrow> va_arg list \<Rightarrow>
     ('m, 'a) debug_state_scheme \<Rightarrow> ('m, 'a) debug_state_scheme res" where
  "debug_log ld st dev level format args s = debug_format_and_write ld st dev level format args s"

definition debug_vprint ::
  "(u32 \<Rightarrow> 'm \<Rightarrow> u8 res) \<Rightarrow> (u32 \<Rightarrow> u8 \<Rightarrow> 'm \<Rightarrow> 'm res) \<Rightarrow> device \<Rightarrow> string \<Rightarrow> va_arg list \<Rightarrow>
     ('m, 'a) debug_state_scheme \<Rightarrow> ('m, 'a) debug_state_scheme res" where
  "debug_vprint ld st dev format args s =
     bindE (vsnprintf (debug_buffer s) 0 (DEBUG_BUFFER_SIZE - 1) format args) (\<lambda>(message_len, buf).
     if message_len < 0 then Inr (s\<lparr>debug_buffer := buf\<rparr>)
     else let message_len = (if nat message_len \<ge> DEBUG_BUFFER_SIZE then DEBUG_BUFFER_SIZE - 1 else nat message_len)
          in bindE (put message_len (CHR 0x00) buf) (\<lambda>buf.
             debug_write ld st dev buf (s\<lparr>debug_buffer := buf\<rparr>)))"

definition debug_print ::
  "(u32 \<Rightarrow> 'm \<Rightarrow> u8 res) \<Rightarrow> (u32 \<Rightarrow> u8 \<Rightarrow> 'm \<Rightarrow> 'm res) \<Rightarrow> device \<Rightarrow> string \<Rightarrow> va_arg list \<Rightarrow>
     ('m, 'a) debug_state_scheme \<Rightarrow> ('m, 'a) debug_state_scheme res" where
  "debug_print ld st dev format args s = debug_vprint ld st dev format args s"

definition debug_init ::
  "(u32 \<Rightarrow> 'm \<Rightarrow> u8 res) \<Rightarrow> (u32 \<Rightarrow> u8 \<Rightarrow> 'm \<Rightarrow> 'm res) \<Rightarrow> device \<Rightarrow>
     ('m, 'a) debug_state_scheme \<Rightarrow> ('m, 'a) debug_state_scheme res" where
  "debug_init ld st dev s =
     (if debug_initialized s then Inr s
      else let (serial_ok, s) = serial_init_com1 dev s;
               s = s\<lparr>debug_level := DEBUG_LEVEL_INFO, debug_target := DEBUG_TARGET_VGA\<rparr>;
               s = (if serial_ok then s\<lparr>debug_target := debug_target s OR DEBUG_TARGET_SERIAL\<rparr> else s);
               s = s\<lparr>debug_initialized := True\<rparr>
           in bindE (debug_info ld st dev ''Debug subsystem initialized'' [] s) (\<lambda>s.
              if serial_ok then debug_info ld st dev ''Serial COM1 port initialized'' [] s
              else debug_warning ld st dev ''Failed to initialize serial COM1 port'' [] s))"

section \<open>Hex dumps\<close>

text \<open>\<^verbatim>\<open>line_pos += snprintf(line + line_pos, sizeof(line) - line_pos, ...)\<close>, on the array \<^verbatim>\<open>line[128]\<close>.\<close>

definition line_append :: "string \<Rightarrow> va_arg list \<Rightarrow> nat \<times> string \<Rightarrow> (nat \<times> string) res" where
  "line_append format args = (\<lambda>(line_pos, ln).
     bindE (snprintf ln line_pos (128 - line_pos) format args) (\<lambda>(n, ln).
     Inr (line_pos + nat n, ln)))"

text \<open>The two inner loops of a line; bytes are read through the load of the memory.\<close>

definition dump_hex :: "(u32 \<Rightarrow> 'm \<Rightarrow> u8 res) \<Rightarrow> 'm \<Rightarrow> u32 \<Rightarrow> u32 \<Rightarrow> u32 \<Rightarrow> nat \<times> string \<Rightarrow> (nat \<times> string) res" where
  "dump_hex ld m data i sz ln =
     for_rangeE 0 16 (\<lambda>j ln.
       bindE (if i + j < sz
              then bindE (ld (data + (i + j)) m) (\<lambda>b. line_append ''%02x '' [Va_int (ucast b)] ln)
              else line_append ''   '' [] ln) (\<lambda>ln.
       if j = 7 then line_append '' '' [] ln else Inr ln)) ln"

definition dump_ascii :: "(u32 \<Rightarrow> 'm \<Rightarrow> u8 res) \<Rightarrow> 'm \<Rightarrow> u32 \<Rightarrow> u32 \<Rightarrow> u32 \<Rightarrow> nat \<times> string \<Rightarrow> (nat \<times> string) res" where
  "dump_ascii ld m data i sz ln =
     for_rangeE 0 16 (\<lambda>j ln.
       if i + j < sz
       then bindE (ld (data + (i + j)) m) (\<lambda>c.
            if 32 \<le> c \<and> c \<le> 126 then line_append ''%c'' [Va_int (ucast c)] ln
            else line_append ''.'' [] ln)
       else Inr ln) ln"

definition dump_line :: "(u32 \<Rightarrow> 'm \<Rightarrow> u8 res) \<Rightarrow> 'm \<Rightarrow> u32 \<Rightarrow> u32 \<Rightarrow> u32 \<Rightarrow> string res" where
  "dump_line ld m data i sz =
     bindE (line_append ''%08x: '' [Va_int (data + i)] (0, replicate 128 (CHR 0x00))) (\<lambda>ln.
     bindE (dump_hex ld m data i sz ln) (\<lambda>ln.
     bindE (line_append ''| '' [] ln) (\<lambda>ln.
     bindE (dump_ascii ld m data i sz ln) (\<lambda>ln.
     bindE (line_append '' |'' [] ln) (\<lambda>(_, ln). Inr ln)))))"

partial_function (option) dump_loop ::
  "(u32 \<Rightarrow> 'm \<Rightarrow> u8 res) \<Rightarrow> (u32 \<Rightarrow> u8 \<Rightarrow> 'm \<Rightarrow> 'm res) \<Rightarrow> device \<Rightarrow> u32 \<Rightarrow> u32 \<Rightarrow> u32 \<Rightarrow>
     ('m, 'a) debug_state_scheme \<Rightarrow> ('m, 'a) debug_state_scheme res option" where
  "dump_loop ld st dev data sz i s =
     (if i < sz
      then case bindE (dump_line ld (vram s) data i sz) (\<lambda>ln.
                debug_print ld st dev (''%s'' @ [CHR 0x0D, CHR 0x0A]) [Va_str (Some ln)] s) of
             Inl e \<Rightarrow> Some (Inl e)
           | Inr s \<Rightarrow> dump_loop ld st dev data sz (i + 16) s
      else Some (Inr s))"

definition debug_hex_dump ::
  "(u32 \<Rightarrow> 'm \<Rightarrow> u8 res) \<Rightarrow> (u32 \<Rightarrow> u8 \<Rightarrow> 'm \<Rightarrow> 'm res) \<Rightarrow> device \<Rightarrow> u32 \<Rightarrow> u32 \<Rightarrow>
     ('m, 'a) debug_state_scheme \<Rightarrow> ('m, 'a) debug_state_scheme res" where
  "debug_hex_dump ld st dev data sz s =
     (case dump_loop ld st dev data sz 0 s of None \<Rightarrow> Inl No_return | Some r \<Rightarrow> r)"

end
