(* ===== verification/Stdio_Conv.thy ===== *)
theory Stdio_Conv
  imports Stdio
begin

text \<open>
  The number conversions of \<^verbatim>\<open>printf.c\<close>, which write digits backwards into an array and reverse it
  in place, produce the digit strings of positional notation.
\<close>

lemma reverse_between_nth:
  assumes "start < fin \<Longrightarrow> fin < length str"
  shows "\<exists>r. reverse_between start fin str = Inr r \<and> length r = length str \<and>
    (\<forall>k<length str. r ! k = (if start \<le> k \<and> k \<le> fin then str ! (start + fin - k) else str ! k))"
  using assms
proof (induction start fin str rule: reverse_between.induct)
  case (1 start fin str)
  show ?case
  proof (cases "start < fin")
    case True
    let ?s = "str[start := str ! fin, fin := str ! start]"
    have fin: "fin < length str" using "1.prems" True by simp
    have "start + 1 < fin - 1 \<Longrightarrow> fin - 1 < length ?s" using fin by simp
    from "1.IH"[OF True fin this] obtain r where r: "reverse_between (start + 1) (fin - 1) ?s = Inr r"
      "length r = length str" "\<forall>k<length str. r ! k =
        (if start + 1 \<le> k \<and> k \<le> fin - 1 then ?s ! (start + 1 + (fin - 1) - k) else ?s ! k)" by auto
    have "r ! k = (if start \<le> k \<and> k \<le> fin then str ! (start + fin - k) else str ! k)" if "k < length str" for k
    proof (cases "start + 1 \<le> k \<and> k \<le> fin - 1")
      case True
      then have "start + 1 + (fin - 1) - k = start + fin - k" "start + fin - k \<noteq> start" "start + fin - k \<noteq> fin"
        "start \<le> k \<and> k \<le> fin" using \<open>start < fin\<close> by auto
      with True r(3) that show ?thesis by (simp add: nth_list_update)
    next
      case False
      then show ?thesis using r(3) that True fin by (auto simp: nth_list_update not_less_eq_eq)
    qed
    with r True fin show ?thesis by (subst reverse_between.simps) simp
  next
    case False
    then have "start \<le> k \<and> k \<le> fin \<Longrightarrow> start + fin - k = k" for k by linarith
    then have "str ! k = (if start \<le> k \<and> k \<le> fin then str ! (start + fin - k) else str ! k)" for k by simp
    with False show ?thesis by (subst reverse_between.simps) auto
  qed
qed

lemma reverse_prefix:
  assumes "0 < n" "n \<le> length str"
  obtains r where "reverse_between 0 (n - 1) str = Inr r" "length r = length str"
    "take n r = rev (take n str)"
proof -
  have "0 < n - 1 \<Longrightarrow> n - 1 < length str" using assms by simp
  from reverse_between_nth[of 0 "n - 1" str, OF this] obtain r where r: "reverse_between 0 (n - 1) str = Inr r" "length r = length str"
    "\<forall>k<length str. r ! k = (if k \<le> n - 1 then str ! (n - 1 - k) else str ! k)" by auto
  have "take n r = rev (take n str)"
    using r(2,3) assms by (intro nth_equalityI) (auto simp: rev_nth)
  with r that show ?thesis by blast
qed

lemma digit_upper_0 [simp]: "digit_upper 0 = CHR ''0''"
proof -
  have "of_char (CHR ''0'') = (48 :: nat)" by simp
  then show ?thesis unfolding digit_upper_def by (metis add_0_right char_of_char zero_less_numeral)
qed

lemma digit_char: "0 \<le> r \<Longrightarrow> r < 36 \<Longrightarrow> itoa_char r = digit_upper (nat r)"
proof -
  assume r: "0 \<le> r" "r < 36"
  have "nat ((r + 48) mod 256) = 48 + nat r" "nat ((r - 10 + 65) mod 256) = 65 + (nat r - 10)" if "10 \<le> r"
    using r that by (simp_all add: nat_add_distrib nat_diff_distrib)
  moreover have "nat ((r + 48) mod 256) = 48 + nat r" using r by (simp add: nat_add_distrib)
  ultimately show ?thesis using r(1) by (auto simp: itoa_char_def digit_upper_def nat_less_iff)
qed

lemma utoa_digits_ok:
  assumes b: "2 \<le> unat base" "unat base \<le> 36"
    and i: "i + length (rdigits (unat base) (unat num)) \<le> length str"
  shows "utoa_digits base num i str =
    Some (Inr (i + length (rdigits (unat base) (unat num)),
      write_at i (map digit_upper (rdigits (unat base) (unat num))) str))"
  using i
proof (induction "unat num" arbitrary: num i str rule: less_induct)
  case less
  show ?case
  proof (cases "num = 0")
    case True
    then show ?thesis by (subst utoa_digits.simps) simp
  next
    case False
    then have pos: "0 < unat num" by (simp add: unat_gt_0)
    have nz: "base \<noteq> 0" using b by auto
    note ds = rdigits_step[OF pos b(1)]
    have dec: "unat (num div base) < unat num" using pos b(1) by (simp add: unat_div)
    have "unat num mod unat base < 36" using b mod_less_divisor[of "unat base" "unat num"] by linarith
    then have ch: "itoa_char (uint (num mod base)) = digit_upper (unat num mod unat base)"
    proof -
      have "uint (num mod base) = int (unat num mod unat base)" by (simp add: uint_mod zmod_int)
      then show ?thesis using \<open>unat num mod unat base < 36\<close> digit_char[of "int (unat num mod unat base)"]
        by (simp only: nat_int of_nat_0_le_iff of_nat_less_numeral_iff)
    qed
    let ?s = "str[i := digit_upper (unat num mod unat base)]"
    have lt: "i < length str" using less.prems ds by simp
    have "i + 1 + length (rdigits (unat base) (unat (num div base))) \<le> length ?s"
      using less.prems ds by (simp add: unat_div)
    from less.hyps[OF dec this] show ?thesis
      using False nz lt write_at_Cons[OF lt]
      by (subst utoa_digits.simps) (simp add: put_def ch ds unat_div)
  qed
qed

text \<open>What a conversion leaves: the length, and the digits with a terminator at the front of the array.\<close>

definition converted :: "string \<Rightarrow> string \<Rightarrow> nat \<times> string \<Rightarrow> bool" where
  "converted str ns = (\<lambda>(n, r). n = length ns \<and> length r = length str \<and> take n r = ns \<and> r ! n = CHR 0x00)"

lemma finish_conversion:
  assumes "0 < i" "length str = length str0" "i < length str0" "take i str = ds"
  shows "\<exists>r. bindE (reverse_between 0 (i - 1) str) (\<lambda>str. bindE (put i (CHR 0x00) str) (\<lambda>str. Inr (i, str))) = Inr r \<and>
    converted str0 (rev ds) r"
proof -
  obtain r where r: "reverse_between 0 (i - 1) str = Inr r" "length r = length str"
    "take i r = rev (take i str)"
    by (rule reverse_prefix[of i str]) (use assms in auto)
  then show ?thesis using assms by (auto simp: put_def converted_def)
qed

lemma write_at_0_take [simp]: "length cs = n \<Longrightarrow> take n (write_at 0 cs str) = cs"
  by (auto simp: write_at_def)

lemma utoa_ok:
  assumes b: "2 \<le> unat base" "unat base \<le> 36"
    and l: "length (number_string digit_upper (unat base) (unat num)) < length str"
  shows "\<exists>r. utoa str num base = Inr r \<and> converted str (number_string digit_upper (unat base) (unat num)) r"
proof (cases "num = 0")
  case True
  then show ?thesis using l by (cases str rule: list.exhaust; cases "tl str")
      (auto simp: utoa_def put_def converted_def number_string_def)
next
  case False
  let ?ds = "map digit_upper (rdigits (unat base) (unat num))"
  have pos: "0 < unat num" using False by (simp add: unat_gt_0)
  have ns: "number_string digit_upper (unat base) (unat num) = rev ?ds"
    using pos by (simp add: number_string_def rev_map)
  have len: "0 < length ?ds" "length ?ds < length str"
    using rdigits_step[OF pos b(1)] l unfolding ns by simp_all
  have d: "utoa_digits base num 0 str = Some (Inr (length ?ds, write_at 0 ?ds str))"
    using utoa_digits_ok[OF b, of 0 num str] len(2) by simp
  have "length (write_at 0 ?ds str) = length str" using len(2) by (intro write_at_length) simp
  from finish_conversion[OF len(1) this len(2) write_at_0_take[OF refl]] False d show ?thesis
    unfolding ns by (simp add: utoa_def)
qed

lemma itoa_digits_ok:
  assumes "0 \<le> num" "i + length (rdigits 10 (nat num)) \<le> length str"
  shows "itoa_digits 10 num i str =
    Some (Inr (i + length (rdigits 10 (nat num)), write_at i (map digit_upper (rdigits 10 (nat num))) str))"
  using assms
proof (induction "nat num" arbitrary: num i str rule: less_induct)
  case less
  show ?case
  proof (cases "num = 0")
    case True
    then show ?thesis by (subst itoa_digits.simps) simp
  next
    case False
    then have pos: "0 < nat num" using less.prems by simp
    have q: "c_quot num 10 = num div 10" "c_rem num 10 = num mod 10"
      using less.prems(1) False by (simp_all add: c_quot_def c_rem_def minus_mult_div_eq_mod)
    have n: "nat (num div 10) = nat num div 10" "nat (num mod 10) = nat num mod 10"
      using less.prems(1) by (simp_all add: nat_div_distrib nat_mod_distrib)
    have ds: "rdigits 10 (nat num) = nat num mod 10 # rdigits 10 (nat num div 10)"
      using rdigits_step[OF pos, of 10] by simp
    have ch: "itoa_char (num mod 10) = digit_upper (nat num mod 10)"
      using digit_char[of "num mod 10"] n(2) by simp
    have lt: "i < length str" using less.prems(2) ds by simp
    let ?s = "str[i := digit_upper (nat num mod 10)]"
    have "nat (num div 10) < nat num" "0 \<le> num div 10"
      "i + 1 + length (rdigits 10 (nat (num div 10))) \<le> length ?s"
      using pos less.prems ds by (simp_all add: n)
    from less.hyps[OF this] show ?thesis
      using False lt write_at_Cons[OF lt]
      by (subst itoa_digits.simps) (simp add: put_def ch ds q n)
  qed
qed

text \<open>Signed decimal notation.\<close>

definition int_string :: "int \<Rightarrow> string" where
  "int_string n = (if n < 0 then CHR ''-'' # number_string digit_upper 10 (nat (- n))
                   else number_string digit_upper 10 (nat n))"

lemma itoa_ok:
  assumes "num \<noteq> INT_MIN" and l: "length (int_string num) < length str"
  shows "\<exists>r. itoa str num 10 = Inr r \<and> converted str (int_string num) r"
proof (cases "num = 0")
  case True
  then show ?thesis using l by (cases str rule: list.exhaust; cases "tl str")
      (auto simp: itoa_def put_def converted_def int_string_def number_string_def)
next
  case False
  let ?a = "\<bar>num\<bar>"
  let ?ds = "map digit_upper (rdigits 10 (nat ?a))" and ?m = "if num < 0 then [CHR ''-''] else []"
  have ns: "int_string num = rev (?ds @ ?m)"
    using False by (simp add: int_string_def number_string_def rev_map)
  have len: "0 < length (?ds @ ?m)" "length ?ds + length ?m < length str"
    using rdigits_step[of "nat ?a" 10] l False unfolding ns by (simp_all split: if_splits)
  have d: "itoa_digits 10 ?a 0 str = Some (Inr (length ?ds, write_at 0 ?ds str))"
    using itoa_digits_ok[of ?a 0 str] len(2) by simp
  have w: "length (write_at 0 ?ds str) = length str" using len(2) by (intro write_at_length) simp
  have minus: "put (length ?ds) (CHR ''-'') (write_at 0 ?ds str) = Inr ((write_at 0 ?ds str)[length ?ds := CHR ''-''])"
    if "num < 0" using that w len(2) by (simp add: put_def)
  let ?str = "if num < 0 then (write_at 0 ?ds str)[length ?ds := CHR ''-''] else write_at 0 ?ds str"
  have "take (length (?ds @ ?m)) ?str = ?ds @ ?m"
    using len(2) w by (auto simp: take_Suc_conv_app_nth)
  moreover have "length ?str = length str" using w by (simp only: length_list_update split: if_split) blast
  ultimately have "\<exists>r. bindE (reverse_between 0 (length (?ds @ ?m) - 1) ?str) (\<lambda>str.
      bindE (put (length (?ds @ ?m)) (CHR 0x00) str) (\<lambda>str. Inr (length (?ds @ ?m), str))) = Inr r \<and>
      converted str (rev (?ds @ ?m)) r"
    using len by (intro finish_conversion) simp_all
  then show ?thesis
    using False assms(1) d minus unfolding ns by (cases "num < 0") (simp_all add: itoa_def)
qed

lemma decimal_u32: "length (number_string digit_upper 10 (unat w)) \<le> 10" for w :: u32
  using unsigned_less[of w, where 'a = nat] by (intro decimal.string_length) simp_all

lemma hex_u32: "length (number_string digit_upper 16 (unat w)) \<le> 8" for w :: u32
  using unsigned_less[of w, where 'a = nat] by (intro hex_upper.string_length) simp_all

lemma int_string_length: "- (2 ^ 31) \<le> n \<Longrightarrow> n < 2 ^ 31 \<Longrightarrow> length (int_string n) \<le> 11"
proof -
  assume "- (2 ^ 31) \<le> n" "n < 2 ^ 31"
  then have "length (number_string digit_upper 10 (nat \<bar>n\<bar>)) \<le> 10" by (intro decimal.string_length) (simp_all add: nat_less_iff)
  then show ?thesis by (auto simp: int_string_def)
qed

end
