(* ===== verification/Debug_Format.thy ===== *)
theory Debug_Format
  imports Debug Stdio_Conv
begin

text \<open>
  What \<^verbatim>\<open>vsnprintf\<close> of \<^verbatim>\<open>debug.c\<close> promises: a format and its arguments denote a list of pieces of text,
  and the buffer receives as much of them as fits before its last byte, then the terminator. A
  hexadecimal piece is left out when there is no room for its prefix.
\<close>

section \<open>Pieces\<close>

datatype piece = Text string | Prefixed string

definition pad8 :: "string \<Rightarrow> string" where
  "pad8 str = replicate (8 - length str) (CHR ''0'') @ str"

fun arg_piece :: "char \<Rightarrow> va_arg \<Rightarrow> piece option" where
  "arg_piece f (Va_str p) =
     (if f = CHR ''s'' then Some (Text (case p of None \<Rightarrow> ''(null)'' | Some str \<Rightarrow> cstr str)) else None)"
| "arg_piece f (Va_int v) =
     (if f = CHR ''d'' \<or> f = CHR ''i''
      then if sint v = INT_MIN then None else Some (Text (int_string (sint v)))
      else if f = CHR ''u'' then Some (Text (number_string digit_upper 10 (unat v)))
      else if f = CHR ''x'' then Some (Prefixed (number_string digit_lower 16 (unat v)))
      else if f = CHR ''X'' then Some (Prefixed (number_string digit_upper 16 (unat v)))
      else if f = CHR ''p''
      then Some (if v = 0 then Text ''(nil)'' else Prefixed (pad8 (number_string digit_lower 16 (unat v))))
      else if f = CHR ''c'' then Some (Text [char_of (unat v)])
      else None)"

fun vpieces :: "string \<Rightarrow> va_arg list \<Rightarrow> piece list option" where
  "vpieces [] args = Some []"
| "vpieces [c] args = Some (if c = CHR ''%'' then [] else [Text [c]])"
| "vpieces (c # f # format) args =
     (if c \<noteq> CHR ''%'' then map_option ((#) (Text [c])) (vpieces (f # format) args)
      else if f = CHR ''%'' then map_option ((#) (Text [f])) (vpieces format args)
      else if f \<in> set ''diuxXpsc''
      then case args of [] \<Rightarrow> None
           | a # args \<Rightarrow> (case arg_piece f a of None \<Rightarrow> None
                          | Some p \<Rightarrow> map_option ((#) p) (vpieces format args))
      else map_option ((#) (Text [c, f])) (vpieces format args))"

text \<open>The text of a list of pieces in full, and cut to the room there is.\<close>

fun piece_text :: "piece \<Rightarrow> string" where
  "piece_text (Text t) = t"
| "piece_text (Prefixed t) = ''0x'' @ t"

fun fit :: "nat \<Rightarrow> piece list \<Rightarrow> string" where
  "fit room [] = []"
| "fit room (Text t # ps) = take room t @ fit (room - length t) ps"
| "fit room (Prefixed t # ps) =
     (if room < 2 then fit room ps else take room (''0x'' @ t) @ fit (room - (2 + length t)) ps)"

lemma fit_length: "length (fit room ps) \<le> room"
proof (induction room ps rule: fit.induct)
  case (2 room t ps)
  then show ?case by simp
next
  case (3 room t ps)
  then show ?case by (auto simp: Let_def)
qed simp

lemma fit_0 [simp]: "fit 0 ps = []"
  using fit_length[of 0 ps] by simp

lemma fit_all: "length (concat (map piece_text ps)) \<le> room \<Longrightarrow> fit room ps = concat (map piece_text ps)"
  by (induction room ps rule: fit.induct) auto

section \<open>Writing into the buffer\<close>

definition vs_add :: "nat \<Rightarrow> string \<Rightarrow> vs_out \<Rightarrow> vs_out" where
  "vs_add off txt = (\<lambda>(i, n, str). (i + length txt, n + length txt, write_at (off + i) txt str))"

definition vs_ok :: "nat \<Rightarrow> nat \<Rightarrow> vs_out \<Rightarrow> bool" where
  "vs_ok off lim = (\<lambda>(i, n, str). i \<le> lim \<and> off + lim < length str)"

lemma write_at_append:
  assumes "i + length xs \<le> length str"
  shows "write_at (i + length xs) ys (write_at i xs str) = write_at i (xs @ ys) str"
  using assms by (simp add: write_at_def add.commute add.left_commute)

lemma vs_add_Nil [simp]: "vs_add off [] out = out"
  by (cases out) (simp add: vs_add_def)

lemma vs_add_fst [simp]: "fst (vs_add off txt out) = fst out + length txt"
  by (cases out) (simp add: vs_add_def)

lemma vs_add_ok: "vs_ok off lim out \<Longrightarrow> length txt \<le> lim - fst out \<Longrightarrow> vs_ok off lim (vs_add off txt out)"
  by (cases out) (auto simp: vs_add_def vs_ok_def write_at_length)

lemma vs_add_append:
  assumes "vs_ok off lim out" "length xs \<le> lim - fst out"
  shows "vs_add off ys (vs_add off xs out) = vs_add off (xs @ ys) out"
  using assms write_at_append[of "off + fst out" xs "snd (snd out)" ys]
  by (cases out) (auto simp: vs_add_def vs_ok_def add.assoc)

lemma vs_emit_ok: "vs_ok off lim out \<Longrightarrow> fst out < lim \<Longrightarrow> vs_emit off c out = Inr (vs_add off [c] out)"
  by (cases out) (auto simp: vs_emit_def vs_add_def vs_ok_def put_def write_at_def upd_conv_take_nth_drop)

lemma vs_emit_if_ok: "vs_ok off lim out \<Longrightarrow> vs_emit_if off lim c out = Inr (vs_add off (take (lim - fst out) [c]) out)"
  by (auto simp: vs_emit_if_def vs_emit_ok)

text \<open>The step every character loop takes.\<close>

lemma vs_add_Cons:
  assumes "vs_ok off lim out" "fst out < lim"
  shows "vs_ok off lim (vs_add off [c] out)"
    and "vs_add off (take (lim - fst (vs_add off [c] out)) cs) (vs_add off [c] out) =
      vs_add off (take (lim - fst out) (c # cs)) out"
proof -
  show "vs_ok off lim (vs_add off [c] out)" using assms by (intro vs_add_ok) simp_all
  have "take (lim - fst out) (c # cs) = [c] @ take (lim - (fst out + 1)) cs"
    using assms(2) by (simp add: take_Cons' Suc_diff_Suc)
  then show "vs_add off (take (lim - fst (vs_add off [c] out)) cs) (vs_add off [c] out) =
      vs_add off (take (lim - fst out) (c # cs)) out"
    using vs_add_append[OF assms(1), of "[c]"] assms(2) by simp
qed

lemma vs_string_ok:
  "vs_ok off lim out \<Longrightarrow> vs_string off lim cs out = Inr (vs_add off (take (lim - fst out) cs) out)"
proof (induction cs arbitrary: out)
  case (Cons c cs)
  then show ?case by (auto simp: vs_emit_ok vs_add_Cons simp del: vs_add_fst)
qed simp

lemma copy_back_ok:
  "vs_ok off lim out \<Longrightarrow> n \<le> length buf \<Longrightarrow>
    copy_back off lim buf n out = Inr (vs_add off (take (lim - fst out) (rev (take n buf))) out)"
proof (induction n arbitrary: out)
  case (Suc n)
  then have "rev (take (Suc n) buf) = buf ! n # rev (take n buf)" by (simp add: take_Suc_conv_app_nth)
  with Suc show ?case by (auto simp: vs_emit_ok vs_add_Cons simp del: vs_add_fst)
qed simp

section \<open>The digit loop\<close>

text \<open>What makes a digit function and a step the digits of an alphabet.\<close>

locale word_digits = alphabet alpha val base
  for alpha :: "nat \<Rightarrow> char" and val and base +
  fixes digit :: "u32 \<Rightarrow> char" and nxt :: "u32 \<Rightarrow> u32"
  assumes digit: "digit v = alpha (unat v mod base)"
    and nxt: "unat (nxt v) = unat v div base"
begin

lemma number_string_step:
  "rev (number_string alpha base (unat v)) =
     digit v # (if nxt v = 0 then [] else rev (number_string alpha base (unat (nxt v))))"
proof (cases "v = 0")
  case True
  then show ?thesis using nxt[of v] by (simp add: number_string_def digit unat_0_iff)
next
  case False
  then have pos: "0 < unat v" by (simp add: unat_gt_0)
  have "nxt v = 0 \<longleftrightarrow> unat v div base = 0" using nxt[of v] by (metis unat_0 unat_0_iff)
  then show ?thesis
    using pos rdigits_step[OF pos base2] by (auto simp: number_string_def digit nxt rev_map)
qed

lemma digits_loop_ok:
  "pos + length (number_string alpha base (unat v)) \<le> 31 \<Longrightarrow> length buf = 32 \<Longrightarrow>
    digits_loop digit nxt v pos buf = Inr (pos + length (number_string alpha base (unat v)),
      write_at pos (rev (number_string alpha base (unat v))) buf)"
proof (induction "unat v" arbitrary: v pos buf rule: less_induct)
  case less
  have st: "length (number_string alpha base (unat v)) =
      Suc (if nxt v = 0 then 0 else length (number_string alpha base (unat (nxt v))))"
    using arg_cong[OF number_string_step, of length] by (simp split: if_splits)
  have put: "put pos (digit v) buf = Inr (buf[pos := digit v])" using less.prems st by (simp add: put_def)
  show ?case
  proof (cases "nxt v = 0")
    case True
    then show ?thesis
      using put less.prems st number_string_step[of v]
      by (subst digits_loop.simps) (simp add: write_at_def upd_conv_take_nth_drop)
  next
    case False
    have "0 < unat (nxt v)" using False by (simp add: unat_gt_0)
    then have "0 < unat v" unfolding nxt by (cases "unat v = 0") simp_all
    then have lt: "unat (nxt v) < unat v" using base2 unfolding nxt by (intro div_less_dividend) simp_all
    have "rev (number_string alpha base (unat (nxt v))) \<noteq> []" by (subst number_string_step) simp
    then have ne: "0 < length (number_string alpha base (unat (nxt v)))" by simp
    have l: "pos + 1 + length (number_string alpha base (unat (nxt v))) \<le> 31"
      using less.prems(1) st False by simp
    have "digits_loop digit nxt v pos buf = digits_loop digit nxt (nxt v) (pos + 1) (buf[pos := digit v])"
    proof -
      have "pos + 1 < 31" using l ne by linarith
      then show ?thesis using put False by (subst digits_loop.simps) simp
    qed
    also have "\<dots> = Inr (pos + 1 + length (number_string alpha base (unat (nxt v))),
        write_at (pos + 1) (rev (number_string alpha base (unat (nxt v)))) (buf[pos := digit v]))"
      using less.prems(2) by (intro less.hyps[OF lt l]) simp
    also have "write_at (pos + 1) (rev (number_string alpha base (unat (nxt v)))) (buf[pos := digit v]) =
        write_at pos (rev (number_string alpha base (unat v))) buf"
      using write_at_Cons[of pos buf] less.prems st number_string_step[of v] False by simp
    finally show ?thesis using st False by simp
  qed
qed

text \<open>The loop on a fresh array, then the copy to the output.\<close>

lemma digits_copied:
  assumes "vs_ok off lim out" "length (number_string alpha base (unat v)) \<le> 31"
  shows "bindE (digits_loop digit nxt v 0 local_buffer) (\<lambda>(pos, buffer). copy_back off lim buffer pos out) =
    Inr (vs_add off (take (lim - fst out) (number_string alpha base (unat v))) out)"
proof -
  let ?ns = "number_string alpha base (unat v)"
  let ?w = "write_at 0 (rev ?ns) local_buffer"
  have "length ?w = 32" using assms(2) write_at_length[of 0 "rev ?ns" local_buffer] by simp
  moreover have "take (length ?ns) ?w = rev ?ns" by simp
  ultimately show ?thesis
    using digits_loop_ok[of 0 v local_buffer] copy_back_ok[OF assms(1), of "length ?ns" ?w] assms(2) by simp
qed

end

lemma unat_and_15: "unat (v AND 0xF) = unat v mod 16" for v :: u32
proof -
  have "v AND 0xF = take_bit 4 v" by (simp add: take_bit_eq_mask mask_eq_exp_minus_1)
  then show ?thesis by (simp add: take_bit_eq_mod unat_mod)
qed

lemma unat_drop_4: "unat (drop_bit 4 v) = unat v div 16" for v :: u32
  by (simp add: drop_bit_eq_div unat_div)

interpretation vs_dec: word_digits digit_upper digit_value 10 dec_digit "\<lambda>v. v div 10"
  by unfold_locales (simp_all add: dec_digit_def digit_upper_def unat_mod unat_div)

interpretation vs_lower: word_digits digit_lower digit_value 16 hex_digit_lower "drop_bit 4"
  by unfold_locales (simp_all add: hex_digit_lower_def digit_lower_def unat_and_15 unat_drop_4 Let_def)

interpretation vs_upper: word_digits digit_upper digit_value 16 hex_digit_upper "drop_bit 4"
  by unfold_locales (simp_all add: hex_digit_upper_def digit_upper_def unat_and_15 unat_drop_4 Let_def)

section \<open>Conversions\<close>

lemma hex_lower_u32: "length (number_string digit_lower 16 (unat w)) \<le> 8" for w :: u32
  using unsigned_less[of w, where 'a = nat] by (intro hex_lower.string_length) simp_all

lemma vs_unsigned_ok:
  "vs_ok off lim out \<Longrightarrow> vs_unsigned off lim v out =
    Inr (vs_add off (take (lim - fst out) (number_string digit_upper 10 (unat v))) out)"
  using decimal_u32[of v] by (simp add: vs_unsigned_def vs_dec.digits_copied)

lemma vs_signed_ok:
  assumes ok: "vs_ok off lim out" and v: "- (2 ^ 31) < v" "v < 2 ^ 31"
  shows "vs_signed off lim v out = Inr (vs_add off (take (lim - fst out) (int_string v)) out)"
proof -
  let ?w = "word_of_int \<bar>v\<bar> :: u32"
  have u: "unat ?w = nat \<bar>v\<bar>" using v by (simp add: unat_eq_nat_uint uint_word_of_int)
  let ?ns = "number_string digit_upper 10 (nat \<bar>v\<bar>)"
  have l: "length ?ns \<le> 10" using decimal_u32[of ?w] unfolding u .
  have d: "digits_loop dec_digit (\<lambda>v. v div 10) ?w 0 local_buffer = Inr (length ?ns, write_at 0 (rev ?ns) local_buffer)"
    using vs_dec.digits_loop_ok[of 0 ?w local_buffer] l unfolding u by simp
  have w: "length (write_at 0 (rev ?ns) local_buffer) = 32"
    using l write_at_length[of 0 "rev ?ns" local_buffer] by simp
  let ?b = "(write_at 0 (rev ?ns) local_buffer)[length ?ns := CHR ''-'']"
  have m: "take (Suc (length ?ns)) ?b = rev ?ns @ ''-''"
    using w l by (simp add: take_Suc_conv_app_nth)
  show ?thesis
  proof (cases "v < 0")
    case True
    have "rev (take (Suc (length ?ns)) ?b) = int_string v" using True m by (simp add: int_string_def)
    then have "copy_back off lim ?b (Suc (length ?ns)) out = Inr (vs_add off (take (lim - fst out) (int_string v)) out)"
      using copy_back_ok[OF ok, of "Suc (length ?ns)" ?b] w l by (simp del: copy_back.simps)
    then show ?thesis
      using True d w l v by (simp add: vs_signed_def put_def del: copy_back.simps)
  next
    case False
    then show ?thesis
      using d w l copy_back_ok[OF ok, of "length ?ns" "write_at 0 (rev ?ns) local_buffer"]
      by (simp add: vs_signed_def int_string_def)
  qed
qed

text \<open>The prefix, then the rest; both conversions to hexadecimal share it.\<close>

lemma prefix_ok:
  assumes ok: "vs_ok off lim out" and room: "fst out + 1 < lim"
    and rest: "\<And>o'. vs_ok off lim o' \<Longrightarrow> fst o' = fst out + 2 \<Longrightarrow>
      rest o' = Inr (vs_add off (take (lim - fst o') t) o')"
  shows "bindE (vs_emit off (CHR ''0'') out) (\<lambda>out. bindE (vs_emit off (CHR ''x'') out) rest) =
    Inr (vs_add off (take (lim - fst out) (''0x'' @ t)) out)"
proof -
  let ?o1 = "vs_add off ''0'' out" and ?o2 = "vs_add off ''0x'' out"
  have "vs_ok off lim ?o1" "vs_ok off lim ?o2" using ok room by (intro vs_add_ok; simp)+
  moreover have "vs_add off ''x'' ?o1 = ?o2" using vs_add_append[OF ok, of "''0''" "''x''"] room by simp
  ultimately have "bindE (vs_emit off (CHR ''0'') out) (\<lambda>out. bindE (vs_emit off (CHR ''x'') out) rest) = rest ?o2"
    using room by (simp add: vs_emit_ok[OF ok] vs_emit_ok[of off lim ?o1])
  also have "\<dots> = Inr (vs_add off (take (lim - (fst out + 2)) t) ?o2)"
    using rest[of ?o2] \<open>vs_ok off lim ?o2\<close> by simp
  also have "vs_add off (take (lim - (fst out + 2)) t) ?o2 = vs_add off (''0x'' @ take (lim - (fst out + 2)) t) out"
    using vs_add_append[OF ok, of "''0x''"] room by simp
  also have "''0x'' @ take (lim - (fst out + 2)) t = take (lim - fst out) (''0x'' @ t)"
  proof -
    have "lim - fst out = Suc (Suc (lim - (fst out + 2)))" using room by simp
    then show ?thesis by simp
  qed
  finally show ?thesis .
qed

lemma number_string_0 [simp]: "number_string alpha base 0 = [alpha 0]"
  by (simp add: number_string_def)

lemma digit_lower_0 [simp]: "digit_lower 0 = CHR ''0''"
  using digit_upper_0 by (simp add: digit_upper_def digit_lower_def)

lemma vs_hex_lower:
  assumes "vs_ok off lim out" "fst out + 1 < lim"
  shows "vs_hex off lim hex_digit_lower v out =
    Inr (vs_add off (take (lim - fst out) (''0x'' @ number_string digit_lower 16 (unat v))) out)"
proof -
  have "(if v = 0 \<and> fst o' < lim then vs_emit off (CHR ''0'') o'
        else bindE (digits_loop hex_digit_lower (drop_bit 4) v 0 local_buffer) (\<lambda>(pos, buffer).
             copy_back off lim buffer pos o')) =
      Inr (vs_add off (take (lim - fst o') (number_string digit_lower 16 (unat v))) o')"
    if "vs_ok off lim o'" for o'
    using that hex_lower_u32[of v] by (auto simp: vs_emit_ok vs_lower.digits_copied)
  from prefix_ok[OF assms this] assms(2) show ?thesis by (simp add: vs_hex_def)
qed

lemma vs_hex_upper:
  assumes "vs_ok off lim out" "fst out + 1 < lim"
  shows "vs_hex off lim hex_digit_upper v out =
    Inr (vs_add off (take (lim - fst out) (''0x'' @ number_string digit_upper 16 (unat v))) out)"
proof -
  have "(if v = 0 \<and> fst o' < lim then vs_emit off (CHR ''0'') o'
        else bindE (digits_loop hex_digit_upper (drop_bit 4) v 0 local_buffer) (\<lambda>(pos, buffer).
             copy_back off lim buffer pos o')) =
      Inr (vs_add off (take (lim - fst o') (number_string digit_upper 16 (unat v))) o')"
    if "vs_ok off lim o'" for o'
    using that hex_u32[of v] by (auto simp: vs_emit_ok vs_upper.digits_copied)
  from prefix_ok[OF assms this] assms(2) show ?thesis by (simp add: vs_hex_def)
qed

lemma pad_loop_ok:
  "length buf = 32 \<Longrightarrow> pos \<le> 8 \<Longrightarrow> pad_loop pos buf = Inr (8, write_at pos (replicate (8 - pos) (CHR ''0'')) buf)"
proof (induction pos buf rule: pad_loop.induct)
  case (1 pos buf)
  show ?case
  proof (cases "pos < 8")
    case True
    have put: "put pos (CHR ''0'') buf = Inr (buf[pos := CHR ''0''])" using 1 True by (simp add: put_def)
    have "8 - pos = Suc (8 - (pos + 1))" using True by simp
    then have r: "replicate (8 - pos) (CHR ''0'') = CHR ''0'' # replicate (8 - (pos + 1)) (CHR ''0'')" by simp
    have "pad_loop (pos + 1) (buf[pos := CHR ''0'']) =
        Inr (8, write_at (pos + 1) (replicate (8 - (pos + 1)) (CHR ''0'')) (buf[pos := CHR ''0'']))"
      using 1 True put by auto
    then show ?thesis
      using True put write_at_Cons[of pos buf] "1.prems" unfolding r by (subst pad_loop.simps) simp
  next
    case False
    with "1.prems" show ?thesis by (subst pad_loop.simps) simp
  qed
qed

lemma pointer_digits_ok:
  assumes "vs_ok off lim out"
  shows "bindE (digits_loop hex_digit_lower (drop_bit 4) v 0 local_buffer) (\<lambda>(pos, buffer).
      bindE (pad_loop pos buffer) (\<lambda>(pos, buffer). copy_back off lim buffer pos out)) =
    Inr (vs_add off (take (lim - fst out) (pad8 (number_string digit_lower 16 (unat v)))) out)"
proof -
  let ?ns = "number_string digit_lower 16 (unat v)"
  let ?w = "write_at 0 (rev ?ns) local_buffer"
  have l: "length ?ns \<le> 8" by (rule hex_lower_u32)
  have d: "digits_loop hex_digit_lower (drop_bit 4) v 0 local_buffer = Inr (length ?ns, ?w)"
    using vs_lower.digits_loop_ok[of 0 v local_buffer] l by simp
  have lw: "length ?w = 32" using l write_at_length[of 0 "rev ?ns" local_buffer] by simp
  let ?p = "write_at (length ?ns) (replicate (8 - length ?ns) (CHR ''0'')) ?w"
  have eq: "?p = write_at 0 (rev (pad8 ?ns)) local_buffer"
    using write_at_append[of 0 "rev ?ns" local_buffer] l by (simp add: pad8_def)
  have len: "length (pad8 ?ns) = 8" using l by (simp add: pad8_def)
  have "length ?p = 32" "take 8 ?p = rev (pad8 ?ns)"
    unfolding eq using len write_at_length[of 0 "rev (pad8 ?ns)" local_buffer] by simp_all
  then have "copy_back off lim ?p 8 out = Inr (vs_add off (take (lim - fst out) (pad8 ?ns)) out)"
    using copy_back_ok[OF assms, of 8 ?p] by simp
  then show ?thesis using d pad_loop_ok[OF lw l] by simp
qed

lemma vs_pointer_ok:
  assumes ok: "vs_ok off lim out" and lim: "lim < 2 ^ 31"
  shows "vs_pointer off lim v out = Inr (vs_add off (fit (lim - fst out) [if v = 0 then Text ''(nil)''
    else Prefixed (pad8 (number_string digit_lower 16 (unat v)))]) out)"
proof (cases "v = 0")
  case True
  obtain i n str where out: "out = (i, n, str)" by (cases out)
  have b: "i \<le> lim" "off + lim < length str" using ok by (simp_all add: out vs_ok_def)
  then have m: "(i + 5) mod 2 ^ 32 = i + 5" using lim by simp
  have c: "min (lim - i) 5 = (if i + 5 < lim then 5 else lim - i)" by simp
  have "length (take (lim - i) ''(nil)'') = (if i + 5 < lim then 5 else lim - i)"
    "take (if i + 5 < lim then 5 else lim - i) ''(nil)'' = take (lim - i) ''(nil)''"
    using c by (simp_all add: min.commute)
  then show ?thesis
    using True out b m unfolding vs_pointer_def
    by (simp add: copy_into_def Let_def vs_add_def del: take_Cons_numeral) (auto simp: min_def)
next
  case False
  then show ?thesis
    using prefix_ok[OF ok, of "\<lambda>o'. bindE (digits_loop hex_digit_lower (drop_bit 4) v 0 local_buffer)
      (\<lambda>(pos, buffer). bindE (pad_loop pos buffer) (\<lambda>(pos, buffer). copy_back off lim buffer pos o'))"
        "pad8 (number_string digit_lower 16 (unat v))"] pointer_digits_ok[of off lim _ v]
    by (cases "fst out + 1 < lim") (auto simp: vs_pointer_def)
qed

section \<open>The whole formatter\<close>

lemma vs_switch_ok:
  assumes ok: "vs_ok off lim out" and lim: "lim < 2 ^ 31" and p: "f \<in> set ''diuxXpsc''" "arg_piece f a = Some p"
  shows "vs_switch off lim f (a # args) out = Inr (args, vs_add off (fit (lim - fst out) [p]) out)"
proof (cases a)
  case (Va_str q)
  then have "f = CHR ''s''" "p = Text (case q of None \<Rightarrow> ''(null)'' | Some str \<Rightarrow> cstr str)"
    using p by (auto split: if_splits)
  then show ?thesis using Va_str by (simp add: vs_switch_def vs_string_ok[OF ok])
next
  case (Va_int v)
  have hex: "vs_hex off lim digit v out = Inr (vs_add off (fit (lim - fst out) [Prefixed t]) out)"
    if "fst out + 1 < lim \<Longrightarrow> vs_hex off lim digit v out = Inr (vs_add off (take (lim - fst out) (''0x'' @ t)) out)" for digit t
    using that by (cases "fst out + 1 < lim") (auto simp: vs_hex_def)
  have int: "vs_signed off lim (sint v) out = Inr (vs_add off (take (lim - fst out) (int_string (sint v))) out)"
    if "sint v \<noteq> INT_MIN"
    using that sint_ge[of v] sint_lt[of v] by (intro vs_signed_ok[OF ok]) simp_all
  note hexes = hex[OF vs_hex_lower[OF ok]] hex[OF vs_hex_upper[OF ok]]
  note steps = int vs_unsigned_ok[OF ok] hexes vs_pointer_ok[OF ok lim] vs_emit_if_ok[OF ok]
  from p(1) have "f = CHR ''d'' \<or> f = CHR ''i'' \<or> f = CHR ''u'' \<or> f = CHR ''x'' \<or> f = CHR ''X'' \<or> f = CHR ''p'' \<or>
      f = CHR ''s'' \<or> f = CHR ''c''" by auto
  then show ?thesis
    using p(2) by (elim disjE) (auto simp: vs_switch_def Va_int steps split: if_splits)
qed

lemma fit_Cons: "fit room (p # ps) = fit room [p] @ fit (room - length (fit room [p])) ps"
  by (cases p) (auto simp: min_def)

lemma vs_add_fit:
  assumes "vs_ok off lim out"
  shows "vs_ok off lim (vs_add off (fit (lim - fst out) [p]) out)"
    and "vs_add off (fit (lim - fst (vs_add off (fit (lim - fst out) [p]) out)) ps)
      (vs_add off (fit (lim - fst out) [p]) out) = vs_add off (fit (lim - fst out) (p # ps)) out"
proof -
  show "vs_ok off lim (vs_add off (fit (lim - fst out) [p]) out)"
    by (rule vs_add_ok[OF assms fit_length])
  show "vs_add off (fit (lim - fst (vs_add off (fit (lim - fst out) [p]) out)) ps)
      (vs_add off (fit (lim - fst out) [p]) out) = vs_add off (fit (lim - fst out) (p # ps)) out"
    using vs_add_append[OF assms fit_length] by (subst fit_Cons) simp
qed

lemma vs_loop_ok:
  assumes "vs_ok off lim out" "lim < 2 ^ 31" "vpieces format args = Some ps"
  shows "vs_loop off lim format args out = Inr (vs_add off (fit (lim - fst out) ps) out)"
  using assms
proof (induction off lim format args out arbitrary: ps rule: vs_loop.induct)
  case (1 off lim args out)
  then show ?case by simp
next
  case (2 off lim c args out)
  then show ?case by (auto simp: vs_emit_ok)
next
  case (3 off lim c f format args out)
  note ok = "3.prems"(1) and lim = "3.prems"(2)
  let ?step = "\<lambda>p. vs_add off (fit (lim - fst out) [p]) out"
  show ?case
  proof (cases "fst out < lim")
    case False
    then show ?thesis by simp
  next
    case room: True
    have one: "vs_emit off x out = Inr (?step (Text [x]))" for x using vs_emit_ok[OF ok room] room by simp
    consider (plain) "c \<noteq> CHR ''%''" | (percent) "c = CHR ''%''" "f = CHR ''%''"
      | (conv) "c = CHR ''%''" "f \<noteq> CHR ''%''" "f \<in> set ''diuxXpsc''"
      | (other) "c = CHR ''%''" "f \<noteq> CHR ''%''" "f \<notin> set ''diuxXpsc''" by blast
    then show ?thesis
    proof cases
      case plain
      then obtain qs where q: "vpieces (f # format) args = Some qs" "ps = Text [c] # qs"
        using "3.prems"(3) by auto
      with 3(1)[OF room plain one vs_add_fit(1)[OF ok] lim q(1)] room plain one vs_add_fit(2)[OF ok, of "Text [c]" qs]
      show ?thesis by (simp del: fit.simps vs_add_fst)
    next
      case percent
      then obtain qs where q: "vpieces format args = Some qs" "ps = Text [f] # qs"
        using "3.prems"(3) by auto
      have nn: "\<not> c \<noteq> CHR ''%''" using percent by simp
      have o: "vs_emit off (CHR ''%'') out = Inr (?step (Text [f]))" using one percent by simp
      from 3(2)[OF room nn percent(2) o vs_add_fit(1)[OF ok] lim q(1)] q(2) room percent o vs_add_fit(2)[OF ok, of "Text [f]" qs]
      show ?thesis by (simp del: fit.simps vs_add_fst)
    next
      case conv
      then obtain a args' p qs where q: "args = a # args'" "arg_piece f a = Some p"
        "vpieces format args' = Some qs" "ps = p # qs"
        using "3.prems"(3) by (auto simp del: insert_iff split: list.splits option.splits)
      have nn: "\<not> c \<noteq> CHR ''%''" using conv by simp
      have sw: "vs_switch off lim f args out = Inr (args', ?step p)"
        unfolding q(1) by (rule vs_switch_ok[OF ok lim conv(3) q(2)])
      from 3(3)[OF room nn conv(2) sw refl vs_add_fit(1)[OF ok] lim q(3)] q(4) room conv sw vs_add_fit(2)[OF ok, of p qs]
      show ?thesis by (simp del: fit.simps vs_add_fst)
    next
      case other
      then obtain qs where q: "vpieces format args = Some qs" "ps = Text [c, f] # qs"
        using "3.prems"(3) by (auto simp del: insert_iff)
      have nn: "\<not> c \<noteq> CHR ''%''" using other by simp
      have sw: "vs_switch off lim f args out = Inr (args, ?step (Text [c, f]))"
      proof -
        let ?o = "vs_add off [CHR ''%''] out"
        have "vs_emit_if off lim f ?o = Inr (vs_add off (take (lim - fst ?o) [f]) ?o)"
          by (rule vs_emit_if_ok[OF vs_add_Cons(1)[OF ok room]])
        then show ?thesis
          using other room vs_emit_if_ok[OF ok, of "CHR ''%''"] vs_add_Cons(2)[OF ok room, of "CHR ''%''" "[f]"]
          by (simp add: vs_switch_def del: vs_add_fst)
      qed
      from 3(3)[OF room nn other(2) sw refl vs_add_fit(1)[OF ok] lim q(1)] q(2) room other sw
        vs_add_fit(2)[OF ok, of "Text [c, f]" qs]
      show ?thesis by (simp del: fit.simps vs_add_fst)
    qed
  qed
qed

text \<open>
  The formatter: what fits of the text, a terminator, and nothing else in the array changed.
\<close>

lemma vsnprintf_ok:
  assumes "2 \<le> sz" "off + sz \<le> length str" "sz \<le> 2 ^ 31" "vpieces (cstr format) args = Some ps"
  shows "vsnprintf str off sz format args =
    Inr (int (length (fit (sz - 1) ps)), write_at off (fit (sz - 1) ps @ [CHR 0x00]) str)"
proof -
  let ?out = "fit (sz - 1) ps"
  have l: "length ?out \<le> sz - 1" by (rule fit_length)
  have "vs_ok off (sz - 1) (0, 0, str)" "sz - 1 < 2 ^ 31" using assms by (auto simp: vs_ok_def)
  from vs_loop_ok[OF this assms(4)]
  have "vs_loop off (sz - 1) (cstr format) args (0, 0, str) = Inr (length ?out, length ?out, write_at off ?out str)"
    by (simp add: vs_add_def)
  moreover have "put (off + length ?out) (CHR 0x00) (write_at off ?out str) = Inr (write_at off (?out @ [CHR 0x00]) str)"
    using l assms(1,2) write_at_append[of off ?out str "[CHR 0x00]"] write_at_length[of off ?out str]
    by (auto simp: put_def write_at_def upd_conv_take_nth_drop)
  moreover have "sint (of_nat (length ?out) :: u32) = int (length ?out)"
    using l assms(1,3) by (simp add: signed_of_nat signed_take_bit_int_eq_self)
  ultimately show ?thesis using assms(1) by (simp add: vsnprintf_def)
qed

end
