(* ===== verification/Tty_Screen.thy ===== *)
theory Tty_Screen
  imports Tty
begin

text \<open>
  What the terminal promises: a grid of 25 rows of 80 cells, a cursor inside it and, on the serial
  line, every character written. The locale \<open>screen_memory\<close> is what the terminal asks of the memory
  under the screen; in it the code is shown to refine the operations on the grid.
\<close>

section \<open>The grid\<close>

record term_view =
  grid :: "u16 list"
  vrow :: nat
  vcol :: nat
  wire :: "u8 list"

definition view_next_row :: "term_view \<Rightarrow> term_view" where
  "view_next_row v =
     (if vrow v + 1 < 25 then v\<lparr>vrow := vrow v + 1\<rparr>
      else v\<lparr>grid := drop 80 (grid v) @ replicate 80 0, vrow := 24\<rparr>)"

definition view_advance :: "nat \<Rightarrow> term_view \<Rightarrow> term_view" where
  "view_advance k v =
     (if vcol v + k < 80 then v\<lparr>vcol := vcol v + k\<rparr> else view_next_row (v\<lparr>vcol := 0\<rparr>))"

definition view_show :: "u8 \<Rightarrow> char \<Rightarrow> term_view \<Rightarrow> term_view" where
  "view_show color c v =
     (if c = CHR 0x0A then view_next_row (v\<lparr>vcol := 0\<rparr>)
      else if c = CHR 0x0D then v\<lparr>vcol := 0\<rparr>
      else if c = CHR 0x09 then view_advance 4 v
      else view_advance 1 (v\<lparr>grid := (grid v)[vrow v * 80 + vcol v := vga_entry (of_char c) color]\<rparr>))"

definition crlf :: "char \<Rightarrow> u8 list" where
  "crlf c = (if c = CHR 0x0A then [0x0D, 0x0A] else [of_char c])"

definition view_putchar :: "bool \<Rightarrow> u8 \<Rightarrow> char \<Rightarrow> term_view \<Rightarrow> term_view" where
  "view_putchar mirror color c v =
     (let v = view_show color c v in if mirror then v\<lparr>wire := wire v @ crlf c\<rparr> else v)"

definition view_ok :: "term_view \<Rightarrow> bool" where
  "view_ok v \<longleftrightarrow> length (grid v) = 2000 \<and> vrow v < 25 \<and> vcol v < 80"

lemma view_next_row_ok: "view_ok v \<Longrightarrow> view_ok (view_next_row v)"
  by (simp add: view_ok_def view_next_row_def)

lemma view_advance_ok: "view_ok v \<Longrightarrow> view_ok (view_advance k v)"
  using view_next_row_ok[of "v\<lparr>vcol := 0\<rparr>"] by (simp add: view_ok_def view_advance_def)

lemma view_putchar_ok: "view_ok v \<Longrightarrow> view_ok (view_putchar mirror color c v)"
proof -
  assume v: "view_ok v"
  have "view_ok (view_show color c v)"
    using v view_next_row_ok[of "v\<lparr>vcol := 0\<rparr>"] view_advance_ok[of v]
      view_advance_ok[of "v\<lparr>grid := (grid v)[vrow v * 80 + vcol v := vga_entry (of_char c) color]\<rparr>"]
    by (auto simp: view_show_def view_ok_def)
  then show ?thesis by (simp add: view_putchar_def Let_def view_ok_def)
qed

lemma view_ok_wire [simp]: "view_ok (v\<lparr>wire := w\<rparr>) = view_ok v"
  by (simp add: view_ok_def)

section \<open>The screen in memory\<close>

definition cell16 :: "(nat \<Rightarrow> u8) \<Rightarrow> nat \<Rightarrow> u16" where
  "cell16 f i = ucast (f (2 * i)) OR push_bit 8 (ucast (f (2 * i + 1)))"

lemma cell16_halves: "ucast (ucast v :: u8) OR push_bit 8 (ucast (ucast (drop_bit 8 v) :: u8)) = v"
  for v :: u16
  by (rule bit_word_eqI) (auto simp: bit_or_iff bit_push_bit_iff bit_unsigned_iff bit_drop_bit_eq)

lemma offset_of_nat:
  assumes "i < 4000"
  shows "unat (of_nat i :: u32) = i" "(of_nat i :: u32) < 4000"
proof -
  show u: "unat (of_nat i :: u32) = i" using assms by (intro unat_of_nat_below[of _ 4000]) simp
  then show "(of_nat i :: u32) < 4000" using assms by (simp add: word_less_nat_alt)
qed

text \<open>The grid that 4000 bytes from \<open>buf\<close> on show, and the view of a terminal state.\<close>

definition screen_cells :: "('s \<Rightarrow> u32 \<Rightarrow> u8) \<Rightarrow> u32 \<Rightarrow> 's \<Rightarrow> u16 list" where
  "screen_cells rd buf m = map (cell16 (\<lambda>i. rd m (buf + of_nat i))) [0..<2000]"

definition term_view_of :: "('s \<Rightarrow> u32 \<Rightarrow> u8) \<Rightarrow> uart \<Rightarrow> ('s, 'a) tty_state_scheme \<Rightarrow> term_view" where
  "term_view_of rd u s = \<lparr>grid = screen_cells rd (terminal_buffer s) (vram s),
     vrow = unat (terminal_row s), vcol = unat (terminal_column s), wire = line (uart_after COM1_PORT u s)\<rparr>"

text \<open>While serial output is on, the chip accepts and transmits.\<close>

definition serial_ok :: "device \<Rightarrow> uart \<Rightarrow> ('s, 'a) tty_state_scheme \<Rightarrow> bool" where
  "serial_ok dev u s \<longleftrightarrow> (terminal_serial_output s \<longrightarrow>
     transmit_live dev COM1_PORT \<and> transmitting (uart_after COM1_PORT u s))"

text \<open>What \<^verbatim>\<open>terminal_initialize\<close> prints.\<close>

definition banner :: "u32 \<Rightarrow> string \<Rightarrow> string" where
  "banner cr0 hex = ''Terminal initialized with paging '' @
     (if vga_is_paging_enabled cr0 then ''ENABLED'' else ''DISABLED'') @
     CHR 0x0A # ''VGA buffer address: '' @ hex @ [CHR 0x0A]"

locale screen_memory = byte_memory ld st rd wr ok
  for ld :: "u32 \<Rightarrow> 's \<Rightarrow> u8 res" and st :: "u32 \<Rightarrow> u8 \<Rightarrow> 's \<Rightarrow> 's res" and rd wr ok +
  fixes buf :: u32 and Q :: "'s \<Rightarrow> bool"
  assumes nowrap: "unat buf + 4000 \<le> 2 ^ 32"
    and Q_ok: "Q m \<Longrightarrow> k < 4000 \<Longrightarrow> ok m (buf + k)"
    and Q_wr: "Q m \<Longrightarrow> k < 4000 \<Longrightarrow> Q (wr (buf + k) b m)"
begin

definition scr :: "'s \<Rightarrow> nat \<Rightarrow> u8" where
  "scr m i = rd m (buf + of_nat i)"

abbreviation screen :: "'s \<Rightarrow> u16 list" where
  "screen \<equiv> screen_cells rd buf"

lemma screen_def: "screen m = map (cell16 (scr m)) [0..<2000]"
  by (simp add: screen_cells_def scr_def[abs_def])

lemma screen_st16:
  assumes "Q m" "i < 2000"
  shows "\<exists>m'. st16 st (buf + of_nat (2 * i)) v m = Inr m' \<and> Q m' \<and> screen m' = (screen m)[i := v]"
proof -
  let ?a = "of_nat (2 * i) :: u32" and ?b = "of_nat (2 * i + 1) :: u32"
  let ?m1 = "wr (buf + ?a) (ucast v) m"
  let ?m2 = "wr (buf + ?b) (ucast (drop_bit 8 v)) ?m1"
  have ab: "?a < 4000" "?b < 4000" "buf + ?a + 1 = buf + ?b"
    using offset_of_nat[of "2 * i"] offset_of_nat[of "2 * i + 1"] assms(2) by simp_all
  have Q: "Q ?m1" "Q ?m2" using Q_wr assms(1) ab by simp_all
  have "scr ?m2 j = (if j = 2 * i then ucast v else if j = 2 * i + 1 then ucast (drop_bit 8 v) else scr m j)"
    if "j < 4000" for j
  proof -
    have "(of_nat j :: u32) = of_nat k \<longleftrightarrow> j = k" if "k < 4000" for k
      using offset_of_nat(1)[OF \<open>j < 4000\<close>] offset_of_nat(1)[OF that] by metis
    then show ?thesis
      using offset_of_nat(2)[OF that] Q_ok assms ab Q(1) unfolding scr_def
      by (simp add: rd_wr del: of_nat_add of_nat_mult of_nat_Suc)
  qed
  then have "screen ?m2 = (screen m)[i := v]"
    using assms(2)
    by (intro nth_equalityI) (auto simp: screen_def nth_list_update cell16_def cell16_halves)
  moreover have "st16 st (buf + ?a) v m = Inr ?m2"
    using Q_ok[OF assms(1) ab(1)] Q_ok[OF Q(1) ab(2)] by (simp only: st16_def st_ok bindE_simps ab(3))
  ultimately show ?thesis using Q(2) by blast
qed

lemma screen_scroll:
  assumes "Q m"
  shows "\<exists>m1 m2. memmove ld st buf (buf + 160) 3840 m = Inr (buf, m1) \<and>
    memset st (buf + 3840) 0 160 m1 = Inr (buf + 3840, m2) \<and> Q m2 \<and>
    screen m2 = drop 80 (screen m) @ replicate 80 0"
proof -
  have ub: "unat (buf + 160) + 3840 \<le> 2 ^ 32" using nowrap by (simp add: unat_plus_if')
  have lt: "k < 3840 \<Longrightarrow> k < 4000" "k < 3840 \<Longrightarrow> 160 + k < 4000" for k :: u32
    by (simp_all add: word_less_nat_alt unat_plus_if')
  have "\<exists>m1. memmove ld st buf (buf + 160) 3840 m = Inr (buf, m1) \<and>
      stored m (in_region buf 3840) (\<lambda>c. rd m (buf + 160 + (c - buf))) Q m1"
    by (rule memmove_stored) (use assms Q_ok[OF assms lt(1)] Q_ok[OF assms lt(2)] Q_wr lt ub nowrap in
        \<open>simp_all add: add.assoc\<close>)
  then obtain m1 where m1: "memmove ld st buf (buf + 160) 3840 m = Inr (buf, m1)"
    "stored m (in_region buf 3840) (\<lambda>c. rd m (buf + 160 + (c - buf))) Q m1" by blast
  have Q1: "Q m1" using m1(2) by (simp add: stored_def)
  have lt2: "k < 160 \<Longrightarrow> 3840 + k < 4000" for k :: u32
    by (simp add: word_less_nat_alt unat_plus_if')
  have "\<exists>m2. memset st (buf + 3840) 0 160 m1 = Inr (buf + 3840, m2) \<and>
      stored m1 (in_region (buf + 3840) 160) (\<lambda>_. ucast (0 :: u32)) Q m2"
    by (rule memset_stored) (use Q1 Q_ok[OF Q1 lt2] Q_wr[OF _ lt2] in \<open>simp_all add: add.assoc\<close>)
  then obtain m2 where m2: "memset st (buf + 3840) 0 160 m1 = Inr (buf + 3840, m2)"
    "stored m1 (in_region (buf + 3840) 160) (\<lambda>_. ucast (0 :: u32)) Q m2" by blast
  have "scr m2 i = (if i < 3840 then scr m (160 + i) else 0)" if i: "i < 4000" for i
  proof -
    have u: "unat (of_nat i :: u32) = i" "(of_nat i :: u32) < 4000" using offset_of_nat[OF i] .
    have r: "in_region buf 3840 (buf + of_nat i) \<longleftrightarrow> i < 3840"
      "in_region (buf + 3840) 160 (buf + of_nat i) \<longleftrightarrow> \<not> i < 3840"
      using u i by (auto simp: in_region_def word_less_nat_alt unat_sub_if')
    have "ok m1 (buf + of_nat i)" "ok m (buf + of_nat i)" using Q_ok u Q1 assms by simp_all
    then show ?thesis using m1(2) m2(2) r unfolding stored_def scr_def by (simp add: ac_simps)
  qed
  then have "screen m2 = drop 80 (screen m) @ replicate 80 0"
    by (intro nth_equalityI) (auto simp: screen_def nth_append cell16_def)
  moreover have "Q m2" using m2(2) by (simp add: stored_def)
  ultimately show ?thesis using m1(1) m2(1) by blast
qed

subsection \<open>The code refines the grid\<close>

abbreviation view :: "uart \<Rightarrow> ('s, 'a) tty_state_scheme \<Rightarrow> term_view" where
  "view \<equiv> term_view_of rd"

lemmas view_def = term_view_of_def

definition term_ok :: "('s, 'a) tty_state_scheme \<Rightarrow> bool" where
  "term_ok s \<longleftrightarrow> Q (vram s) \<and> terminal_buffer s = buf \<and> terminal_row s < 25 \<and> terminal_column s < 80"

lemma view_ok_view: "term_ok s \<Longrightarrow> view_ok (view u s)"
  by (simp add: view_ok_def view_def term_ok_def screen_def word_less_nat_alt)

lemma next_row_refines:
  assumes "term_ok s"
  shows "\<exists>r m. next_row ld st s = Inr (s\<lparr>terminal_row := r, vram := m\<rparr>) \<and>
    term_ok (s\<lparr>terminal_row := r, vram := m\<rparr>) \<and>
    view u (s\<lparr>terminal_row := r, vram := m\<rparr>) = view_next_row (view u s)"
proof -
  have o: "Q (vram s)" "terminal_buffer s = buf" "unat (terminal_row s) < 25"
    using assms by (simp_all add: term_ok_def word_less_nat_alt)
  have inc: "unat (terminal_row s + 1) = unat (terminal_row s) + 1"
    using unat_Suc_less[of "terminal_row s" 25] o(3) by (simp add: word_less_nat_alt)
  show ?thesis
  proof (cases "unat (terminal_row s) + 1 < 25")
    case True
    then have "terminal_row s + 1 < 25" "\<not> 25 \<le> terminal_row s + 1"
      by (simp_all add: word_less_nat_alt word_le_nat_alt inc)
    with True inc assms show ?thesis
      by (intro exI[of _ "terminal_row s + 1"] exI[of _ "vram s"])
        (simp add: next_row_def Let_def view_next_row_def view_def term_ok_def uart_after_def)
  next
    case False
    then have r: "terminal_row s = 24" using o(3) by (simp add: word_unat_eq_iff)
    obtain m1 m2 where m: "memmove ld st buf (buf + 160) 3840 (vram s) = Inr (buf, m1)"
      "memset st (buf + 3840) 0 160 m1 = Inr (buf + 3840, m2)" "Q m2"
      "screen m2 = drop 80 (screen (vram s)) @ replicate 80 0"
      using screen_scroll[OF o(1)] by blast
    then show ?thesis
      using r o(2) assms
      by (intro exI[of _ 24] exI[of _ m2])
        (simp add: next_row_def scroll_def view_next_row_def view_def term_ok_def uart_after_def)
  qed
qed

lemma advance_refines:
  assumes "term_ok s" "k < 80"
  defines "s1 \<equiv> s\<lparr>terminal_column := terminal_column s + k\<rparr>"
  shows "\<exists>t. (if terminal_column s1 \<ge> VGA_WIDTH then next_row ld st (s1\<lparr>terminal_column := 0\<rparr>) else Inr s1) =
      Inr t \<and> term_ok t \<and> view u t = view_advance (unat k) (view u s) \<and>
      io t = io s \<and> terminal_serial_output t = terminal_serial_output s \<and>
      terminal_color t = terminal_color s \<and> tty_state.more t = tty_state.more s"
proof -
  have c: "unat (terminal_column s + k) = unat (terminal_column s) + unat k"
    using assms(1,2) by (simp add: term_ok_def word_less_nat_alt unat_plus_if')
  show ?thesis
  proof (cases "unat (terminal_column s) + unat k < 80")
    case True
    with c assms(1) show ?thesis
      by (intro exI[of _ s1])
        (simp add: s1_def view_advance_def view_def term_ok_def word_less_nat_alt word_le_nat_alt uart_after_def)
  next
    case False
    then have ge: "80 \<le> terminal_column s + k" using c by (simp add: word_le_nat_alt)
    have t: "term_ok (s\<lparr>terminal_column := 0\<rparr>)" using assms(1) by (simp add: term_ok_def)
    have v: "view u (s\<lparr>terminal_column := 0\<rparr>) = (view u s)\<lparr>vcol := 0\<rparr>"
      by (simp add: view_def uart_after_def)
    show ?thesis
      using next_row_refines[OF t, of u] False ge unfolding v
      by (auto simp: s1_def view_advance_def view_def)
  qed
qed

text \<open>Bytes sent to COM1 appear on the wire of the view and touch nothing else.\<close>

lemma more_fields:
  assumes "serial_state.more t = serial_state.more s"
  shows "terminal_row t = terminal_row s" "terminal_column t = terminal_column s"
    "terminal_color t = terminal_color s" "terminal_buffer t = terminal_buffer s"
    "terminal_serial_output t = terminal_serial_output s" "vram t = vram s"
    "tty_state.more t = tty_state.more s"
  using assms by (cases s; cases t; simp)+

lemma byte_sent:
  assumes "term_ok s" and tr: "transmit_live dev COM1_PORT" "transmitting (uart_after COM1_PORT u s)"
  shows "\<exists>t. serial_com1_write_byte dev b s = Inr t \<and> term_ok t \<and> transmitting (uart_after COM1_PORT u t) \<and>
    serial_state.more t = serial_state.more s \<and> view u t = (view u s)\<lparr>wire := wire (view u s) @ [b]\<rparr>"
proof -
  obtain t where t: "serial_com1_write_byte dev b s = Inr t" "serial_state.more t = serial_state.more s"
    "uart_after COM1_PORT u t = uart_write REG_DATA b (uart_after COM1_PORT u s)"
    by (rule com1_write_ok[OF tr(1)])
  then have w: "uart_after COM1_PORT u t =
      (uart_after COM1_PORT u s)\<lparr>line := line (uart_after COM1_PORT u s) @ [b]\<rparr>"
    using transmit_byte[OF tr(2)] by simp
  note f = more_fields[OF t(2)]
  have "term_ok t" using assms(1) f by (simp add: term_ok_def)
  moreover have "transmitting (uart_after COM1_PORT u t)" using tr w by (simp add: transmitting_def)
  moreover have "view u t = (view u s)\<lparr>wire := wire (view u s) @ [b]\<rparr>" using f w by (simp add: view_def)
  ultimately show ?thesis using t by blast
qed

lemma mirror_refines:
  assumes "term_ok s" "serial_ok dev u s" "terminal_serial_output s"
  shows "\<exists>t. serial_com1_write_byte dev b s = Inr t \<and> term_ok t \<and> serial_ok dev u t \<and>
    serial_state.more t = serial_state.more s \<and> view u t = (view u s)\<lparr>wire := wire (view u s) @ [b]\<rparr>"
  using byte_sent[OF assms(1), of dev u b] assms(2,3) by (auto simp: serial_ok_def)

text \<open>The tail of \<^verbatim>\<open>terminal_putchar\<close>: what is shown, then what is sent.\<close>

lemma shown_then_sent:
  assumes "term_ok s" "serial_ok dev u s"
  shows "\<exists>t. (if terminal_serial_output s then serial_com1_write_byte dev b s else Inr s) = Inr t \<and>
    term_ok t \<and> serial_ok dev u t \<and> serial_state.more t = serial_state.more s \<and>
    view u t = (if terminal_serial_output s then (view u s)\<lparr>wire := wire (view u s) @ [b]\<rparr> else view u s)"
  using assms mirror_refines[OF assms, of b] by (cases "terminal_serial_output s") auto

lemma putentry_refines:
  assumes "term_ok s"
  shows "\<exists>m. terminal_putentryat st c color (terminal_column s) (terminal_row s) s = Inr (s\<lparr>vram := m\<rparr>) \<and>
    term_ok (s\<lparr>vram := m\<rparr>) \<and> view u (s\<lparr>vram := m\<rparr>) =
      (view u s)\<lparr>grid := (grid (view u s))[vrow (view u s) * 80 + vcol (view u s) := vga_entry c color]\<rparr>"
proof -
  let ?i = "unat (terminal_row s) * 80 + unat (terminal_column s)"
  have o: "Q (vram s)" "terminal_buffer s = buf" "?i < 2000"
    using assms by (simp_all add: term_ok_def word_less_nat_alt)
  have "2 * (terminal_row s * 80 + terminal_column s) = of_nat (2 * ?i)" by simp
  moreover obtain m where "st16 st (buf + of_nat (2 * ?i)) (vga_entry c color) (vram s) = Inr m" "Q m"
    "screen m = (screen (vram s))[?i := vga_entry c color]"
    using screen_st16[OF o(1,3)] by blast
  ultimately show ?thesis
    using o(2) assms by (intro exI[of _ m])
      (simp add: terminal_putentryat_def Let_def term_ok_def view_def uart_after_def del: of_nat_mult of_nat_add)
qed

text \<open>What one character does, apart from the registers it may not touch.\<close>

definition put_ok :: "device \<Rightarrow> uart \<Rightarrow> char \<Rightarrow> ('s, 'a) tty_state_scheme \<Rightarrow> ('s, 'a) tty_state_scheme \<Rightarrow> bool" where
  "put_ok dev u c s t \<longleftrightarrow> term_ok t \<and> serial_ok dev u t \<and>
     view u t = view_putchar (terminal_serial_output s) (terminal_color s) c (view u s) \<and>
     terminal_serial_output t = terminal_serial_output s \<and> terminal_color t = terminal_color s \<and>
     tty_state.more t = tty_state.more s"

lemma serial_ok_io:
  "serial_ok dev u s \<Longrightarrow> io t = io s \<Longrightarrow> terminal_serial_output t = terminal_serial_output s \<Longrightarrow> serial_ok dev u t"
  for t s :: "('s, 'a) tty_state_scheme"
  by (simp add: serial_ok_def uart_after_def)

lemma sent_put_ok:
  assumes t: "term_ok t" "serial_ok dev u t" "view u t = view_show (terminal_color s) c (view u s)"
    "terminal_serial_output t = terminal_serial_output s" "terminal_color t = terminal_color s"
    "tty_state.more t = tty_state.more s"
    and c: "crlf c = [b]"
  shows "\<exists>t'. (if terminal_serial_output t then serial_com1_write_byte dev b t else Inr t) = Inr t' \<and>
    put_ok dev u c s t'"
proof -
  obtain t' where t': "(if terminal_serial_output t then serial_com1_write_byte dev b t else Inr t) = Inr t'"
    "term_ok t'" "serial_ok dev u t'" "serial_state.more t' = serial_state.more t"
    "view u t' = (if terminal_serial_output t then (view u t)\<lparr>wire := wire (view u t) @ [b]\<rparr> else view u t)"
    using shown_then_sent[OF t(1,2), of b] by blast
  then have "put_ok dev u c s t'"
    using t more_fields[OF t'(4)] c by (simp add: put_ok_def view_putchar_def Let_def)
  with t'(1) show ?thesis by blast
qed

lemma newline_refines:
  assumes ok: "term_ok s" and ser: "serial_ok dev u s"
  shows "\<exists>t. terminal_putchar ld st dev (CHR 0x0A) s = Inr t \<and> put_ok dev u (CHR 0x0A) s t"
proof -
  let ?z = "s\<lparr>terminal_column := 0\<rparr>"
  have z: "term_ok ?z" "view u ?z = (view u s)\<lparr>vcol := 0\<rparr>"
    using ok by (simp_all add: term_ok_def view_def uart_after_def)
  obtain r m where n: "next_row ld st ?z = Inr (?z\<lparr>terminal_row := r, vram := m\<rparr>)"
    "term_ok (?z\<lparr>terminal_row := r, vram := m\<rparr>)"
    "view u (?z\<lparr>terminal_row := r, vram := m\<rparr>) = view_next_row (view u ?z)"
    using next_row_refines[OF z(1)] by blast
  let ?t = "?z\<lparr>terminal_row := r, vram := m\<rparr>"
  have t: "serial_ok dev u ?t" by (rule serial_ok_io[OF ser]) simp_all
  have v: "view u ?t = view_show (terminal_color s) (CHR 0x0A) (view u s)"
    unfolding n(3) z(2) by (simp add: view_show_def)
  have p: "terminal_putchar ld st dev (CHR 0x0A) s =
      (if terminal_serial_output ?t
       then bindE (serial_com1_write_byte dev 0x0D ?t) (serial_com1_write_byte dev 0x0A) else Inr ?t)"
    using n(1) by (simp add: terminal_putchar_def)
  show ?thesis
  proof (cases "terminal_serial_output s")
    case False
    then show ?thesis
      unfolding p using n(2) t v by (simp add: put_ok_def view_putchar_def Let_def)
  next
    case True
    then have on: "terminal_serial_output ?t" by simp
    obtain t1 where t1: "serial_com1_write_byte dev 0x0D ?t = Inr t1" "term_ok t1" "serial_ok dev u t1"
      "serial_state.more t1 = serial_state.more ?t"
      "view u t1 = (view u ?t)\<lparr>wire := wire (view u ?t) @ [0x0D]\<rparr>"
      using mirror_refines[OF n(2) t on] by blast
    have f1: "terminal_serial_output t1" "terminal_color t1 = terminal_color s"
      "tty_state.more t1 = tty_state.more s"
      using more_fields[OF t1(4)] True by simp_all
    obtain t2 where t2: "serial_com1_write_byte dev 0x0A t1 = Inr t2" "term_ok t2" "serial_ok dev u t2"
      "serial_state.more t2 = serial_state.more t1"
      "view u t2 = (view u t1)\<lparr>wire := wire (view u t1) @ [0x0A]\<rparr>"
      using mirror_refines[OF t1(2,3) f1(1)] by blast
    have "view u t2 = view_putchar True (terminal_color s) (CHR 0x0A) (view u s)"
      unfolding t2(5) t1(5) v by (simp add: view_putchar_def Let_def crlf_def)
    then have "put_ok dev u (CHR 0x0A) s t2"
      using t2(2,3) more_fields[OF t2(4)] f1 True by (simp add: put_ok_def)
    then show ?thesis unfolding p using on t1(1) t2(1) by simp
  qed
qed

lemma tab_refines:
  assumes ok: "term_ok s" and ser: "serial_ok dev u s"
  shows "\<exists>t. terminal_putchar ld st dev (CHR 0x09) s = Inr t \<and> put_ok dev u (CHR 0x09) s t"
proof -
  let ?s = "s\<lparr>terminal_column := terminal_column s + 4\<rparr>"
  obtain t where t: "(if terminal_column ?s \<ge> VGA_WIDTH
      then next_row ld st (?s\<lparr>terminal_column := 0\<rparr>) else Inr ?s) = Inr t"
    "term_ok t" "view u t = view_advance 4 (view u s)" "io t = io s"
    "terminal_serial_output t = terminal_serial_output s" "terminal_color t = terminal_color s"
    "tty_state.more t = tty_state.more s"
    using advance_refines[OF ok, of 4 u] by auto
  have v: "view u t = view_show (terminal_color s) (CHR 0x09) (view u s)"
    using t(3) by (simp add: view_show_def)
  have "terminal_putchar ld st dev (CHR 0x09) s =
      (if terminal_serial_output t then serial_com1_write_byte dev 0x09 t else Inr t)"
    unfolding terminal_putchar_def Let_def t(1) by simp
  then show ?thesis
    using sent_put_ok[OF t(2) serial_ok_io[OF ser t(4,5)] v t(5-7), of "0x09"] by (simp add: crlf_def)
qed

lemma char_refines:
  assumes ok: "term_ok s" and ser: "serial_ok dev u s"
    and c: "c \<noteq> CHR 0x0A" "c \<noteq> CHR 0x0D" "c \<noteq> CHR 0x09"
  shows "\<exists>t. terminal_putchar ld st dev c s = Inr t \<and> put_ok dev u c s t"
proof -
  obtain m where m: "terminal_putentryat st (of_char c) (terminal_color s) (terminal_column s) (terminal_row s) s =
      Inr (s\<lparr>vram := m\<rparr>)" "term_ok (s\<lparr>vram := m\<rparr>)"
    "view u (s\<lparr>vram := m\<rparr>) = (view u s)\<lparr>grid := (grid (view u s))
       [vrow (view u s) * 80 + vcol (view u s) := vga_entry (of_char c) (terminal_color s)]\<rparr>"
    using putentry_refines[OF ok] by blast
  let ?m = "s\<lparr>vram := m\<rparr>"
  let ?s = "?m\<lparr>terminal_column := terminal_column ?m + 1\<rparr>"
  obtain t where t: "(if terminal_column ?s \<ge> VGA_WIDTH
      then next_row ld st (?s\<lparr>terminal_column := 0\<rparr>) else Inr ?s) = Inr t"
    "term_ok t" "view u t = view_advance 1 (view u ?m)" "io t = io ?m"
    "terminal_serial_output t = terminal_serial_output ?m" "terminal_color t = terminal_color ?m"
    "tty_state.more t = tty_state.more ?m"
    using advance_refines[OF m(2), of 1 u] by auto
  have f: "io t = io s" "terminal_serial_output t = terminal_serial_output s"
    "terminal_color t = terminal_color s" "tty_state.more t = tty_state.more s" using t(4-7) by simp_all
  have v: "view u t = view_show (terminal_color s) c (view u s)"
    using t(3) m(3) c by (simp add: view_show_def)
  have "terminal_putchar ld st dev c s =
      (if terminal_serial_output t then serial_com1_write_byte dev (of_char c) t else Inr t)"
    using c unfolding terminal_putchar_def m(1) bindE_simps Let_def t(1) by simp
  then show ?thesis
    using sent_put_ok[OF t(2) serial_ok_io[OF ser f(1,2)] v f(2-4), of "of_char c"] c
    by (simp add: crlf_def)
qed

lemma putchar_refines:
  assumes ok: "term_ok s" and ser: "serial_ok dev u s"
  shows "\<exists>t. terminal_putchar ld st dev c s = Inr t \<and> put_ok dev u c s t"
proof (cases "c = CHR 0x0D")
  case True
  let ?z = "s\<lparr>terminal_column := 0\<rparr>"
  have z: "term_ok ?z" "view u ?z = view_show (terminal_color s) c (view u s)" "serial_ok dev u ?z"
    using ok ser True by (simp_all add: term_ok_def view_def view_show_def serial_ok_def uart_after_def)
  then show ?thesis
    using sent_put_ok[OF z(1,3,2), of "0x0D"] True by (simp add: terminal_putchar_def crlf_def Let_def)
next
  case False
  then show ?thesis
    using newline_refines[OF ok ser] tab_refines[OF ok ser] char_refines[OF ok ser, of c] by blast
qed

lemma write_refines:
  fixes s :: "('s, 'a) tty_state_scheme"
  assumes ok: "term_ok s" and ser: "serial_ok dev u s" and n: "unat sz \<le> length data"
  shows "\<exists>t. terminal_write ld st dev data sz s = Inr t \<and> term_ok t \<and> serial_ok dev u t \<and>
    view u t = fold (view_putchar (terminal_serial_output s) (terminal_color s)) (take (unat sz) data) (view u s) \<and>
    terminal_serial_output t = terminal_serial_output s \<and> terminal_color t = terminal_color s \<and>
    tty_state.more t = tty_state.more s"
proof -
  let ?P = "\<lambda>i t. term_ok t \<and> serial_ok dev u t \<and>
    view u t = fold (view_putchar (terminal_serial_output s) (terminal_color s)) (take (unat i) data) (view u s) \<and>
    terminal_serial_output t = terminal_serial_output s \<and> terminal_color t = terminal_color s \<and>
    tty_state.more t = tty_state.more s"
  have "\<exists>t. for_rangeE 0 sz (\<lambda>i s. if unat i < length data then terminal_putchar ld st dev (data ! unat i) s
      else Inl Out_of_bounds) s = Inr t \<and> ?P sz t"
  proof (rule for_rangeE_invariant)
    fix i and t :: "('s, 'a) tty_state_scheme" assume i: "i < sz" and P: "?P i t"
    have l: "unat i < length data" using i n by (simp add: word_less_nat_alt)
    obtain t' where "terminal_putchar ld st dev (data ! unat i) t = Inr t'" "put_ok dev u (data ! unat i) t t'"
      using putchar_refines[of t dev u] P by blast
    with P l show "\<exists>t'. (if unat i < length data then terminal_putchar ld st dev (data ! unat i) t
        else Inl Out_of_bounds) = Inr t' \<and> ?P (i + 1) t'"
      by (simp add: put_ok_def unat_Suc_less[OF i] take_Suc_conv_app_nth)
  qed (use ok ser in simp_all)
  then show ?thesis by (simp add: terminal_write_def)
qed

lemma writestring_refines:
  assumes "term_ok s" and "serial_ok dev u s" and "length data < 2 ^ 32"
  shows "\<exists>t. terminal_writestring ld st dev data s = Inr t \<and> term_ok t \<and> serial_ok dev u t \<and>
    view u t = fold (view_putchar (terminal_serial_output s) (terminal_color s)) (cstr data) (view u s) \<and>
    terminal_serial_output t = terminal_serial_output s \<and> terminal_color t = terminal_color s \<and>
    tty_state.more t = tty_state.more s"
proof -
  have l: "length (cstr data) \<le> length data" by (simp add: cstr_def length_takeWhile_le)
  then have u: "unat (of_nat (length (cstr data)) :: u32) = length (cstr data)"
    by (intro unat_of_nat_u32 order.strict_trans1[OF l assms(3)])
  have "take (length (cstr data)) data = cstr data"
    unfolding cstr_def by (rule takeWhile_eq_take[symmetric])
  then show ?thesis
    using write_refines[OF assms(1,2), of "of_nat (length (cstr data))" data] l u
    by (simp add: terminal_writestring_def)
qed

subsection \<open>Clearing the screen\<close>

definition blank_below :: "u16 \<Rightarrow> nat \<Rightarrow> 's \<Rightarrow> bool" where
  "blank_below e n m \<longleftrightarrow> Q m \<and> (\<forall>i<n. screen m ! i = e)"

lemma clear_cell:
  assumes "blank_below e n m" "n < 2000"
  shows "\<exists>m'. st16 st (buf + of_nat (2 * n)) e m = Inr m' \<and> blank_below e (Suc n) m'"
proof -
  obtain m' where m': "st16 st (buf + of_nat (2 * n)) e m = Inr m'" "Q m'" "screen m' = (screen m)[n := e]"
    using screen_st16[of m n e] assms by (auto simp: blank_below_def)
  moreover have "length (screen m) = 2000" by (simp add: screen_def)
  ultimately show ?thesis
    using assms by (intro exI[of _ m']) (auto simp: blank_below_def less_Suc_eq)
qed

lemma clear_screen:
  assumes "Q (vram s)" "terminal_buffer s = buf"
  shows "\<exists>m. for_rangeE 0 VGA_HEIGHT (\<lambda>y s. for_rangeE 0 VGA_WIDTH (\<lambda>x s.
      bindE (st16 st (terminal_buffer s + 2 * (y * VGA_WIDTH + x)) (vga_entry 0x20 (terminal_color s)) (vram s))
        (\<lambda>m. Inr (s\<lparr>vram := m\<rparr>))) s) s = Inr (s\<lparr>vram := m\<rparr>) \<and> Q m \<and>
    screen m = replicate 2000 (vga_entry 0x20 (terminal_color s))"
proof -
  let ?e = "vga_entry 0x20 (terminal_color s)"
  let ?P = "\<lambda>n t. \<exists>m. t = s\<lparr>vram := m\<rparr> \<and> blank_below ?e n m"
  let ?c = "\<lambda>y x s. bindE (st16 st (terminal_buffer s + 2 * (y * VGA_WIDTH + x))
      (vga_entry 0x20 (terminal_color s)) (vram s)) (\<lambda>m. Inr (s\<lparr>vram := m\<rparr>))"
  have cell: "\<exists>t'. ?c y x t = Inr t' \<and> ?P (unat y * 80 + unat (x + 1)) t'"
    if y: "y < 25" and x: "x < 80" and t: "?P (unat y * 80 + unat x) t" for y x t
  proof -
    let ?n = "unat y * 80 + unat x"
    obtain m where m: "t = s\<lparr>vram := m\<rparr>" "blank_below ?e ?n m" using t by blast
    have n: "?n < 2000" using x y by (simp add: word_less_nat_alt)
    have "2 * (y * 80 + x) = of_nat (2 * ?n)" by simp
    moreover obtain m' where "st16 st (buf + of_nat (2 * ?n)) ?e m = Inr m'" "blank_below ?e (Suc ?n) m'"
      using clear_cell[OF m(2) n] by blast
    ultimately have "?c y x t = Inr (s\<lparr>vram := m'\<rparr>)" "blank_below ?e (unat y * 80 + unat (x + 1)) m'"
      using m(1) assms(2) unat_Suc_less[OF x] by (simp_all del: of_nat_mult of_nat_add)
    then show ?thesis by blast
  qed
  have row: "\<exists>t'. for_rangeE 0 80 (?c y) t = Inr t' \<and> ?P (unat (y + 1) * 80) t'"
    if y: "y < 25" and t: "?P (unat y * 80) t" for y t
  proof -
    have "\<exists>t'. for_rangeE 0 80 (?c y) t = Inr t' \<and> ?P (unat y * 80 + unat (80 :: u32)) t'"
      by (rule for_rangeE_invariant[where P = "\<lambda>x. ?P (unat y * 80 + unat x)"])
        (use cell[OF y] t in auto)
    moreover have "unat y * 80 + unat (80 :: u32) = unat (y + 1) * 80"
      using unat_Suc_less[OF y] by simp
    ultimately show ?thesis by metis
  qed
  have "\<exists>t. for_rangeE 0 25 (\<lambda>y. for_rangeE 0 80 (?c y)) s = Inr t \<and> ?P (unat (25 :: u32) * 80) t"
    by (rule for_rangeE_invariant[where P = "\<lambda>y. ?P (unat y * 80)"])
      (use row assms(1) in \<open>auto simp: blank_below_def intro: exI[of _ "vram s"]\<close>)
  then obtain m where m: "for_rangeE 0 25 (\<lambda>y. for_rangeE 0 80 (?c y)) s = Inr (s\<lparr>vram := m\<rparr>)"
    "blank_below ?e 2000 m" by auto
  have "screen m = replicate 2000 ?e"
    using m(2) by (intro nth_equalityI) (auto simp: blank_below_def screen_def)
  with m show ?thesis by (auto simp: blank_below_def)
qed

subsection \<open>Initialisation\<close>

text \<open>From \<open>s\<close>, the string has been written and nothing else has happened.\<close>

definition wrote :: "device \<Rightarrow> uart \<Rightarrow> ('s, 'a) tty_state_scheme \<Rightarrow> string \<Rightarrow> ('s, 'a) tty_state_scheme \<Rightarrow> bool" where
  "wrote dev u s str t \<longleftrightarrow> term_ok t \<and> serial_ok dev u t \<and>
     view u t = fold (view_putchar (terminal_serial_output s) (terminal_color s)) str (view u s) \<and>
     terminal_serial_output t = terminal_serial_output s \<and> terminal_color t = terminal_color s \<and>
     tty_state.more t = tty_state.more s"

lemma wrote_start: "term_ok s \<Longrightarrow> serial_ok dev u s \<Longrightarrow> wrote dev u s [] s"
  by (simp add: wrote_def)

lemma wrote_string:
  assumes "wrote dev u s a t" "length d < 2 ^ 32"
  obtains t' where "terminal_writestring ld st dev d t = Inr t'" "wrote dev u s (a @ cstr d) t'"
proof -
  have t: "term_ok t" "serial_ok dev u t" using assms(1) by (simp_all add: wrote_def)
  show ?thesis
    using that writestring_refines[OF t assms(2)] assms(1) by (auto simp: wrote_def)
qed

lemma initialize_refines:
  assumes "Q (vram s)" and "get_vga_buffer cr0 = buf" and "serial_ok dev u s"
    and hex: "hex_address buf = Inr h" "length h = 20" "\<And>i. i < 10 \<Longrightarrow> h ! i \<noteq> CHR 0x00"
  shows "\<exists>t s0. terminal_initialize ld st dev cr0 s = Inr t \<and> wrote dev u s0 (banner cr0 (take 10 h)) t \<and>
    view u s0 = \<lparr>grid = replicate 2000 (vga_entry 0x20 7), vrow = 0, vcol = 0, wire = wire (view u s)\<rparr> \<and>
    terminal_color s0 = 7 \<and> terminal_serial_output s0 = terminal_serial_output s \<and>
    tty_state.more s0 = tty_state.more s \<and> io s0 = io s"
proof -
  let ?s = "s\<lparr>terminal_row := 0, terminal_column := 0,
      terminal_color := vga_entry_color VGA_COLOR_LIGHT_GREY VGA_COLOR_BLACK, terminal_buffer := buf\<rparr>"
  let ?st = "if vga_is_paging_enabled cr0 then ''ENABLED'' else ''DISABLED''"
  have col: "vga_entry_color VGA_COLOR_LIGHT_GREY VGA_COLOR_BLACK = 7" by (simp add: vga_entry_color_def)
  obtain m where m: "for_rangeE 0 VGA_HEIGHT (\<lambda>y s. for_rangeE 0 VGA_WIDTH (\<lambda>x s.
      bindE (st16 st (terminal_buffer s + 2 * (y * VGA_WIDTH + x)) (vga_entry 0x20 (terminal_color s)) (vram s))
        (\<lambda>m. Inr (s\<lparr>vram := m\<rparr>))) s) ?s = Inr (?s\<lparr>vram := m\<rparr>)" "Q m"
    "screen m = replicate 2000 (vga_entry 0x20 7)"
    using clear_screen[of ?s] assms(1) by (auto simp: col)
  let ?t0 = "?s\<lparr>vram := m\<rparr>"
  have t0: "view u ?t0 = \<lparr>grid = replicate 2000 (vga_entry 0x20 7), vrow = 0, vcol = 0, wire = wire (view u s)\<rparr>"
    "terminal_color ?t0 = 7"
    using m(3) by (simp_all add: view_def uart_after_def col)
  have len: "length ''Terminal initialized with paging '' < (2 :: nat) ^ 32" "length ?st < (2 :: nat) ^ 32"
    "length (CHR 0x0A # ''VGA buffer address: '') < (2 :: nat) ^ 32" "length (h[10 := CHR 0x00]) < (2 :: nat) ^ 32"
    "length [CHR 0x0A] < (2 :: nat) ^ 32" using hex(2) by simp_all
  have "wrote dev u ?t0 [] ?t0"
    using m(2) assms(3) by (intro wrote_start) (simp_all add: term_ok_def serial_ok_def uart_after_def)
  then obtain t1 where t1: "terminal_writestring ld st dev ''Terminal initialized with paging '' ?t0 = Inr t1"
    "wrote dev u ?t0 ([] @ cstr ''Terminal initialized with paging '') t1"
    using len(1) by (rule wrote_string)
  obtain t2 where t2: "terminal_writestring ld st dev ?st t1 = Inr t2"
    "wrote dev u ?t0 (([] @ cstr ''Terminal initialized with paging '') @ cstr ?st) t2"
    using t1(2) len(2) by (rule wrote_string)
  obtain t3 where t3: "terminal_writestring ld st dev (CHR 0x0A # ''VGA buffer address: '') t2 = Inr t3"
    "wrote dev u ?t0 ((([] @ cstr ''Terminal initialized with paging '') @ cstr ?st) @
       cstr (CHR 0x0A # ''VGA buffer address: '')) t3"
    using t2(2) len(3) by (rule wrote_string)
  have b: "terminal_buffer t3 = buf" using t3(2) by (simp add: wrote_def term_ok_def)
  obtain t4 where t4: "terminal_writestring ld st dev (h[10 := CHR 0x00]) t3 = Inr t4"
    "wrote dev u ?t0 (((([] @ cstr ''Terminal initialized with paging '') @ cstr ?st) @
       cstr (CHR 0x0A # ''VGA buffer address: '')) @ cstr (h[10 := CHR 0x00])) t4"
    using t3(2) len(4) by (rule wrote_string)
  obtain t5 where t5: "terminal_writestring ld st dev [CHR 0x0A] t4 = Inr t5"
    "wrote dev u ?t0 ((((([] @ cstr ''Terminal initialized with paging '') @ cstr ?st) @
       cstr (CHR 0x0A # ''VGA buffer address: '')) @ cstr (h[10 := CHR 0x00])) @ cstr [CHR 0x0A]) t5"
    using t4(2) len(5) by (rule wrote_string)
  have "cstr (h[10 := CHR 0x00]) = take 10 (h[10 := CHR 0x00])"
    unfolding cstr_def using hex(2,3) by (intro takeWhile_eq_take_P_nth) auto
  then have "cstr (h[10 := CHR 0x00]) = take 10 h" by simp
  then have "wrote dev u ?t0 (banner cr0 (take 10 h)) t5"
    using t5(2) by (cases "vga_is_paging_enabled cr0") (simp_all add: banner_def cstr_def)
  moreover have "terminal_initialize ld st dev cr0 s = Inr t5"
    unfolding terminal_initialize_def Let_def assms(2) m(1) bindE_simps t1(1) t2(1) t3(1) b hex(1) t4(1) t5(1) ..
  ultimately show ?thesis using t0 by (intro exI[of _ t5] exI[of _ ?t0]) simp
qed

end

end
