(* ===== verification/Stdio_Screen.thy ===== *)
theory Stdio_Screen
  imports Stdio_Conv Tty_Screen
begin

text \<open>
  What formatted output promises: a format string and its arguments denote a string of characters,
  and \<^verbatim>\<open>printf\<close> puts exactly that string on the screen and the serial line and returns its length.
\<close>

section \<open>The string a format denotes\<close>

fun conv_string :: "char \<Rightarrow> va_arg \<Rightarrow> string option" where
  "conv_string f (Va_str p) =
     (if f = CHR ''s'' then Some (case p of None \<Rightarrow> ''(null)'' | Some str \<Rightarrow> cstr str) else None)"
| "conv_string f (Va_int v) =
     (if f = CHR ''c'' then Some [char_of (unat v)]
      else if f = CHR ''d'' \<or> f = CHR ''i''
      then if sint v = INT_MIN then None else Some (int_string (sint v))
      else if f = CHR ''u'' then Some (number_string digit_upper 10 (unat v))
      else if f = CHR ''p'' \<and> v = 0 then Some ''(nil)''
      else if f = CHR ''x'' \<or> f = CHR ''X'' \<or> f = CHR ''p''
      then Some (''0x'' @ number_string digit_upper 16 (unat v))
      else None)"

text \<open>
  Ordinary characters stand for themselves, two per cent signs for one, a conversion for the next
  argument; from an unknown conversion on, the rest of the format stands for itself.
\<close>

fun render :: "string \<Rightarrow> va_arg list \<Rightarrow> string option" where
  "render [] args = Some []"
| "render [c] args = Some [c]"
| "render (c # f # format) args =
     (if c \<noteq> CHR ''%'' then map_option ((#) c) (render (f # format) args)
      else if f = CHR ''%'' then map_option ((#) f) (render format args)
      else if conversion f
      then case args of [] \<Rightarrow> None
           | a # args \<Rightarrow> (case conv_string f a of None \<Rightarrow> None
                          | Some out \<Rightarrow> map_option ((@) out) (render format args))
      else Some (c # f # format))"

lemma render_plain: "c \<noteq> CHR ''%'' \<Longrightarrow> render (c # format) args = map_option ((#) c) (render format args)"
  by (cases format) simp_all

lemma render_run: "CHR ''%'' \<notin> set xs \<Longrightarrow> render (xs @ format) args = map_option ((@) xs) (render format args)"
proof (induction xs)
  case (Cons c xs)
  then have "c \<noteq> CHR ''%''" by auto
  with Cons show ?case by (cases "render format args") (simp_all add: render_plain)
qed (cases "render format args"; simp)

text \<open>A run of ordinary characters as the loop of \<^verbatim>\<open>printf\<close> cuts it off.\<close>

lemma render_chunk:
  assumes c: "c \<noteq> CHR ''%'' \<or> (rest \<noteq> [] \<and> hd rest = CHR ''%'')"
  defines "format \<equiv> if c = CHR ''%'' then rest else c # rest"
  defines "amount \<equiv> 1 + length (takeWhile (\<lambda>c. c \<noteq> CHR ''%'') (tl format))"
  shows "render (c # rest) args = map_option ((@) (take amount format)) (render (drop amount format) args)"
    and "length (take amount format) = amount" and "length (drop amount format) < length (c # rest)"
proof -
  let ?run = "takeWhile (\<lambda>c. c \<noteq> CHR ''%'') (tl format)"
  have cons: "format = hd format # tl format" using c by (auto simp: format_def)
  have td: "take amount format = hd format # ?run"
    "drop amount format = dropWhile (\<lambda>c. c \<noteq> CHR ''%'') (tl format)"
    unfolding amount_def
    by (subst cons, simp only: plus_1_eq_Suc take_Suc_Cons drop_Suc_Cons takeWhile_eq_take[symmetric]
        dropWhile_eq_drop[symmetric])+
  have no: "CHR ''%'' \<notin> set ?run" by (auto dest: set_takeWhileD)
  have "render (tl format) args = map_option ((@) ?run) (render (drop amount format) args)"
    using render_run[OF no, of "drop amount format" args] unfolding td(2) by simp
  moreover have "render (c # rest) args = map_option ((#) (hd format)) (render (tl format) args)"
    using c by (cases rest) (auto simp: format_def render_plain)
  ultimately show "render (c # rest) args = map_option ((@) (take amount format)) (render (drop amount format) args)"
    unfolding td(1) by (cases "render (drop amount format) args") simp_all
  show "length (take amount format) = amount" unfolding td(1) by (simp add: amount_def)
  show "length (drop amount format) < length (c # rest)"
    using cons by (cases rest) (auto simp: format_def amount_def)
qed

section \<open>What is emitted for a character\<close>

text \<open>
  The terminal mirrors to the line by itself; otherwise each of the two flags of libc sends the
  character once.
\<close>

definition view_emit :: "bool \<Rightarrow> bool \<Rightarrow> bool \<Rightarrow> u8 \<Rightarrow> char \<Rightarrow> term_view \<Rightarrow> term_view" where
  "view_emit mirror p1 p2 color c v =
     (let v = view_putchar mirror color c v; n = (if mirror then 0 else of_bool p1 + of_bool p2)
      in v\<lparr>wire := wire v @ concat (replicate n (crlf c))\<rparr>)"

definition console_ok :: "device \<Rightarrow> uart \<Rightarrow> ('s, 'a) stdio_state_scheme \<Rightarrow> bool" where
  "console_ok dev u s \<longleftrightarrow> (terminal_serial_output s \<or> putchar_serial_output s \<or> serial_output_enabled s \<longrightarrow>
     transmit_live dev COM1_PORT \<and> transmitting (uart_after COM1_PORT u s))"

lemma console_serial_ok: "console_ok dev u s \<Longrightarrow> serial_ok dev u s"
  by (simp add: console_ok_def serial_ok_def)

lemma char_through_int: "char_of (unat (of_char c :: u32)) = c" "(of_char c :: u32) \<noteq> EOF"
proof -
  have "(of_char c :: u32) = of_nat (of_char c)" by (simp add: of_nat_of_char)
  moreover have lt: "(of_char c :: nat) < 256" by simp
  moreover from lt have "(of_char c :: nat) < 2 ^ 32" by (rule less_trans) simp
  ultimately have u: "unat (of_char c :: u32) = of_char c" by (metis unat_of_nat_u32)
  then show "char_of (unat (of_char c :: u32)) = c" by simp
  have "EOF = (0xFFFFFFFF :: u32)" by simp
  then have "unat EOF = 0xFFFFFFFF" by (simp only: unat_numeral) simp
  with u lt show "(of_char c :: u32) \<noteq> EOF" by (intro notI) simp
qed

text \<open>With the mirror off the terminal leaves the ports alone.\<close>

lemma next_row_io: "next_row ld st s = Inr t \<Longrightarrow> io t = io s \<and> terminal_serial_output t = terminal_serial_output s"
  by (auto simp: next_row_def scroll_def Let_def bindE_Inr_iff split: if_splits)

lemma terminal_putchar_io:
  "terminal_putchar ld st dev c s = Inr t \<Longrightarrow> \<not> terminal_serial_output s \<Longrightarrow> io t = io s"
  by (auto simp: terminal_putchar_def terminal_putentryat_def Let_def bindE_Inr_iff split: if_splits
      dest!: next_row_io)

lemma write_single: "terminal_write ld st dev [c] 1 s = terminal_putchar ld st dev c s"
proof -
  have "for_rangeE 1 1 f t = Inr t" for f :: "u32 \<Rightarrow> ('a, 'b) tty_state_scheme \<Rightarrow> ('a, 'b) tty_state_scheme res" and t
    by (subst for_rangeE.simps) simp
  then show ?thesis
    unfolding terminal_write_def by (subst for_rangeE.simps) (cases "terminal_putchar ld st dev c s"; simp)
qed

text \<open>The three conversions on the local array of \<^verbatim>\<open>printf\<close>, which is large enough for each.\<close>

lemma num_str_conversions:
  "\<exists>r. utoa num_str v 10 = Inr (length (number_string digit_upper 10 (unat v)), r) \<and>
     take (length (number_string digit_upper 10 (unat v))) r = number_string digit_upper 10 (unat v)"
  "\<exists>r. utoa num_str v 16 = Inr (length (number_string digit_upper 16 (unat v)), r) \<and>
     take (length (number_string digit_upper 16 (unat v))) r = number_string digit_upper 16 (unat v)"
  "sint v \<noteq> INT_MIN \<Longrightarrow> \<exists>r. itoa num_str (sint v) 10 = Inr (length (int_string (sint v)), r) \<and>
     take (length (int_string (sint v))) r = int_string (sint v)"
proof -
  show "\<exists>r. utoa num_str v 10 = Inr (length (number_string digit_upper 10 (unat v)), r) \<and>
      take (length (number_string digit_upper 10 (unat v))) r = number_string digit_upper 10 (unat v)"
    using utoa_ok[of 10 v num_str] decimal_u32[of v] by (auto simp: converted_def)
  show "\<exists>r. utoa num_str v 16 = Inr (length (number_string digit_upper 16 (unat v)), r) \<and>
      take (length (number_string digit_upper 16 (unat v))) r = number_string digit_upper 16 (unat v)"
    using utoa_ok[of 16 v num_str] hex_u32[of v] by (auto simp: converted_def)
  have "length (int_string (sint v)) \<le> 11"
    using sint_ge[of v] sint_lt[of v] by (intro int_string_length) simp_all
  then show "sint v \<noteq> INT_MIN \<Longrightarrow> \<exists>r. itoa num_str (sint v) 10 = Inr (length (int_string (sint v)), r) \<and>
      take (length (int_string (sint v))) r = int_string (sint v)"
    using itoa_ok[of "sint v" num_str] by (auto simp: converted_def)
qed

context screen_memory
begin

definition emit_ok ::
  "device \<Rightarrow> uart \<Rightarrow> string \<Rightarrow> ('s, 'a) stdio_state_scheme \<Rightarrow> ('s, 'a) stdio_state_scheme \<Rightarrow> bool" where
  "emit_ok dev u out s t \<longleftrightarrow> term_ok t \<and> console_ok dev u t \<and>
     view u t = fold (view_emit (terminal_serial_output s) (putchar_serial_output s) (serial_output_enabled s)
       (terminal_color s)) out (view u s) \<and>
     terminal_serial_output t = terminal_serial_output s \<and> terminal_color t = terminal_color s \<and>
     tty_state.more t = tty_state.more s"

lemma stdio_more_fields:
  assumes "tty_state.more t = tty_state.more s"
  shows "putchar_serial_output t = putchar_serial_output s" "serial_output_enabled t = serial_output_enabled s"
    "stdio_state.more t = stdio_state.more s"
  using assms by (cases s; cases t; simp)+

lemma emit_ok_Nil: "term_ok s \<Longrightarrow> console_ok dev u s \<Longrightarrow> emit_ok dev u [] s s"
  by (simp add: emit_ok_def)

lemma emit_ok_append:
  assumes "emit_ok dev u xs s t" "emit_ok dev u ys t w"
  shows "emit_ok dev u (xs @ ys) s w"
  using assms stdio_more_fields[of t s] by (simp add: emit_ok_def)

lemma serial_char_sent:
  fixes s :: "('s, 'a) stdio_state_scheme"
  assumes "term_ok s" and tr: "transmit_live dev COM1_PORT" "transmitting (uart_after COM1_PORT u s)"
  shows "\<exists>t. serial_char dev c s = Inr t \<and> term_ok t \<and> transmitting (uart_after COM1_PORT u t) \<and>
    serial_state.more t = serial_state.more s \<and> view u t = (view u s)\<lparr>wire := wire (view u s) @ crlf c\<rparr>"
proof (cases "c = CHR 0x0A")
  case False
  then show ?thesis using byte_sent[OF assms, of "of_char c"] by (simp add: serial_char_def crlf_def)
next
  case True
  obtain t1 where t1: "serial_com1_write_byte dev 0x0D s = Inr t1" "term_ok t1"
    "transmitting (uart_after COM1_PORT u t1)" "serial_state.more t1 = serial_state.more s"
    "view u t1 = (view u s)\<lparr>wire := wire (view u s) @ [0x0D]\<rparr>"
    using byte_sent[OF assms] by blast
  from byte_sent[OF t1(2) tr(1) t1(3), of "0x0A"] show ?thesis
    using t1 True by (auto simp: serial_char_def crlf_def)
qed

text \<open>One of the two guarded transmissions after a character has been shown.\<close>

lemma guarded_sent:
  fixes s :: "('s, 'a) stdio_state_scheme"
  assumes "term_ok s" "console_ok dev u s" and flag: "flag \<longrightarrow> putchar_serial_output s \<or> serial_output_enabled s"
  shows "\<exists>t. (if flag \<and> \<not> terminal_is_serial_enabled s then serial_char dev c s else Inr s) = Inr t \<and>
    term_ok t \<and> console_ok dev u t \<and> serial_state.more t = serial_state.more s \<and>
    view u t = (if flag \<and> \<not> terminal_serial_output s
      then (view u s)\<lparr>wire := wire (view u s) @ crlf c\<rparr> else view u s)"
proof (cases "flag \<and> \<not> terminal_serial_output s")
  case True
  then have tr: "transmit_live dev COM1_PORT" "transmitting (uart_after COM1_PORT u s)"
    using assms(2) flag by (auto simp: console_ok_def)
  from serial_char_sent[OF assms(1) tr, of c] True show ?thesis
    by (auto simp: terminal_is_serial_enabled_def console_ok_def tr(1))
qed (use assms in \<open>auto simp: terminal_is_serial_enabled_def\<close>)

lemma write_one:
  assumes "term_ok s" "console_ok dev u s"
  shows "\<exists>t. terminal_write ld st dev [c] 1 s = Inr t \<and> put_ok dev u c s t \<and> console_ok dev u t"
proof -
  obtain t where t: "terminal_putchar ld st dev c s = Inr t" "put_ok dev u c s t"
    using putchar_refines[OF assms(1) console_serial_ok[OF assms(2)]] by blast
  have "tty_state.more t = tty_state.more s" "terminal_serial_output t = terminal_serial_output s" "serial_ok dev u t"
    using t(2) by (simp_all add: put_ok_def)
  then have "console_ok dev u t"
    using stdio_more_fields[of t s] assms(2) terminal_putchar_io[OF t(1)]
    by (auto simp: console_ok_def serial_ok_def uart_after_def)
  with t show ?thesis by (simp add: write_single)
qed

lemma print_bytes_emits:
  fixes s :: "('s, 'a) stdio_state_scheme"
  assumes "term_ok s" "console_ok dev u s"
  shows "\<exists>t. print_bytes ld st dev cs s = Inr (True, t) \<and> emit_ok dev u cs s t"
  using assms
proof (induction cs arbitrary: s)
  case Nil
  then show ?case by (simp add: emit_ok_Nil)
next
  case (Cons c cs)
  let ?m = "terminal_serial_output s" and ?p1 = "putchar_serial_output s" and ?p2 = "serial_output_enabled s"
  note ch = char_through_int(1)[of c] and eof = char_through_int(2)[of c]
  obtain t1 where t1: "terminal_write ld st dev [c] 1 s = Inr t1" "put_ok dev u c s t1" "console_ok dev u t1"
    using write_one[OF Cons.prems] by blast
  have f1: "putchar_serial_output t1 = ?p1" "terminal_serial_output t1 = ?m" "term_ok t1"
    "serial_output_enabled t1 = ?p2" "terminal_color t1 = terminal_color s" "tty_state.more t1 = tty_state.more s"
    using t1(2) stdio_more_fields[of t1 s] by (simp_all add: put_ok_def)
  obtain t2 where t2: "(if putchar_serial_output t1 \<and> \<not> terminal_is_serial_enabled t1
      then serial_char dev c t1 else Inr t1) = Inr t2" "term_ok t2" "console_ok dev u t2"
    "serial_state.more t2 = serial_state.more t1"
    "view u t2 = (if ?p1 \<and> \<not> ?m then (view u t1)\<lparr>wire := wire (view u t1) @ crlf c\<rparr> else view u t1)"
    using guarded_sent[OF f1(3) t1(3), of "putchar_serial_output t1" c] f1 by auto
  note f2 = more_fields[OF t2(4)] stdio_more_fields[OF more_fields(7)[OF t2(4)]]
  obtain t3 where t3: "(if serial_output_enabled t2 \<and> \<not> terminal_is_serial_enabled t2
      then serial_char dev c t2 else Inr t2) = Inr t3" "term_ok t3" "console_ok dev u t3"
    "serial_state.more t3 = serial_state.more t2"
    "view u t3 = (if ?p2 \<and> \<not> ?m then (view u t2)\<lparr>wire := wire (view u t2) @ crlf c\<rparr> else view u t2)"
    using guarded_sent[OF t2(2,3), of "serial_output_enabled t2" c] f1 f2 by auto
  note f3 = more_fields[OF t3(4)]
  have "view u t3 = view_emit ?m ?p1 ?p2 (terminal_color s) c (view u s)"
    using t1(2) unfolding t3(5) t2(5) by (simp add: view_emit_def Let_def put_ok_def)
  then have "emit_ok dev u [c] s t3" using t3(2,3) f1 f2 f3 by (simp add: emit_ok_def)
  moreover obtain t where "print_bytes ld st dev cs t3 = Inr (True, t)" "emit_ok dev u cs t3 t"
    using Cons.IH[OF t3(2,3)] by blast
  ultimately show ?case
    using t1(1) t2(1) t3(1) ch eof emit_ok_append[of dev u "[c]" s t3 cs t]
    by (simp add: putchar_def)
qed

lemma print_checked_emits:
  fixes s :: "('s, 'a) stdio_state_scheme"
  assumes "term_ok s" "console_ok dev u s" and d: "take len data = out" "length out = len"
    and n: "need \<le> maxrem"
  shows "\<exists>t. print_checked ld st dev maxrem need data len written s = Inr (Some (written + int len), t) \<and>
    emit_ok dev u out s t"
proof -
  have "\<not> length data < len" using d by auto
  with print_bytes_emits[OF assms(1,2), of out] d(1) n show ?thesis
    by (auto simp: print_checked_def print_def)
qed

lemma printf_conv_emits:
  fixes s :: "('s, 'a) stdio_state_scheme"
  assumes ok: "term_ok s" "console_ok dev u s" and f: "conv_string f a = Some out"
    and w: "written + int (length out) \<le> INT_MAX"
  shows "\<exists>t. printf_conv ld st dev f (a # args) written s = Inr (args, Some (written + int (length out)), t) \<and>
    emit_ok dev u out s t"
proof (cases a)
  case (Va_str p)
  let ?str = "case p of None \<Rightarrow> ''(null)'' | Some str \<Rightarrow> str"
  have f': "f = CHR ''s''" "out = cstr ?str"
    using f Va_str by (auto simp: cstr_def split: if_splits option.splits)
  have "take (length (cstr ?str)) ?str = out"
    unfolding f'(2) cstr_def by (rule takeWhile_eq_take[symmetric])
  from print_checked_emits[OF ok this, of "int (length out)" "INT_MAX - written" written]
  show ?thesis using Va_str f' w by (auto simp: Let_def)
next
  case (Va_int v)
  note checked = print_checked_emits[OF ok, where maxrem = "INT_MAX - written" and written = written]
  consider (chr) "f = CHR ''c''" "out = [char_of (unat v)]"
    | (int) "f = CHR ''d'' \<or> f = CHR ''i''" "sint v \<noteq> INT_MIN" "out = int_string (sint v)"
    | (uns) "f = CHR ''u''" "out = number_string digit_upper 10 (unat v)"
    | (nil) "f = CHR ''p''" "v = 0" "out = ''(nil)''"
    | (hex) "f = CHR ''x'' \<or> f = CHR ''X'' \<or> f = CHR ''p''" "f = CHR ''p'' \<longrightarrow> v \<noteq> 0"
        "out = ''0x'' @ number_string digit_upper 16 (unat v)"
    using f unfolding Va_int conv_string.simps by (metis option.distinct(1) option.inject)
  then show ?thesis
  proof cases
    case chr
    obtain t where "print_checked ld st dev (INT_MAX - written) 1 [char_of (unat v)] 1 written s =
        Inr (Some (written + int 1), t)" "emit_ok dev u out s t"
      using checked[of 1 "[char_of (unat v)]" out 1] chr w by auto
    with chr show ?thesis by (simp add: Va_int)
  next
    case int
    then obtain r where r: "itoa num_str (sint v) 10 = Inr (length out, r)" "take (length out) r = out"
      using num_str_conversions(3) by blast
    obtain t where t: "print_checked ld st dev (INT_MAX - written) (int (length out)) r (length out) written s =
        Inr (Some (written + int (length out)), t)" "emit_ok dev u out s t"
      using checked[OF r(2) refl, of "int (length out)"] w by auto
    with int(1) r(1) show ?thesis by (cases "f = CHR ''d''") (simp_all add: Va_int)
  next
    case uns
    then obtain r where r: "utoa num_str v 10 = Inr (length out, r)" "take (length out) r = out"
      using num_str_conversions(1) by blast
    obtain t where t: "print_checked ld st dev (INT_MAX - written) (int (length out)) r (length out) written s =
        Inr (Some (written + int (length out)), t)" "emit_ok dev u out s t"
      using checked[OF r(2) refl, of "int (length out)"] w by auto
    then show ?thesis by (simp add: Va_int r(1) uns(1))
  next
    case nil
    obtain t where "print_checked ld st dev (INT_MAX - written) 5 ''(nil)'' 5 written s =
        Inr (Some (written + int 5), t)" "emit_ok dev u out s t"
      using checked[of 5 "''(nil)''" out 5] nil w by auto
    with nil show ?thesis by (simp add: Va_int)
  next
    case hex
    let ?n = "number_string digit_upper 16 (unat v)"
    obtain r where r: "utoa num_str v 16 = Inr (length ?n, r)" "take (length ?n) r = ?n"
      using num_str_conversions(2) by blast
    have lo: "length out = 2 + length ?n" using hex by simp
    obtain t1 where t1: "print_checked ld st dev (INT_MAX - written) 2 ''0x'' 2 written s = Inr (Some (written + 2), t1)"
      "emit_ok dev u ''0x'' s t1"
      using print_checked_emits[OF ok, of 2 "''0x''" "''0x''" 2 "INT_MAX - written" written] w lo by auto
    have ok1: "term_ok t1" "console_ok dev u t1" using t1(2) by (simp_all add: emit_ok_def)
    obtain t where t: "print_checked ld st dev (INT_MAX - written) (int (length ?n) + 2) r (length ?n) (written + 2) t1 =
        Inr (Some (written + 2 + int (length ?n)), t)" "emit_ok dev u ?n t1 t"
      using print_checked_emits[OF ok1 r(2) refl, of "int (length ?n) + 2" "INT_MAX - written" "written + 2"] w lo by auto
    have "emit_ok dev u out s t" using emit_ok_append[OF t1(2) t(2)] hex(3) by simp
    with hex(1,2) t1(1) t(1) r(1) lo show ?thesis
      by (cases "f = CHR ''p''"; cases "f = CHR ''x''") (simp_all add: Va_int)
  qed
qed

text \<open>The whole of \<^verbatim>\<open>printf\<close>.\<close>

lemma printf_loop_emits:
  fixes s :: "('s, 'a) stdio_state_scheme"
  assumes "term_ok s" "console_ok dev u s" and "render format args = Some out"
    and "written + int (length out) \<le> INT_MAX"
  shows "\<exists>t. printf_loop ld st dev format args written s = Inr (written + int (length out), t) \<and>
    emit_ok dev u out s t"
  using assms
proof (induction "length format" arbitrary: format args out written s rule: less_induct)
  case less
  note ok = less.prems(1,2)
  show ?case
  proof (cases format)
    case Nil
    then show ?thesis using less.prems by (simp add: emit_ok_Nil)
  next
    case (Cons c rest)
    consider (run) "c \<noteq> CHR ''%'' \<or> (rest \<noteq> [] \<and> hd rest = CHR ''%'')"
      | (conv) f rest' where "c = CHR ''%''" "rest = f # rest'" "f \<noteq> CHR ''%''" "conversion f"
      | (raw) "c = CHR ''%''" "rest = [] \<or> hd rest \<noteq> CHR ''%'' \<and> \<not> conversion (hd rest)"
      by (metis list.collapse)
    then show ?thesis
    proof cases
      case run
      define fmt where "fmt = (if c = CHR ''%'' then rest else c # rest)"
      define amount where "amount = 1 + length (takeWhile (\<lambda>c. c \<noteq> CHR ''%'') (tl fmt))"
      note chunk = render_chunk(1)[OF run, of args, folded fmt_def, folded amount_def]
        render_chunk(2,3)[OF run, folded fmt_def, folded amount_def]
      obtain out' where out': "render (drop amount fmt) args = Some out'" "out = take amount fmt @ out'"
        using less.prems(3) chunk(1) unfolding Cons by (cases "render (drop amount fmt) args") auto
      have len: "int (length out) = int amount + int (length out')" using out'(2) chunk(2) by simp
      obtain t1 where t1: "print_checked ld st dev (INT_MAX - written) (int amount) fmt amount written s =
          Inr (Some (written + int amount), t1)" "emit_ok dev u (take amount fmt) s t1"
        using print_checked_emits[OF ok refl chunk(2), of "int amount" "INT_MAX - written" written]
          less.prems(4) len by auto
      have ok1: "term_ok t1" "console_ok dev u t1" using t1(2) by (simp_all add: emit_ok_def)
      obtain t where t: "printf_loop ld st dev (drop amount fmt) args (written + int amount) t1 =
          Inr (written + int amount + int (length out'), t)" "emit_ok dev u out' t1 t"
        using less.hyps[OF chunk(3)[folded Cons] ok1 out'(1), of "written + int amount"] less.prems(4) len by auto
      have "emit_ok dev u out s t" unfolding out'(2) by (rule emit_ok_append[OF t1(2) t(2)])
      with run t1(1) t(1) len show ?thesis
        unfolding Cons printf_loop.simps Let_def fmt_def[symmetric] amount_def[symmetric] by simp
    next
      case conv
      then obtain a args' out1 out2 where o: "args = a # args'" "conv_string f a = Some out1"
        "render rest' args' = Some out2" "out = out1 @ out2"
        using less.prems(3) Cons by (auto split: list.splits option.splits)
      obtain t1 where t1: "printf_conv ld st dev f args written s = Inr (args', Some (written + int (length out1)), t1)"
        "emit_ok dev u out1 s t1"
        using printf_conv_emits[OF ok o(2), of written args'] less.prems(4) o(1,4) by auto
      have ok1: "term_ok t1" "console_ok dev u t1" using t1(2) by (simp_all add: emit_ok_def)
      have "length rest' < length format" using conv Cons by simp
      from less.hyps[OF this ok1 o(3), of "written + int (length out1)"] obtain t where
        t: "printf_loop ld st dev rest' args' (written + int (length out1)) t1 =
          Inr (written + int (length out1) + int (length out2), t)" "emit_ok dev u out2 t1 t"
        using less.prems(4) o(4) by auto
      have "emit_ok dev u out s t" unfolding o(4) by (rule emit_ok_append[OF t1(2) t(2)])
      with conv Cons t1(1) t(1) o(4) show ?thesis by (simp add: Let_def)
    next
      case raw
      then have out: "out = format" using less.prems(3) Cons by (cases rest) auto
      obtain t where "print_checked ld st dev (INT_MAX - written) (int (length format)) format (length format) written s =
          Inr (Some (written + int (length format)), t)" "emit_ok dev u format s t"
        using print_checked_emits[OF ok, of "length format" format format "int (length format)" "INT_MAX - written" written]
          less.prems(4) out by auto
      with raw out Cons show ?thesis by (auto simp: Let_def)
    qed
  qed
qed

end

end
