(* ===== verification/Debug_Screen.thy ===== *)
theory Debug_Screen
  imports Debug_Format Stdio_Screen
begin

text \<open>
  What a line of the debug log does to the screen and the serial line: the routines of \<^verbatim>\<open>debug.c\<close>
  refine writing one string to the terminal, to the serial port or to both.
\<close>

section \<open>The text of a line\<close>

definition log_prefix :: "int \<Rightarrow> string" where
  "log_prefix level = (if 0 \<le> level \<and> level \<le> 5 then level_prefix ! nat level else [])"

text \<open>A line of the log: prefix, what fits of the message, carriage return and line feed.\<close>

definition log_text :: "int \<Rightarrow> piece list \<Rightarrow> string" where
  "log_text level ps = cstr (log_prefix level @ fit (1021 - length (log_prefix level)) ps @ [CHR 0x0D, CHR 0x0A])"

text \<open>Where a string goes; the terminal's mirror takes the place of the serial target.\<close>

definition view_log :: "u32 \<Rightarrow> bool \<Rightarrow> u8 \<Rightarrow> string \<Rightarrow> term_view \<Rightarrow> term_view" where
  "view_log target mirror color str v =
     (let v = (if target AND 1 \<noteq> 0 then fold (view_putchar mirror color) str v else v)
      in if target AND 2 \<noteq> 0 \<and> \<not> mirror then v\<lparr>wire := wire v @ map of_char str\<rparr> else v)"

definition log_ready :: "device \<Rightarrow> uart \<Rightarrow> ('s, 'a) debug_state_scheme \<Rightarrow> bool" where
  "log_ready dev u s \<longleftrightarrow>
     (terminal_serial_output s \<or> putchar_serial_output s \<or> serial_output_enabled s \<or> debug_target s AND 2 \<noteq> 0 \<longrightarrow>
        transmit_live dev COM1_PORT \<and> transmitting (uart_after COM1_PORT u s)) \<and>
     length (debug_buffer s) = 1024"

lemma log_ready_serial_ok: "log_ready dev u s \<Longrightarrow> serial_ok dev u s"
  by (simp add: log_ready_def serial_ok_def)

lemma log_prefix_length: "length (log_prefix level) \<le> 8" and log_prefix_text: "CHR 0x00 \<notin> set (log_prefix level)"
proof -
  have "nat level < 6 \<Longrightarrow> level_prefix ! nat level \<in> set level_prefix" by (intro nth_mem) (simp add: level_prefix_def)
  then have "log_prefix level \<in> set level_prefix \<or> log_prefix level = []" by (auto simp: log_prefix_def)
  then show "length (log_prefix level) \<le> 8" "CHR 0x00 \<notin> set (log_prefix level)"
    by (auto simp: level_prefix_def)
qed

lemma cstr_stop: "cstr (xs @ CHR 0x00 # ys) = cstr xs"
  by (induction xs) (simp_all add: cstr_def)

lemma cstr_clean: "CHR 0x00 \<notin> set xs \<Longrightarrow> cstr xs = xs"
  by (auto simp: cstr_def)

text \<open>What was written at the front of an array with a terminator is its string.\<close>

lemma cstr_write_at: "cstr (write_at 0 (xs @ [CHR 0x00]) str) = cstr xs"
  by (simp add: write_at_def cstr_stop)

lemma put_write_at:
  "off + length xs < length str \<Longrightarrow> put (off + length xs) c (write_at off xs str) = Inr (write_at off (xs @ [c]) str)"
  by (auto simp: put_def write_at_def upd_conv_take_nth_drop)

section \<open>Formatting a line\<close>

lemma for_rangeE_keeps:
  "for_rangeE i n f s = Inr t \<Longrightarrow> (\<And>k s s'. P s \<Longrightarrow> f k s = Inr s' \<Longrightarrow> P s') \<Longrightarrow> P s \<Longrightarrow> P t"
proof (induction i n f s rule: for_rangeE.induct)
  case (1 i n f s)
  show ?case
  proof (cases "i < n")
    case True
    then obtain s' where s': "f i s = Inr s'" "for_rangeE (i + 1) n f s' = Inr t"
      using "1.prems"(1) by (subst (asm) for_rangeE.simps) (simp add: bindE_Inr_iff, blast)
    then show ?thesis using "1.IH"[OF True s' "1.prems"(2) "1.prems"(2)[OF "1.prems"(3) s'(1)]] by simp
  next
    case False
    with "1.prems" show ?thesis by (subst (asm) for_rangeE.simps) simp
  qed
qed

lemma terminal_putchar_mirror:
  "terminal_putchar ld st dev c s = Inr t \<Longrightarrow> \<not> terminal_serial_output s \<Longrightarrow> \<not> terminal_serial_output t"
  by (auto simp: terminal_putchar_def terminal_putentryat_def Let_def bindE_Inr_iff split: if_splits
      dest!: next_row_io)

lemma terminal_writestring_io:
  assumes "terminal_writestring ld st dev str s = Inr t" "\<not> terminal_serial_output s"
  shows "io t = io s"
proof -
  have "io t = io s \<and> \<not> terminal_serial_output t"
    by (rule for_rangeE_keeps[OF assms(1)[unfolded terminal_writestring_def terminal_write_def],
          where P = "\<lambda>t. io t = io s \<and> \<not> terminal_serial_output t"])
      (use assms(2) in \<open>auto split: if_splits dest: terminal_putchar_io terminal_putchar_mirror\<close>)
  then show ?thesis ..
qed

lemma debug_more_fields:
  assumes "tty_state.more t = tty_state.more s"
  shows "putchar_serial_output t = putchar_serial_output s" "serial_output_enabled t = serial_output_enabled s"
    "debug_level t = debug_level s" "debug_target t = debug_target s"
    "debug_initialized t = debug_initialized s" "debug_buffer t = debug_buffer s"
    "debug_state.more t = debug_state.more s"
  using assms by (cases s; cases t; simp)+

context screen_memory
begin

text \<open>A debug call that shows \<open>F\<close> and keeps everything but the buffer.\<close>

definition log_ok ::
  "device \<Rightarrow> uart \<Rightarrow> (term_view \<Rightarrow> term_view) \<Rightarrow> ('s, 'a) debug_state_scheme \<Rightarrow> ('s, 'a) debug_state_scheme \<Rightarrow> bool" where
  "log_ok dev u F s t \<longleftrightarrow> term_ok t \<and> log_ready dev u t \<and> view u t = F (view u s) \<and>
     terminal_serial_output t = terminal_serial_output s \<and> terminal_color t = terminal_color s \<and>
     putchar_serial_output t = putchar_serial_output s \<and> serial_output_enabled t = serial_output_enabled s \<and>
     debug_level t = debug_level s \<and> debug_target t = debug_target s \<and>
     debug_initialized t = debug_initialized s \<and> debug_state.more t = debug_state.more s"

lemma writestring_logs:
  assumes "term_ok s" "log_ready dev u s" "length str < 2 ^ 32"
  shows "\<exists>t. terminal_writestring ld st dev str s = Inr t \<and>
    log_ok dev u (fold (view_putchar (terminal_serial_output s) (terminal_color s)) (cstr str)) s t"
proof -
  obtain t where t: "terminal_writestring ld st dev str s = Inr t" "term_ok t" "serial_ok dev u t"
    "view u t = fold (view_putchar (terminal_serial_output s) (terminal_color s)) (cstr str) (view u s)"
    "terminal_serial_output t = terminal_serial_output s" "terminal_color t = terminal_color s"
    "tty_state.more t = tty_state.more s"
    using writestring_refines[OF assms(1) log_ready_serial_ok[OF assms(2)] assms(3)] by blast
  note f = debug_more_fields[OF t(7)]
  have "log_ready dev u t"
    using assms(2) t(3,5) f terminal_writestring_io[OF t(1)]
    by (auto simp: log_ready_def serial_ok_def uart_after_def)
  with t f show ?thesis by (simp add: log_ok_def)
qed

lemma debug_write_logs:
  assumes "term_ok s" "log_ready dev u s" "length str < 2 ^ 32"
  shows "\<exists>t. debug_write ld st dev str s = Inr t \<and>
    log_ok dev u (view_log (debug_target s) (terminal_serial_output s) (terminal_color s) (cstr str)) s t"
proof -
  let ?F = "\<lambda>v. if debug_target s AND 1 \<noteq> 0
    then fold (view_putchar (terminal_serial_output s) (terminal_color s)) (cstr str) v else v"
  have "\<exists>t. (if debug_target s AND 1 \<noteq> 0 then terminal_writestring ld st dev str s else Inr s) = Inr t \<and>
    log_ok dev u ?F s t"
  proof (cases "debug_target s AND 1 = 0")
    case True
    then show ?thesis using assms(1,2) by (simp add: log_ok_def)
  next
    case False
    with writestring_logs[OF assms] show ?thesis by simp
  qed
  then obtain t where t: "(if debug_target s AND 1 \<noteq> 0 then terminal_writestring ld st dev str s else Inr s) = Inr t"
    "log_ok dev u ?F s t" by blast
  have ft: "term_ok t" "log_ready dev u t" "view u t = ?F (view u s)" "debug_target t = debug_target s"
    "terminal_serial_output t = terminal_serial_output s"
    using t(2) by (simp_all add: log_ok_def)
  have w: "debug_write ld st dev str s =
      (if debug_target s AND 2 \<noteq> 0 \<and> \<not> terminal_serial_output s then serial_com1_write_string dev str t else Inr t)"
    unfolding debug_write_def t(1) by (simp add: ft(4,5) terminal_is_serial_enabled_def)
  show ?thesis
  proof (cases "debug_target s AND 2 \<noteq> 0 \<and> \<not> terminal_serial_output s")
    case False
    have "log_ok dev u (view_log (debug_target s) (terminal_serial_output s) (terminal_color s) (cstr str)) s t"
      using t(2) unfolding log_ok_def view_log_def Let_def if_not_P[OF False] .
    then show ?thesis unfolding w if_not_P[OF False] by blast
  next
    case True
    then have tr: "transmit_live dev COM1_PORT" "transmitting (uart_after COM1_PORT u t)"
      using ft(2,4) by (simp_all add: log_ready_def)
    obtain r where r: "serial_com1_write_string dev str t = Inr r" "serial_state.more r = serial_state.more t"
      "uart_after COM1_PORT u r = (uart_after COM1_PORT u t)\<lparr>line := line (uart_after COM1_PORT u t) @ map of_char (cstr str)\<rparr>"
      using com1_string_ok[OF tr, of str] unfolding cstr_def by blast
    note f = more_fields[OF r(2)] debug_more_fields[OF more_fields(7)[OF r(2)]]
    have "view u r = (view u t)\<lparr>wire := wire (view u t) @ map of_char (cstr str)\<rparr>"
      using f r(3) by (simp add: view_def)
    moreover have "term_ok r" using ft(1) f by (simp add: term_ok_def)
    moreover have "log_ready dev u r" using ft(2) f r(3) tr by (simp add: log_ready_def transmitting_def)
    ultimately have "log_ok dev u (view_log (debug_target s) (terminal_serial_output s) (terminal_color s) (cstr str)) s r"
      using t(2) f True unfolding log_ok_def view_log_def Let_def by simp
    then show ?thesis unfolding w if_P[OF True] r(1) by blast
  qed
qed

lemma log_ok_buffer:
  "log_ok dev u F (s\<lparr>debug_buffer := b\<rparr>) t \<Longrightarrow> log_ok dev u F s t"
  by (simp add: log_ok_def view_def uart_after_def)

lemma log_ready_buffer:
  "term_ok s \<Longrightarrow> term_ok (s\<lparr>debug_buffer := b\<rparr>)"
  "log_ready dev u s \<Longrightarrow> length b = 1024 \<Longrightarrow> log_ready dev u (s\<lparr>debug_buffer := b\<rparr>)"
  by (simp_all add: term_ok_def log_ready_def uart_after_def)

lemma debug_line_logs:
  fixes s :: "('s, 'a) debug_state_scheme"
  assumes ok: "term_ok s" "log_ready dev u s" and ps: "vpieces (cstr format) args = Some ps"
    and level: "level \<le> debug_level s"
  shows "\<exists>t. debug_format_and_write ld st dev level format args s = Inr t \<and>
    log_ok dev u (view_log (debug_target s) (terminal_serial_output s) (terminal_color s) (log_text level ps)) s t"
proof -
  let ?p = "log_prefix level" and ?buf = "debug_buffer s"
  let ?out = "fit (1021 - length ?p) ps"
  have len: "length ?buf = 1024" using ok(2) by (simp add: log_ready_def)
  have p: "length ?p \<le> 8" "cstr ?p = ?p" using log_prefix_length cstr_clean[OF log_prefix_text] by auto
  have o: "length ?out \<le> 1021 - length ?p" by (rule fit_length)
  let ?b1 = "write_at 0 ?p ?buf"
  have c: "copy_into 0 ?p (length ?p) ?buf = Inr ?b1" using p len by (simp add: copy_into_def)
  have l1: "length ?b1 = 1024" using p len by (subst write_at_length) simp_all
  have v: "vsnprintf ?b1 (length ?p) (1022 - length ?p) format args =
      Inr (int (length ?out), write_at (length ?p) (?out @ [CHR 0x00]) ?b1)"
    using vsnprintf_ok[of "1022 - length ?p" "length ?p" ?b1, OF _ _ _ ps] p(1) l1 by simp
  have w: "write_at (length ?p) (?out @ [CHR 0x00]) ?b1 = write_at 0 (?p @ ?out @ [CHR 0x00]) ?buf"
    using write_at_append[of 0 ?p ?buf "?out @ [CHR 0x00]"] p(1) len by simp
  let ?b2 = "write_at 0 (?p @ ?out @ [CHR 0x00]) ?buf"
  let ?n = "length ?p + length ?out"
  have n: "?n \<le> 1021" using o p(1) by simp
  have cr: "put ?n (CHR 0x0D) ?b2 = Inr (write_at 0 (?p @ ?out @ [CHR 0x0D]) ?buf)"
    using n len by (simp add: put_def write_at_def list_update_append)
  have nl: "put (?n + 1) (CHR 0x0A) (write_at 0 (?p @ ?out @ [CHR 0x0D]) ?buf) =
      Inr (write_at 0 (?p @ ?out @ [CHR 0x0D, CHR 0x0A]) ?buf)"
    using put_write_at[of 0 "?p @ ?out @ [CHR 0x0D]" ?buf] n len by simp
  let ?b = "write_at 0 ((?p @ ?out @ [CHR 0x0D, CHR 0x0A]) @ [CHR 0x00]) ?buf"
  have z: "put (?n + 2) (CHR 0x00) (write_at 0 (?p @ ?out @ [CHR 0x0D, CHR 0x0A]) ?buf) = Inr ?b"
    using put_write_at[of 0 "?p @ ?out @ [CHR 0x0D, CHR 0x0A]" ?buf] n len by simp
  have lb: "length ?b = 1024" using n len by (subst write_at_length) simp_all
  have "cstr ?b = log_text level ps" unfolding cstr_write_at log_text_def ..
  then obtain t where t: "debug_write ld st dev ?b (s\<lparr>debug_buffer := ?b\<rparr>) = Inr t"
    "log_ok dev u (view_log (debug_target s) (terminal_serial_output s) (terminal_color s) (log_text level ps))
      (s\<lparr>debug_buffer := ?b\<rparr>) t"
    using debug_write_logs[OF log_ready_buffer(1)[OF ok(1)] log_ready_buffer(2)[OF ok(2) lb], of ?b] lb by auto
  have "debug_format_and_write ld st dev level format args s = debug_write ld st dev ?b (s\<lparr>debug_buffer := ?b\<rparr>)"
    unfolding debug_format_and_write_def log_prefix_def[symmetric]
    using level p n c v w cr nl z by (simp add: Let_def numeral_2_eq_2)
  then show ?thesis using t log_ok_buffer by auto
qed

end

end
