(* ===== verification/Debug_Dump.thy ===== *)
theory Debug_Dump
  imports Debug_Screen
begin

text \<open>
  The unlevelled output of the debug log, its initialisation, and the hex dump, whose lines are
  assembled by repeated calls of \<^verbatim>\<open>snprintf\<close> into an array of 128 characters.
\<close>

section \<open>Assembling a line\<close>

definition line_is :: "string \<Rightarrow> nat \<times> string \<Rightarrow> bool" where
  "line_is txt = (\<lambda>(pos, ln). pos = length txt \<and> length ln = 128 \<and> take pos ln = txt \<and>
     (txt \<noteq> [] \<longrightarrow> ln ! pos = CHR 0x00))"

lemma line_append_ok:
  assumes l: "line_is txt l" and ps: "vpieces (cstr format) args = Some ps" "concat (map piece_text ps) = x"
    and len: "length txt + length x < 127" "x \<noteq> []"
  shows "\<exists>l'. line_append format args l = Inr l' \<and> line_is (txt @ x) l'"
proof -
  obtain ln where ln: "l = (length txt, ln)" "length ln = 128" "take (length txt) ln = txt"
    using l by (cases l) (auto simp: line_is_def)
  have "fit (127 - length txt) ps = x" using ps(2) len(1) fit_all[of ps "127 - length txt"] by simp
  then have "snprintf ln (length txt) (128 - length txt) format args =
      Inr (int (length x), write_at (length txt) (x @ [CHR 0x00]) ln)"
    using vsnprintf_ok[of "128 - length txt" "length txt" ln, OF _ _ _ ps(1)] len(1) ln(2) by (simp add: snprintf_def)
  moreover have "line_is (txt @ x) (length txt + length x, write_at (length txt) (x @ [CHR 0x00]) ln)"
    using ln len by (simp add: line_is_def write_at_def nth_append)
  ultimately show ?thesis using ln(1) by (simp add: line_append_def)
qed

lemma line_is_cstr: "line_is txt (pos, ln) \<Longrightarrow> txt \<noteq> [] \<Longrightarrow> cstr ln = cstr txt"
proof -
  assume l: "line_is txt (pos, ln)" "txt \<noteq> []"
  show ?thesis
  proof (cases "pos < length ln")
    case True
    have e: "take pos ln = txt" "ln ! pos = CHR 0x00" using l unfolding line_is_def by blast+
    have "cstr ln = cstr (take pos ln @ ln ! pos # drop (Suc pos) ln)"
      using id_take_nth_drop[OF True] by simp
    then show ?thesis by (simp only: e cstr_stop)
  next
    case False
    then show ?thesis using l by (simp add: line_is_def)
  qed
qed

text \<open>A line of the dump, as the code prints it.\<close>

definition hex_cell :: "u32 \<Rightarrow> u32 \<Rightarrow> nat \<Rightarrow> string" where
  "hex_cell i sz j = (if i + of_nat j < sz then ''%02x '' else ''   '') @ (if j = 7 then '' '' else [])"

definition ascii_cell :: "(u32 \<Rightarrow> u8) \<Rightarrow> u32 \<Rightarrow> u32 \<Rightarrow> nat \<Rightarrow> string" where
  "ascii_cell b i sz j =
     (if i + of_nat j < sz
      then [if 32 \<le> b (i + of_nat j) \<and> b (i + of_nat j) \<le> 126 then char_of (unat (b (i + of_nat j))) else CHR ''.'']
      else [])"

definition dump_text :: "(u32 \<Rightarrow> u8) \<Rightarrow> u32 \<Rightarrow> u32 \<Rightarrow> string" where
  "dump_text b i sz = ''%08x: '' @ concat (map (hex_cell i sz) [0..<16]) @ ''| '' @
     concat (map (ascii_cell b i sz) [0..<16]) @ '' |''"

lemma hex_cells_length: "k \<le> 16 \<Longrightarrow> length (concat (map (hex_cell i sz) [0..<k])) \<le> 5 * k + (if k \<le> 7 then 0 else 1)"
proof (induction k)
  case (Suc k)
  have "length (hex_cell i sz k) \<le> 5 + (if k = 7 then 1 else 0)" by (simp add: hex_cell_def)
  with Suc show ?case by (auto split: if_splits)
qed simp

lemma ascii_cells_length: "length (concat (map (ascii_cell b i sz) [0..<k])) \<le> k"
proof (induction k)
  case (Suc k)
  have "length (ascii_cell b i sz k) \<le> 1" by (simp add: ascii_cell_def)
  with Suc show ?case by simp
qed simp

text \<open>The formats of the dump; \<^verbatim>\<open>%0\<close> is no conversion of this formatter and stands for itself.\<close>

lemma literal_appends:
  assumes "line_is txt l" "length txt < 120"
  shows "\<exists>l'. line_append ''%08x: '' args l = Inr l' \<and> line_is (txt @ ''%08x: '') l'"
    and "\<exists>l'. line_append ''%02x '' args l = Inr l' \<and> line_is (txt @ ''%02x '') l'"
    and "\<exists>l'. line_append ''   '' args l = Inr l' \<and> line_is (txt @ ''   '') l'"
    and "\<exists>l'. line_append '' '' args l = Inr l' \<and> line_is (txt @ '' '') l'"
    and "\<exists>l'. line_append ''| '' args l = Inr l' \<and> line_is (txt @ ''| '') l'"
    and "\<exists>l'. line_append '' |'' args l = Inr l' \<and> line_is (txt @ '' |'') l'"
    and "\<exists>l'. line_append ''.'' args l = Inr l' \<and> line_is (txt @ ''.'') l'"
    and "\<exists>l'. line_append ''%c'' [Va_int v] l = Inr l' \<and> line_is (txt @ [char_of (unat v)]) l'"
proof -
  note app = line_append_ok[OF assms(1)]
  show "\<exists>l'. line_append ''%08x: '' args l = Inr l' \<and> line_is (txt @ ''%08x: '') l'"
    by (rule app) (use assms(2) in \<open>simp_all add: cstr_def\<close>)+
  show "\<exists>l'. line_append ''%02x '' args l = Inr l' \<and> line_is (txt @ ''%02x '') l'"
    by (rule app) (use assms(2) in \<open>simp_all add: cstr_def\<close>)+
  show "\<exists>l'. line_append ''   '' args l = Inr l' \<and> line_is (txt @ ''   '') l'"
    by (rule app) (use assms(2) in \<open>simp_all add: cstr_def\<close>)+
  show "\<exists>l'. line_append '' '' args l = Inr l' \<and> line_is (txt @ '' '') l'"
    by (rule app) (use assms(2) in \<open>simp_all add: cstr_def\<close>)+
  show "\<exists>l'. line_append ''| '' args l = Inr l' \<and> line_is (txt @ ''| '') l'"
    by (rule app) (use assms(2) in \<open>simp_all add: cstr_def\<close>)+
  show "\<exists>l'. line_append '' |'' args l = Inr l' \<and> line_is (txt @ '' |'') l'"
    by (rule app) (use assms(2) in \<open>simp_all add: cstr_def\<close>)+
  show "\<exists>l'. line_append ''.'' args l = Inr l' \<and> line_is (txt @ ''.'') l'"
    by (rule app) (use assms(2) in \<open>simp_all add: cstr_def\<close>)+
  show "\<exists>l'. line_append ''%c'' [Va_int v] l = Inr l' \<and> line_is (txt @ [char_of (unat v)]) l'"
    by (rule app) (use assms(2) in \<open>simp_all add: cstr_def\<close>)+
qed

lemma for_range_cells:
  assumes step: "\<And>k l. k < 16 \<Longrightarrow> line_is (txt @ concat (map f [0..<unat k])) l \<Longrightarrow>
      \<exists>l'. body k l = Inr l' \<and> line_is (txt @ concat (map f [0..<unat k]) @ f (unat k)) l'"
    and l: "line_is txt l"
  shows "\<exists>l'. for_rangeE 0 16 body l = Inr l' \<and> line_is (txt @ concat (map f [0..<16])) l'"
proof -
  have "\<exists>l'. for_rangeE 0 16 body l = Inr l' \<and> line_is (txt @ concat (map f [0..<unat (16 :: u32)])) l'"
    by (rule for_rangeE_invariant[where P = "\<lambda>k. line_is (txt @ concat (map f [0..<unat k]))"])
      (use step l in \<open>auto simp: unat_Suc_less\<close>)
  then show ?thesis by simp
qed

lemma dump_hex_ok:
  assumes rd: "\<And>k. k < sz \<Longrightarrow> ld (data + k) m = Inr (b k)" and l: "line_is txt l" and len: "length txt < 10"
  shows "\<exists>l'. dump_hex ld m data i sz l = Inr l' \<and> line_is (txt @ concat (map (hex_cell i sz) [0..<16])) l'"
  unfolding dump_hex_def
proof (rule for_range_cells[OF _ l])
  fix j :: u32 and l assume j: "j < 16" and l: "line_is (txt @ concat (map (hex_cell i sz) [0..<unat j])) l"
  let ?t = "txt @ concat (map (hex_cell i sz) [0..<unat j])"
  let ?c = "if i + j < sz then ''%02x '' else ''   ''"
  have jn: "unat j < 16" using j by (simp add: word_less_nat_alt)
  have lt: "length ?t + 6 < 100" using hex_cells_length[of "unat j" i sz] jn len by (simp split: if_splits)
  obtain l1 where l1: "(if i + j < sz
      then bindE (ld (data + (i + j)) m) (\<lambda>b. line_append ''%02x '' [Va_int (ucast b)] l)
      else line_append ''   '' [] l) = Inr l1" "line_is (?t @ ?c) l1"
    using literal_appends(2)[OF l, of "[Va_int (ucast (b (i + j)))]"] literal_appends(3)[OF l, of "[]"] lt rd[of "i + j"]
    by (cases "i + j < sz") auto
  obtain l2 where l2: "(if j = 7 then line_append '' '' [] l1 else Inr l1) = Inr l2"
    "line_is (?t @ hex_cell i sz (unat j)) l2"
  proof (cases "j = 7")
    case True
    have "length (?t @ ?c) < 120" using lt by (simp split: if_splits)
    then obtain l2 where "line_append '' '' [] l1 = Inr l2" "line_is ((?t @ ?c) @ '' '') l2"
      using literal_appends(4)[OF l1(2)] by blast
    then show ?thesis using that[of l2] True by (simp add: hex_cell_def)
  next
    case False
    then have "unat j \<noteq> unat (7 :: u32)" by (simp only: word_unat_eq_iff not_False_eq_True)
    then have "unat j \<noteq> 7" by simp
    then show ?thesis using that[of l1] l1(2) False by (simp add: hex_cell_def)
  qed
  show "\<exists>l'. bindE (if i + j < sz
      then bindE (ld (data + (i + j)) m) (\<lambda>b. line_append ''%02x '' [Va_int (ucast b)] l)
      else line_append ''   '' [] l) (\<lambda>ln. if j = 7 then line_append '' '' [] ln else Inr ln) = Inr l' \<and>
      line_is (txt @ concat (map (hex_cell i sz) [0..<unat j]) @ hex_cell i sz (unat j)) l'"
    unfolding l1(1) using l2 by simp
qed

lemma dump_ascii_ok:
  assumes rd: "\<And>k. k < sz \<Longrightarrow> ld (data + k) m = Inr (b k)" and l: "line_is txt l" and len: "length txt < 100"
  shows "\<exists>l'. dump_ascii ld m data i sz l = Inr l' \<and> line_is (txt @ concat (map (ascii_cell b i sz) [0..<16])) l'"
  unfolding dump_ascii_def
proof (rule for_range_cells[OF _ l])
  fix j :: u32 and l assume j: "j < 16" and l: "line_is (txt @ concat (map (ascii_cell b i sz) [0..<unat j])) l"
  let ?t = "txt @ concat (map (ascii_cell b i sz) [0..<unat j])"
  have "unat j < 16" using j by (simp add: word_less_nat_alt)
  then have lt: "length ?t < 120" using ascii_cells_length[of b i sz "unat j"] len by simp
  have u: "unat (ucast (b (i + j)) :: u32) = unat (b (i + j))" by (simp add: unsigned_ucast_eq take_bit_nat_eq_self unsigned_less[THEN less_le_trans])
  show "\<exists>l'. (if i + j < sz then bindE (ld (data + (i + j)) m) (\<lambda>c.
        if 32 \<le> c \<and> c \<le> 126 then line_append ''%c'' [Va_int (ucast c)] l else line_append ''.'' [] l)
      else Inr l) = Inr l' \<and>
      line_is (txt @ concat (map (ascii_cell b i sz) [0..<unat j]) @ ascii_cell b i sz (unat j)) l'"
  proof (cases "i + j < sz")
    case False
    then show ?thesis using l by (simp add: ascii_cell_def)
  next
    case True
    then show ?thesis
      using rd[OF True] literal_appends(8)[OF l lt, of "ucast (b (i + j))"] literal_appends(7)[OF l lt, of "[]"] u
      by (cases "32 \<le> b (i + j) \<and> b (i + j) \<le> 126") (auto simp: ascii_cell_def)
  qed
qed

lemma dump_line_ok:
  assumes rd: "\<And>k. k < sz \<Longrightarrow> ld (data + k) m = Inr (b k)"
  shows "\<exists>ln. dump_line ld m data i sz = Inr ln \<and> cstr ln = cstr (dump_text b i sz)"
proof -
  let ?h = "concat (map (hex_cell i sz) [0..<16])" and ?a = "concat (map (ascii_cell b i sz) [0..<16])"
  have "line_is [] (0, replicate 128 (CHR 0x00))" by (simp add: line_is_def)
  from literal_appends(1)[OF this, of "[Va_int (data + i)]"] obtain l1 where
    l1: "line_append ''%08x: '' [Va_int (data + i)] (0, replicate 128 (CHR 0x00)) = Inr l1" "line_is ''%08x: '' l1" by auto
  obtain l2 where l2: "dump_hex ld m data i sz l1 = Inr l2" "line_is (''%08x: '' @ ?h) l2"
    using dump_hex_ok[where ld = ld and m = m and data = data and b = b and sz = sz and i = i, OF rd l1(2)] by auto
  have lh: "length (''%08x: '' @ ?h) < 90" using hex_cells_length[of 16 i sz] by simp
  have lh2: "length (''%08x: '' @ ?h) < 120" using lh by simp
  obtain l3 where l3: "line_append ''| '' [] l2 = Inr l3" "line_is ((''%08x: '' @ ?h) @ ''| '') l3"
    using literal_appends(5)[OF l2(2) lh2] by blast
  obtain l4 where l4: "dump_ascii ld m data i sz l3 = Inr l4" "line_is (((''%08x: '' @ ?h) @ ''| '') @ ?a) l4"
    using dump_ascii_ok[where ld = ld and m = m and data = data and b = b and sz = sz and i = i, OF rd l3(2)] lh by auto
  have "length (((''%08x: '' @ ?h) @ ''| '') @ ?a) < 120" using lh ascii_cells_length[of b i sz 16] by simp
  then obtain pos ln where l5: "line_append '' |'' [] l4 = Inr (pos, ln)"
    "line_is ((((''%08x: '' @ ?h) @ ''| '') @ ?a) @ '' |'') (pos, ln)"
    using literal_appends(6)[OF l4(2)] by (metis surj_pair)
  have "cstr ln = cstr (dump_text b i sz)" using line_is_cstr[OF l5(2)] by (simp add: dump_text_def)
  with l1(1) l2(1) l3(1) l4(1) l5(1) show ?thesis by (simp add: dump_line_def)
qed

section \<open>On the screen\<close>

lemma dump_text_clean: "cstr (dump_text b i sz) = dump_text b i sz"
proof (rule cstr_clean)
  have "CHR 0x00 \<notin> set (hex_cell i sz j)" for j by (simp add: hex_cell_def)
  moreover have "CHR 0x00 \<notin> set (ascii_cell b i sz j)" for j
  proof -
    have "char_of (unat x) \<noteq> CHR 0x00" if "32 \<le> x" for x :: u8
    proof
      assume "char_of (unat x) = CHR 0x00"
      then have "of_char (char_of (unat x)) = (0 :: nat)" by simp
      moreover have "unat x < 256" using unsigned_less[of x, where 'a = nat] by simp
      ultimately show False using that by (simp add: word_le_nat_alt)
    qed
    from this[of "b (i + of_nat j)"] show ?thesis by (cases "32 \<le> b (i + of_nat j)") (simp_all add: ascii_cell_def)
  qed
  ultimately show "CHR 0x00 \<notin> set (dump_text b i sz)" by (auto simp: dump_text_def)
qed

lemma dump_text_length: "length (dump_text b i sz) < 110"
  using hex_cells_length[of 16 i sz] ascii_cells_length[of b i sz 16] by (simp add: dump_text_def)

text \<open>The lines of a dump, one for each 16 bytes.\<close>

definition dump_view :: "(u32 \<Rightarrow> u8) \<Rightarrow> u32 \<Rightarrow> ('s, 'a) debug_state_scheme \<Rightarrow> nat list \<Rightarrow> term_view \<Rightarrow> term_view" where
  "dump_view b sz s ks = fold (\<lambda>k. view_log (debug_target s) (terminal_serial_output s) (terminal_color s)
     (dump_text b (of_nat (16 * k)) sz @ [CHR 0x0D, CHR 0x0A])) ks"

context screen_memory
begin

lemma log_ok_trans: "log_ok dev u F s t \<Longrightarrow> log_ok dev u G t w \<Longrightarrow> log_ok dev u (\<lambda>v. G (F v)) s w"
  by (simp add: log_ok_def)

lemma log_ok_refl: "term_ok s \<Longrightarrow> log_ready dev u s \<Longrightarrow> log_ok dev u (\<lambda>v. v) s s"
  by (simp add: log_ok_def)

lemma debug_print_logs:
  fixes s :: "('s, 'a) debug_state_scheme"
  assumes ok: "term_ok s" "log_ready dev u s" and ps: "vpieces (cstr format) args = Some ps"
  shows "\<exists>t. debug_print ld st dev format args s = Inr t \<and>
    log_ok dev u (view_log (debug_target s) (terminal_serial_output s) (terminal_color s) (cstr (fit 1022 ps))) s t"
proof -
  let ?out = "fit 1022 ps" and ?buf = "debug_buffer s"
  let ?b = "write_at 0 (?out @ [CHR 0x00]) ?buf"
  have len: "length ?buf = 1024" using ok(2) by (simp add: log_ready_def)
  have o: "length ?out \<le> 1022" by (rule fit_length)
  have v: "vsnprintf ?buf 0 1023 format args = Inr (int (length ?out), ?b)"
    using vsnprintf_ok[of 1023 0 ?buf, OF _ _ _ ps] len by simp
  have z: "put (length ?out) (CHR 0x00) ?b = Inr ?b"
    using o len by (simp add: put_def write_at_def list_update_append)
  have lb: "length ?b = 1024" using o len by (subst write_at_length) simp_all
  obtain t where t: "debug_write ld st dev ?b (s\<lparr>debug_buffer := ?b\<rparr>) = Inr t"
    "log_ok dev u (view_log (debug_target s) (terminal_serial_output s) (terminal_color s) (cstr ?out))
      (s\<lparr>debug_buffer := ?b\<rparr>) t"
    using debug_write_logs[OF log_ready_buffer(1)[OF ok(1)] log_ready_buffer(2)[OF ok(2) lb], of ?b] lb
    by (auto simp: cstr_write_at)
  have "debug_print ld st dev format args s = debug_write ld st dev ?b (s\<lparr>debug_buffer := ?b\<rparr>)"
    using v z o by (simp add: debug_print_def debug_vprint_def Let_def)
  then show ?thesis using t log_ok_buffer by auto
qed

lemma dump_print_logs:
  fixes s :: "('s, 'a) debug_state_scheme"
  assumes ok: "term_ok s" "log_ready dev u s" and ln: "cstr ln = cstr (dump_text b i sz)"
  shows "\<exists>t. debug_print ld st dev (''%s'' @ [CHR 0x0D, CHR 0x0A]) [Va_str (Some ln)] s = Inr t \<and>
    log_ok dev u (view_log (debug_target s) (terminal_serial_output s) (terminal_color s)
      (dump_text b i sz @ [CHR 0x0D, CHR 0x0A])) s t"
proof -
  let ?x = "dump_text b i sz" let ?ps = "[Text ?x, Text [CHR 0x0D], Text [CHR 0x0A]]"
  have p: "vpieces (cstr (''%s'' @ [CHR 0x0D, CHR 0x0A])) [Va_str (Some ln)] = Some ?ps"
    by (simp add: ln[unfolded dump_text_clean] cstr_clean)
  have "fit 1022 ?ps = ?x @ [CHR 0x0D, CHR 0x0A]" using dump_text_length[of b i sz] by (subst fit_all) simp_all
  moreover have "cstr (?x @ [CHR 0x0D, CHR 0x0A]) = ?x @ [CHR 0x0D, CHR 0x0A]"
    using dump_text_clean[of b i sz] by (simp add: cstr_def)
  ultimately show ?thesis using debug_print_logs[OF ok p] by simp
qed

text \<open>A dump of readable memory that lies apart from the screen.\<close>

lemma dump_loop_logs:
  fixes s :: "('s, 'a) debug_state_scheme"
  assumes sz: "unat sz + 16 \<le> 2 ^ 32" and rd: "\<And>m k. Q m \<Longrightarrow> k < sz \<Longrightarrow> ld (data + k) m = Inr (b k)"
    and "term_ok s" "log_ready dev u s" and "k \<le> n" and n: "n = (unat sz + 15) div 16"
  shows "\<exists>t. dump_loop ld st dev data sz (of_nat (16 * k)) s = Some (Inr t) \<and>
    log_ok dev u (dump_view b sz s [k..<n]) s t"
  using assms(3-5)
proof (induction "n - k" arbitrary: k s)
  case 0
  then have "\<not> of_nat (16 * k) < sz" using n sz by (simp add: word_less_nat_alt unat_of_nat_u32 del: of_nat_mult)
  then show ?case using 0 by (subst dump_loop.simps) (simp add: dump_view_def log_ok_refl id_def del: of_nat_mult)
next
  case (Suc j)
  let ?i = "of_nat (16 * k) :: u32"
  have k: "k < n" using Suc.hyps(2) by simp
  then have "16 * k < unat sz" using n by simp
  then have i: "?i < sz" using sz by (simp add: word_less_nat_alt unat_of_nat_u32 del: of_nat_mult)
  have nx: "?i + 16 = of_nat (16 * (k + 1))" by simp
  have "ld (data + k) (vram s) = Inr (b k)" if "k < sz" for k
    using rd[of "vram s" k] that Suc.prems(1) by (simp add: term_ok_def)
  from dump_line_ok[where ld = ld and m = "vram s" and data = data and b = b and sz = sz, OF this]
  obtain ln where ln: "dump_line ld (vram s) data ?i sz = Inr ln" "cstr ln = cstr (dump_text b ?i sz)" by blast
  obtain t where t: "debug_print ld st dev (''%s'' @ [CHR 0x0D, CHR 0x0A]) [Va_str (Some ln)] s = Inr t"
    "log_ok dev u (view_log (debug_target s) (terminal_serial_output s) (terminal_color s)
      (dump_text b ?i sz @ [CHR 0x0D, CHR 0x0A])) s t"
    using dump_print_logs[OF Suc.prems(1,2) ln(2)] by blast
  have t': "term_ok t" "log_ready dev u t" "dump_view b sz t = dump_view b sz s"
    using t(2) by (simp_all add: log_ok_def dump_view_def[abs_def])
  have j: "j = n - (k + 1)" using Suc.hyps(2) by simp
  obtain w where w: "dump_loop ld st dev data sz (of_nat (16 * (k + 1))) t = Some (Inr w)"
    "log_ok dev u (dump_view b sz t [k + 1..<n]) t w"
    using Suc.hyps(1)[OF j t'(1,2)] k by auto
  have "dump_view b sz s [k..<n] = (\<lambda>v. dump_view b sz t [k + 1..<n] (view_log (debug_target s)
      (terminal_serial_output s) (terminal_color s) (dump_text b ?i sz @ [CHR 0x0D, CHR 0x0A]) v))"
    using k unfolding t'(3) by (simp add: dump_view_def upt_conv_Cons fun_eq_iff)
  then have "log_ok dev u (dump_view b sz s [k..<n]) s w" using log_ok_trans[OF t(2) w(2)] by simp
  then show ?case
    using i ln(1) t(1) w(1) by (subst dump_loop.simps) (simp add: nx del: of_nat_mult)
qed

lemma debug_init_logs:
  fixes s :: "('s, 'a) debug_state_scheme"
  assumes ok: "term_ok s" "length (debug_buffer s) = 1024" "\<not> debug_initialized s"
    and mirror: "\<not> terminal_serial_output s" "\<not> putchar_serial_output s" "\<not> serial_output_enabled s"
    and init: "serial_init_com1 dev s = (True, s1)" and live: "transmit_live dev COM1_PORT"
  shows "\<exists>t. debug_init ld st dev s = Inr t \<and>
    log_ok dev u (\<lambda>v. view_log 3 False (terminal_color s)
        (log_text 3 (map (\<lambda>c. Text [c]) ''Serial COM1 port initialized''))
      (view_log 3 False (terminal_color s) (log_text 3 (map (\<lambda>c. Text [c]) ''Debug subsystem initialized'')) v))
      (s1\<lparr>debug_level := 3, debug_target := 3, debug_initialized := True\<rparr>) t \<and>
    view u (s1\<lparr>debug_level := 3, debug_target := 3, debug_initialized := True\<rparr>) = view u s"
proof -
  let ?s = "s1\<lparr>debug_level := 3, debug_target := 3, debug_initialized := True\<rparr>"
  have m: "serial_state.more s1 = serial_state.more s"
    using init by (auto simp: serial_init_com1_def serial_init_def inb_def outb_def Let_def split: if_splits)
  note f = more_fields[OF m] debug_more_fields[OF more_fields(7)[OF m]]
  have tr: "transmitting (uart_after COM1_PORT u s1)" "line (uart_after COM1_PORT u s1) = line (uart_after COM1_PORT u s)"
    using serial_init_uart[where dev = dev and port = COM1_PORT and s = s and u = u] init
    by (simp_all add: serial_init_com1_def Let_def)
  have ok': "term_ok ?s" "log_ready dev u ?s"
    using ok live tr f by (simp_all add: term_ok_def log_ready_def uart_after_def)
  have pieces: "vpieces (cstr ''Debug subsystem initialized'') [] = Some (map (\<lambda>c. Text [c]) ''Debug subsystem initialized'')"
    "vpieces (cstr ''Serial COM1 port initialized'') [] = Some (map (\<lambda>c. Text [c]) ''Serial COM1 port initialized'')"
    by (simp_all add: cstr_def)
  have l: "3 \<le> debug_level ?s" by simp
  obtain t1 where t1: "debug_format_and_write ld st dev 3 ''Debug subsystem initialized'' [] ?s = Inr t1"
    "log_ok dev u (view_log 3 False (terminal_color s) (log_text 3 (map (\<lambda>c. Text [c]) ''Debug subsystem initialized''))) ?s t1"
    using debug_line_logs[OF ok' pieces(1) l] f mirror by auto
  have l1: "term_ok t1" "log_ready dev u t1" "3 \<le> debug_level t1" "debug_target t1 = 3"
    "\<not> terminal_serial_output t1" "terminal_color t1 = terminal_color s"
    using t1(2) f mirror by (simp_all add: log_ok_def)
  obtain t where t: "debug_format_and_write ld st dev 3 ''Serial COM1 port initialized'' [] t1 = Inr t"
    "log_ok dev u (view_log 3 False (terminal_color s) (log_text 3 (map (\<lambda>c. Text [c]) ''Serial COM1 port initialized''))) t1 t"
    using debug_line_logs[OF l1(1,2) pieces(2) l1(3)] l1 by auto
  have "debug_init ld st dev s = Inr t"
    using ok(3) init t1(1) t(1) by (simp add: debug_init_def debug_info_def)
  moreover have "view u ?s = view u s" using f tr(2) by (simp add: view_def uart_after_def)
  ultimately show ?thesis using log_ok_trans[OF t1(2) t(2)] by blast
qed

end

end
