(* ===== verification/Cells.thy ===== *)
theory Cells
  imports Libc_String
begin

text \<open>
  32-bit cells of a byte memory, little-endian as on the i386: what a C access through a
  \<^verbatim>\<open>uint32_t\<close> lvalue reads and writes. A page of memory is then an array of 1024 cells, and
  cells of page-aligned arrays either coincide or share no byte.
\<close>

section \<open>Reading and writing a cell\<close>

definition read32 :: "mem \<Rightarrow> u32 \<Rightarrow> u32" where
  "read32 m a = ucast (m a) OR push_bit 8 (ucast (m (a + 1))) OR
     push_bit 16 (ucast (m (a + 2))) OR push_bit 24 (ucast (m (a + 3)))"

definition write32 :: "u32 \<Rightarrow> u32 \<Rightarrow> mem \<Rightarrow> mem" where
  "write32 a v m = m(a := ucast v, a + 1 := ucast (drop_bit 8 v),
     a + 2 := ucast (drop_bit 16 v), a + 3 := ucast (drop_bit 24 v))"

text \<open>The same access through a load or store that can fault.\<close>

definition ld32 :: "(u32 \<Rightarrow> 's \<Rightarrow> u8 res) \<Rightarrow> u32 \<Rightarrow> 's \<Rightarrow> u32 res" where
  "ld32 ld a s =
     bindE (ld a s) (\<lambda>b0. bindE (ld (a + 1) s) (\<lambda>b1.
     bindE (ld (a + 2) s) (\<lambda>b2. bindE (ld (a + 3) s) (\<lambda>b3.
       Inr (ucast b0 OR push_bit 8 (ucast b1) OR push_bit 16 (ucast b2) OR push_bit 24 (ucast b3))))))"

definition st32 :: "(u32 \<Rightarrow> u8 \<Rightarrow> 's \<Rightarrow> 's res) \<Rightarrow> u32 \<Rightarrow> u32 \<Rightarrow> 's \<Rightarrow> 's res" where
  "st32 st a v s =
     bindE (st a (ucast v) s) (\<lambda>s. bindE (st (a + 1) (ucast (drop_bit 8 v)) s) (\<lambda>s.
     bindE (st (a + 2) (ucast (drop_bit 16 v)) s) (\<lambda>s. st (a + 3) (ucast (drop_bit 24 v)) s)))"

lemma bit_byte_of:
  "bit (push_bit k (ucast (ucast (drop_bit k v) :: u8)) :: u32) n \<longleftrightarrow> k \<le> n \<and> n < k + 8 \<and> bit v n"
  for v :: u32
  by (auto simp: bit_push_bit_iff bit_unsigned_iff bit_drop_bit_eq dest: bit_imp_le_length)

lemma four_bytes:
  "ucast (ucast v :: u8) OR push_bit 8 (ucast (ucast (drop_bit 8 v) :: u8)) OR
     push_bit 16 (ucast (ucast (drop_bit 16 v) :: u8)) OR
     push_bit 24 (ucast (ucast (drop_bit 24 v) :: u8)) = v" (is "?l = v") for v :: u32
proof (rule bit_word_eqI)
  fix n assume "n < LENGTH(32)"
  moreover have "bit (ucast (ucast v :: u8) :: u32) n \<longleftrightarrow> n < 8 \<and> bit v n"
    using bit_byte_of[of 0 v n] by simp
  ultimately show "bit ?l n = bit v n"
    unfolding bit_or_iff bit_byte_of by auto
qed

lemma read32_write32 [simp]: "read32 (write32 a v m) a = v"
proof -
  have ne: "a \<noteq> a + 1" "a \<noteq> a + 2" "a \<noteq> a + 3" "a + 1 \<noteq> a + 2" "a + 1 \<noteq> a + 3" "a + 2 \<noteq> a + 3"
    by simp_all
  then show ?thesis
    by (simp add: read32_def write32_def fun_upd_def four_bytes)
qed

lemma read32_cong:
  assumes "\<And>k. k < 4 \<Longrightarrow> m (a + k) = m' (a + k)"
  shows "read32 m a = read32 m' a"
  using assms[of 0] assms[of 1] assms[of 2] assms[of 3] by (simp add: read32_def)

lemma write32_other:
  assumes "\<And>k. k < 4 \<Longrightarrow> c \<noteq> a + k"
  shows "write32 a v m c = m c"
  using assms[of 0] assms[of 1] assms[of 2] assms[of 3] by (simp add: write32_def)

section \<open>Aligned blocks\<close>

text \<open>An offset below the alignment does not leave the block of its base.\<close>

lemma aligned_offset:
  fixes b i :: "'a::len word"
  assumes "take_bit n b = 0" "take_bit n i = i"
  shows "take_bit n (b + i) = i" and "(b + i) AND NOT (mask n) = b"
proof -
  have bits: "\<not> (bit b j \<and> j < n)" "bit i j \<longrightarrow> j < n" for j
  proof -
    show "\<not> (bit b j \<and> j < n)"
      using bit_take_bit_iff[of n b j] assms(1) by auto
    show "bit i j \<longrightarrow> j < n"
      using bit_take_bit_iff[of n i j] assms(2) by auto
  qed
  have "b AND i = 0"
    by (rule bit_eqI) (use bits in \<open>auto simp: bit_and_iff\<close>)
  then have sum: "b + i = b OR i" by (rule disjunctive_add_eq_or)
  show "take_bit n (b + i) = i"
    unfolding sum by (rule bit_eqI) (use bits in \<open>auto simp: bit_simps\<close>)
  show "(b + i) AND NOT (mask n) = b"
    unfolding sum by (rule bit_word_eqI) (use bits in \<open>auto simp: bit_simps\<close>)
qed

section \<open>Pages of 1024 cells\<close>

abbreviation (input) PAGE_FRAME :: u32 where "PAGE_FRAME \<equiv> 0xFFFFF000"

lemma page_masks:
  "a AND PAGE_FRAME = a AND NOT (mask 12)" "a AND 0xFFF = take_bit 12 a" for a :: u32
proof -
  have "PAGE_FRAME = NOT (mask 12)" "(0xFFF :: u32) = mask 12"
    by (simp_all add: mask_eq_exp_minus_1)
  then show "a AND PAGE_FRAME = a AND NOT (mask 12)" "a AND 0xFFF = take_bit 12 a"
    by (simp_all only: take_bit_eq_mask)
qed

lemma page_off_less: "a AND 0xFFF < 4096" for a :: u32
proof -
  have "unat (take_bit 12 a) < 2 ^ 12" by (simp add: take_bit_eq_mod unat_mod)
  then show ?thesis by (simp add: page_masks word_less_nat_alt)
qed

lemma take_bit_12_less: "take_bit 12 i = i \<longleftrightarrow> i < 4096" for i :: u32
proof -
  have "take_bit 12 i = i \<longleftrightarrow> take_bit 12 (unat i) = unat i"
    by (metis unsigned_take_bit_eq word_unat_eq_iff)
  then show ?thesis by (simp add: take_bit_nat_eq_self_iff word_less_nat_alt)
qed

lemma page_offset:
  assumes "b AND 0xFFF = 0" "i < (4096 :: u32)"
  shows "(b + i) AND PAGE_FRAME = b" "(b + i) AND 0xFFF = i"
  using aligned_offset[of 12 b i] assms by (simp_all add: page_masks take_bit_12_less)

lemma page_split: "(a AND PAGE_FRAME) + (a AND 0xFFF) = a" for a :: u32
proof -
  have "(a AND PAGE_FRAME) + (a AND 0xFFF) = (a AND PAGE_FRAME) OR (a AND 0xFFF)"
    by (rule disjunctive_add_eq_or, rule bit_word_eqI) (auto simp: page_masks bit_simps)
  also have "\<dots> = a" by (rule bit_word_eqI) (auto simp: page_masks bit_simps)
  finally show ?thesis .
qed

lemma page_frame_aligned [simp]: "(a AND PAGE_FRAME) AND 0xFFF = 0" for a :: u32
  by (rule bit_word_eqI) (auto simp: page_masks bit_simps)

lemma page_aligned_frame: "b AND 0xFFF = 0 \<Longrightarrow> b AND PAGE_FRAME = b" for b :: u32
  using page_split[of b] by simp

lemma in_page: "b AND 0xFFF = 0 \<Longrightarrow> in_region b 4096 c \<longleftrightarrow> c AND PAGE_FRAME = b"
proof -
  have "c - (c AND PAGE_FRAME) = c AND 0xFFF"
    using page_split[of c] by (metis add_diff_cancel_left')
  then show "b AND 0xFFF = 0 \<Longrightarrow> in_region b 4096 c \<longleftrightarrow> c AND PAGE_FRAME = b"
    using page_offset(1)[of b "c - b"] page_off_less[of c] by (auto simp: in_region_def)
qed

text \<open>Cell \<open>i\<close> of the table at \<open>b\<close>: the C expression \<^verbatim>\<open>(*table)[i]\<close>.\<close>

definition cell :: "u32 \<Rightarrow> u32 \<Rightarrow> u32" where
  "cell b i = b + 4 * i"

lemma cell_byte:
  assumes "b AND 0xFFF = 0" "i < 1024" "k < 4"
  shows "(cell b i + k) AND PAGE_FRAME = b" and "(cell b i + k) AND 0xFFF = 4 * i + k"
proof -
  have "4 * i + k < 4096"
    using assms(2,3) by (simp add: word_less_nat_alt unat_word_ariths)
  from page_offset[OF assms(1) this]
  show "(cell b i + k) AND PAGE_FRAME = b" "(cell b i + k) AND 0xFFF = 4 * i + k"
    by (simp_all add: cell_def add.assoc)
qed

lemma cell_byte_inj:
  assumes b: "b AND 0xFFF = 0" "c AND 0xFFF = 0" and i: "i < 1024" "j < 1024" "k < 4" "l < 4"
    and eq: "cell b i + k = cell c j + l"
  shows "b = c \<and> i = j"
proof
  show "b = c" using cell_byte(1)[OF b(1) i(1,3)] cell_byte(1)[OF b(2) i(2,4)] eq by simp
  have "4 * i + k = 4 * j + l"
    using cell_byte(2)[OF b(1) i(1,3)] cell_byte(2)[OF b(2) i(2,4)] eq by simp
  then have "unat (4 * i + k) = unat (4 * j + l)" by simp
  then have "4 * unat i + unat k = 4 * unat j + unat l"
    using i by (simp add: word_less_nat_alt unat_word_ariths)
  then have "unat i = unat j" using i(3,4) by (simp add: word_less_nat_alt) 
  then show "i = j" by (simp add: word_unat_eq_iff)
qed

text \<open>Reading a cell after a store to a cell, after clearing a page, and after one byte elsewhere.\<close>

lemma read_cell_write:
  assumes "b AND 0xFFF = 0" "c AND 0xFFF = 0" "i < 1024" "j < 1024"
  shows "read32 (write32 (cell b i) v m) (cell c j) =
    (if b = c \<and> i = j then v else read32 m (cell c j))"
proof (cases "b = c \<and> i = j")
  case False
  have "write32 (cell b i) v m (cell c j + k) = m (cell c j + k)" if "k < 4" for k
    using cell_byte_inj[OF assms(2,1,4,3) that] False by (intro write32_other) blast
  with False show ?thesis by (auto intro: read32_cong)
qed simp

definition clear_page :: "u32 \<Rightarrow> mem \<Rightarrow> mem" where
  "clear_page b m = (\<lambda>a. if a AND PAGE_FRAME = b then 0 else m a)"

lemma read_cell_clear:
  assumes "c AND 0xFFF = 0" "j < 1024"
  shows "read32 (clear_page b m) (cell c j) = (if c = b then 0 else read32 m (cell c j))"
proof (cases "c = b")
  case True
  then have "clear_page b m (cell c j + k) = 0" if "k < 4" for k
    using cell_byte(1)[OF assms that] by (simp add: clear_page_def)
  then have "read32 (clear_page b m) (cell c j) = read32 (\<lambda>_. 0) (cell c j)"
    by (intro read32_cong) simp
  with True show ?thesis by (simp add: read32_def)
next
  case False
  then show ?thesis
    using cell_byte(1)[OF assms] by (auto intro!: read32_cong simp: clear_page_def)
qed

section \<open>Cells of an abstract byte memory\<close>

context byte_memory
begin

lemma ld32_ok:
  assumes "\<And>k. k < 4 \<Longrightarrow> ok s (a + k)"
  shows "ld32 ld a s = Inr (read32 (rd s) a)"
  using assms[of 0] assms[of 1] assms[of 2] assms[of 3] by (simp add: ld32_def ld_ok read32_def)

lemma st32_ok:
  assumes "\<And>k. k < 4 \<Longrightarrow> ok s (a + k)"
  shows "st32 st a v s = Inr (wr (a + 3) (ucast (drop_bit 24 v)) (wr (a + 2) (ucast (drop_bit 16 v))
    (wr (a + 1) (ucast (drop_bit 8 v)) (wr a (ucast v) s))))"
  using assms[of 0] assms[of 1] assms[of 2] assms[of 3] by (simp add: st32_def st_ok ok_wr)

end

end
