(* ===== verification/Frames.thy ===== *)
theory Frames
  imports Kernel_Log
begin

text \<open>
  The physical frame allocator of \<^verbatim>\<open>src/kernel/kernel/paging.c\<close> (lines 16 to 116): a bitmap of
  512 words, one bit for each 4 KiB frame of the first 64 MiB. The bitmap refines a set of used
  frame numbers; the locale \<open>frame_allocator\<close> is the contract the page-table code builds on.
\<close>

section \<open>The bitmap and its operations\<close>

abbreviation (input) PAGE_SIZE :: u32 where "PAGE_SIZE \<equiv> 4096"
abbreviation (input) TOTAL_FRAMES :: u32 where "TOTAL_FRAMES \<equiv> 16384"
abbreviation (input) BITMAP_SIZE :: u32 where "BITMAP_SIZE \<equiv> 512"

record frame_state = log_state +
  frame_bitmap :: "u32 list"

definition set_frame :: "u32 \<Rightarrow> 'a frame_state_scheme \<Rightarrow> 'a frame_state_scheme" where
  "set_frame frame_addr s =
     (let frame = frame_addr div PAGE_SIZE;
          idx = frame div 32;
          off = frame mod 32
      in if idx \<ge> BITMAP_SIZE
         then log_debug DEBUG_LEVEL_ERROR ''set_frame: Frame index %u out of bounds (max %u)''
                [Va_int idx, Va_int (BITMAP_SIZE - 1)] s
         else s\<lparr>frame_bitmap := (frame_bitmap s)
                 [unat idx := frame_bitmap s ! unat idx OR push_bit (unat off) 1]\<rparr>)"

definition clear_frame :: "u32 \<Rightarrow> 'a frame_state_scheme \<Rightarrow> 'a frame_state_scheme" where
  "clear_frame frame_addr s =
     (let frame = frame_addr div PAGE_SIZE;
          idx = frame div 32;
          off = frame mod 32
      in if idx \<ge> BITMAP_SIZE
         then log_debug DEBUG_LEVEL_ERROR ''clear_frame: Frame index %u out of bounds (max %u)''
                [Va_int idx, Va_int (BITMAP_SIZE - 1)] s
         else s\<lparr>frame_bitmap := (frame_bitmap s)
                 [unat idx := frame_bitmap s ! unat idx AND NOT (push_bit (unat off) 1)]\<rparr>)"

definition test_frame :: "u32 \<Rightarrow> 'a frame_state_scheme \<Rightarrow> u32 \<times> 'a frame_state_scheme" where
  "test_frame frame_addr s =
     (let frame = frame_addr div PAGE_SIZE;
          idx = frame div 32;
          off = frame mod 32
      in if idx \<ge> BITMAP_SIZE
         then (0, log_debug DEBUG_LEVEL_ERROR ''test_frame: Frame index %u out of bounds (max %u)''
                    [Va_int idx, Va_int (BITMAP_SIZE - 1)] s)
         else (frame_bitmap s ! unat idx AND push_bit (unat off) 1, s))"

text \<open>The two nested loops of \<^verbatim>\<open>first_free_frame\<close>, with their early return.\<close>

definition free_bit :: "u32 \<Rightarrow> u32 option" where
  "free_bit w = find_range 0 32 (\<lambda>j. if w AND push_bit (unat j) 1 = 0 then Some j else None)"

definition free_in_word :: "u32 list \<Rightarrow> u32 \<Rightarrow> u32 option" where
  "free_in_word bm i =
     (if bm ! unat i \<noteq> 0xFFFFFFFF then map_option (\<lambda>j. i * 32 + j) (free_bit (bm ! unat i)) else None)"

definition first_free_frame :: "'a frame_state_scheme \<Rightarrow> u32 \<times> 'a frame_state_scheme" where
  "first_free_frame s =
     (case find_range 0 BITMAP_SIZE (free_in_word (frame_bitmap s)) of
        Some frame \<Rightarrow> (frame, s)
      | None \<Rightarrow> (- 1, log_debug DEBUG_LEVEL_ERROR ''No free frames available!'' [] s))"

definition alloc_frame :: "'a frame_state_scheme \<Rightarrow> u32 \<times> 'a frame_state_scheme" where
  "alloc_frame s =
     (let (frame, s) = first_free_frame s
      in if frame = - 1 then (0, s)
         else let frame_addr = frame * PAGE_SIZE;
                  s = log_debug DEBUG_LEVEL_DEBUG ''Allocated frame at physical address %x''
                        [Va_int frame_addr] s
              in (frame_addr, set_frame frame_addr s))"

definition free_frame :: "u32 \<Rightarrow> 'a frame_state_scheme \<Rightarrow> 'a frame_state_scheme" where
  "free_frame frame_addr s =
     clear_frame frame_addr
       (log_debug DEBUG_LEVEL_DEBUG ''Freeing frame at physical address %x'' [Va_int frame_addr] s)"

section \<open>The set of used frames\<close>

definition bitmap_ok :: "'a frame_state_scheme \<Rightarrow> bool" where
  "bitmap_ok s \<longleftrightarrow> length (frame_bitmap s) = 512"

definition used :: "'a frame_state_scheme \<Rightarrow> nat set" where
  "used s = {f. f < 16384 \<and> bit (frame_bitmap s ! (f div 32)) (f mod 32)}"

lemma used_log [simp]:
  "used (log_debug l f a s) = used s" "used (log_printf f a s) = used s"
  "bitmap_ok (log_debug l f a s) = bitmap_ok s" "bitmap_ok (log_printf f a s) = bitmap_ok s"
  by (simp_all add: used_def log_debug_def log_printf_def bitmap_ok_def)

lemma used_bound: "used s \<subseteq> {..<16384}"
  by (auto simp: used_def)

text \<open>The index and the bit a frame address selects, as natural numbers.\<close>

lemma frame_index:
  "unat (a div PAGE_SIZE div 32) = unat a div 4096 div 32"
  "unat (a div PAGE_SIZE mod 32) = unat a div 4096 mod 32"
  "a div PAGE_SIZE div 32 \<ge> BITMAP_SIZE \<longleftrightarrow> \<not> unat a div 4096 < 16384"
proof -
  show *: "unat (a div PAGE_SIZE div 32) = unat a div 4096 div 32"
    "unat (a div PAGE_SIZE mod 32) = unat a div 4096 mod 32"
    by (simp_all add: unat_div unat_mod)
  show "a div PAGE_SIZE div 32 \<ge> BITMAP_SIZE \<longleftrightarrow> \<not> unat a div 4096 < 16384"
    unfolding word_le_nat_alt * by auto
qed

lemma div_mod_32_eq: "f div 32 = g div 32 \<Longrightarrow> f mod 32 = g mod 32 \<Longrightarrow> f = g" for f g :: nat
  by (metis div_mult_mod_eq)

lemmas bitmap_simps = frame_index used_def bitmap_ok_def nth_list_update bit_word_masks
  log_debug_def Let_def

lemma bitmap_ok_ops [simp]:
  "bitmap_ok (set_frame a s) = bitmap_ok s"
  "bitmap_ok (clear_frame a s) = bitmap_ok s"
  by (simp_all add: set_frame_def clear_frame_def Let_def) (simp_all add: bitmap_ok_def)

lemma used_set_frame:
  assumes "bitmap_ok s"
  shows "used (set_frame a s) =
    (if unat a div 4096 < 16384 then insert (unat a div 4096) (used s) else used s)"
  using assms
  by (auto simp: set_frame_def bitmap_simps dest: div_mod_32_eq split: if_splits)

lemma used_clear_frame:
  assumes "bitmap_ok s"
  shows "used (clear_frame a s) = used s - {unat a div 4096}"
  using assms
  by (auto simp: clear_frame_def bitmap_simps dest: div_mod_32_eq split: if_splits)

lemma test_frame_used:
  assumes "bitmap_ok s"
  shows "fst (test_frame a s) \<noteq> 0 \<longleftrightarrow> unat a div 4096 \<in> used s"
  using assms by (auto simp: test_frame_def bitmap_simps)

text \<open>The search.\<close>

lemma free_bit_Some:
  assumes "free_bit w = Some j"
  shows "j < 32 \<and> \<not> bit w (unat j) \<and> (\<forall>i<unat j. bit w i)"
proof -
  let ?f = "\<lambda>j :: u32. if w AND push_bit (unat j) 1 = 0 then Some j else None"
  obtain k where k: "k < 32" "?f k = Some j" "\<And>i. 0 \<le> i \<Longrightarrow> i < k \<Longrightarrow> ?f i = None"
    using assms unfolding free_bit_def by (rule find_range_Some) blast
  have j: "k = j" "unat k < 32" "w AND 2 ^ unat k = 0"
    using k(1,2) by (auto simp: word_less_nat_alt split: if_splits)
  have "bit w i" if "i < unat k" for i
    using k(3)[of "of_nat i"] of_nat_below[OF that] that j(2)
    by (simp add: unat_of_nat_below bit_word_masks split: if_splits)
  with k(1) j show ?thesis by (simp add: bit_word_masks)
qed

lemma free_bit_None:
  assumes "free_bit w = None"
  shows "w = - 1"
proof -
  have "bit w i" if "i < 32" for i
  proof -
    have i: "i < unat (32 :: u32)" using that by simp
    have "w AND 2 ^ unat (of_nat i :: u32) \<noteq> 0"
      using assms of_nat_below[OF i]
      unfolding free_bit_def find_range_None by (auto split: if_splits)
    with that show ?thesis by (simp add: unat_of_nat_below[OF i] bit_word_masks)
  qed
  then show ?thesis by (simp add: word_full_iff)
qed

lemma free_in_word_None: "free_in_word bm i = None \<longleftrightarrow> bm ! unat i = - 1"
  by (auto simp: free_in_word_def dest: free_bit_None)

lemma free_in_word_Some:
  assumes "free_in_word bm i = Some frame" "i < 512"
  shows "unat frame div 32 = unat i \<and> \<not> bit (bm ! unat i) (unat frame mod 32) \<and>
    (\<forall>k<unat frame mod 32. bit (bm ! unat i) k)"
proof -
  obtain j where j: "free_bit (bm ! unat i) = Some j" "frame = i * 32 + j"
    using assms(1) by (auto simp: free_in_word_def split: if_splits)
  have "unat i < 512" "unat j < 32"
    using assms(2) free_bit_Some[OF j(1)] by (auto simp: word_less_nat_alt)
  then have "unat frame = unat i * 32 + unat j"
    unfolding j(2) by (simp add: unat_word_ariths)
  with free_bit_Some[OF j(1)] \<open>unat j < 32\<close> show ?thesis by simp
qed

lemma first_free_frame_full:
  assumes "used s = {..<16384}"
  shows "first_free_frame s = (- 1, log_debug DEBUG_LEVEL_ERROR ''No free frames available!'' [] s)"
proof -
  have "frame_bitmap s ! unat i = - 1" if "i < 512" for i :: u32
  proof -
    have "bit (frame_bitmap s ! unat i) k" if "k < 32" for k
    proof -
      have "unat i * 32 + k \<in> used s"
        using assms \<open>i < 512\<close> that by (simp add: word_less_nat_alt)
      then show ?thesis using that by (simp add: used_def)
    qed
    then show ?thesis by (simp add: word_full_iff)
  qed
  then have "find_range 0 BITMAP_SIZE (free_in_word (frame_bitmap s)) = None"
    by (simp add: find_range_None free_in_word_None)
  then show ?thesis by (simp add: first_free_frame_def)
qed

lemma first_free_frame_least:
  assumes "used s \<noteq> {..<16384}"
  obtains f where "f < 16384" "f \<notin> used s" "\<forall>g<f. g \<in> used s"
    "first_free_frame s = (of_nat f, s)"
proof (cases "find_range 0 BITMAP_SIZE (free_in_word (frame_bitmap s))")
  case None
  have "f \<in> used s" if "f < 16384" for f
  proof -
    have i: "f div 32 < unat (BITMAP_SIZE)" using that by simp
    then have "frame_bitmap s ! (f div 32) = - 1"
      using None of_nat_below[OF i] unat_of_nat_below[OF i]
      by (auto simp: find_range_None free_in_word_None)
    then show ?thesis using that by (simp add: used_def)
  qed
  with assms used_bound[of s] show ?thesis by blast
next
  case (Some frame)
  then obtain i where i: "i < 512" "free_in_word (frame_bitmap s) i = Some frame"
    "\<And>j. 0 \<le> j \<Longrightarrow> j < i \<Longrightarrow> free_in_word (frame_bitmap s) j = None"
    by (rule find_range_Some) blast
  note fr = free_in_word_Some[OF i(2,1)]
  have i512: "unat i < 512" using i(1) by (simp add: word_less_nat_alt)
  have lt: "unat frame < 16384" using fr i512 by linarith
  show ?thesis
  proof (rule that[of "unat frame"])
    show "unat frame \<notin> used s" using fr by (simp add: used_def)
    have "g \<in> used s" if g: "g < unat frame" for g
    proof (cases "g div 32 = unat i")
      case True
      then have "g mod 32 < unat frame mod 32"
        using g fr by (metis div_mult_mod_eq nat_add_left_cancel_less)
      with fr True g lt show ?thesis by (simp add: used_def)
    next
      case False
      then have g': "g div 32 < unat i" using g fr div_le_mono[of g "unat frame" 32] by simp
      then have "frame_bitmap s ! (g div 32) = - 1"
        using i(3)[of "of_nat (g div 32)"] of_nat_below[OF g'] unat_of_nat_below[OF g']
        by (simp add: free_in_word_None)
      with g lt show ?thesis by (simp add: used_def)
    qed
    then show "\<forall>g<unat frame. g \<in> used s" by blast
  qed (use lt Some in \<open>simp_all add: first_free_frame_def\<close>)
qed

section \<open>The contract of a frame allocator\<close>

text \<open>
  What the page-table code relies on. A frame is named by its number; \<open>alloc\<close> hands out the
  address of the least free frame, or 0 when there is none, and \<open>free\<close> takes an address back.
\<close>

locale frame_allocator =
  fixes alloc :: "'s \<Rightarrow> u32 \<times> 's"
    and free :: "u32 \<Rightarrow> 's \<Rightarrow> 's"
    and frames :: "'s \<Rightarrow> nat set"
    and inv :: "'s \<Rightarrow> bool"
  assumes frames_bound: "inv s \<Longrightarrow> frames s \<subseteq> {..<16384}"
    and alloc_full: "inv s \<Longrightarrow> frames s = {..<16384} \<Longrightarrow>
          fst (alloc s) = 0 \<and> frames (snd (alloc s)) = frames s"
    and alloc_least: "inv s \<Longrightarrow> f < 16384 \<Longrightarrow> f \<notin> frames s \<Longrightarrow> (\<forall>g<f. g \<in> frames s) \<Longrightarrow>
          fst (alloc s) = of_nat (f * 4096) \<and> frames (snd (alloc s)) = insert f (frames s)"
    and free_frames: "inv s \<Longrightarrow> frames (free a s) = frames s - {unat a div 4096}"
    and inv_alloc: "inv s \<Longrightarrow> inv (snd (alloc s))"
    and inv_free: "inv s \<Longrightarrow> inv (free a s)"
begin

lemma least_free:
  assumes "inv s" "frames s \<noteq> {..<16384}"
  obtains f where "f < 16384" "f \<notin> frames s" "\<forall>g<f. g \<in> frames s"
proof -
  obtain h where h: "h < 16384" "h \<notin> frames s"
    using assms frames_bound[OF assms(1)] by blast
  then obtain f where f: "f \<notin> frames s" "\<forall>g<f. g \<in> frames s"
    using exists_least_iff[of "\<lambda>f. f \<notin> frames s"] by blast
  then have "f < 16384" using h by (meson linorder_not_less order.strict_trans1)
  with f show ?thesis using that by blast
qed

text \<open>
  With frame 0 reserved, the address 0 means failure and nothing else; any other answer is the
  page-aligned address of a frame that was free and is used from then on.
\<close>

lemma alloc_cases:
  assumes "inv s" "0 \<in> frames s" and al: "alloc s = (a, s')"
  obtains (fail) "a = 0" "frames s = {..<16384}" "frames s' = frames s"
  | (frame) f where "a = of_nat (f * 4096)" "unat a = f * 4096" "a \<noteq> 0" "f < 16384" "f \<notin> frames s"
      "\<forall>g<f. g \<in> frames s" "frames s' = insert f (frames s)"
proof (cases "frames s = {..<16384}")
  case True
  then show ?thesis using alloc_full[OF assms(1) True] al by (intro fail) auto
next
  case False
  obtain f where f: "f < 16384" "f \<notin> frames s" "\<forall>g<f. g \<in> frames s"
    using least_free[OF assms(1) False] by blast
  have "f \<noteq> 0" using f(2) assms(2) by metis
  have a: "a = of_nat (f * 4096)" "frames s' = insert f (frames s)"
    using alloc_least[OF assms(1) f] al by auto
  have "unat a = f * 4096" unfolding a(1) using f(1) by (subst unat_of_nat) (simp add: take_bit_eq_mod)
  moreover from this \<open>f \<noteq> 0\<close> have "a \<noteq> 0" by auto
  ultimately show ?thesis using a f by (intro frame) auto
qed

end

text \<open>
  Runs of a client that allocates and frees: from \<open>s0\<close> the client can reach \<open>s\<close> holding the
  addresses in \<open>held\<close>. It frees only addresses it holds.
\<close>

inductive alloc_run :: "('s \<Rightarrow> u32 \<times> 's) \<Rightarrow> (u32 \<Rightarrow> 's \<Rightarrow> 's) \<Rightarrow> 's \<Rightarrow> 's \<Rightarrow> u32 set \<Rightarrow> bool"
  for alloc free s0 where
  run_start: "alloc_run alloc free s0 s0 {}"
| run_alloc: "alloc_run alloc free s0 s held \<Longrightarrow> alloc s = (a, s') \<Longrightarrow> a \<noteq> 0 \<Longrightarrow>
     alloc_run alloc free s0 s' (insert a held)"
| run_fail: "alloc_run alloc free s0 s held \<Longrightarrow> alloc s = (0, s') \<Longrightarrow>
     alloc_run alloc free s0 s' held"
| run_free: "alloc_run alloc free s0 s held \<Longrightarrow> a \<in> held \<Longrightarrow>
     alloc_run alloc free s0 (free a s) (held - {a})"

definition frame_no :: "u32 \<Rightarrow> nat" where
  "frame_no a = unat a div 4096"

context frame_allocator
begin

text \<open>The ownership invariant of a run.\<close>

definition owns :: "'s \<Rightarrow> 's \<Rightarrow> u32 set \<Rightarrow> bool" where
  "owns s0 s held \<longleftrightarrow> inv s \<and> 0 \<in> frames s0 \<and> frames s = frames s0 \<union> frame_no ` held \<and>
     inj_on frame_no held \<and> frame_no ` held \<inter> frames s0 = {} \<and>
     (\<forall>a\<in>held. unat a = frame_no a * 4096 \<and> frame_no a < 16384)"

lemma owns_alloc:
  assumes o: "owns s0 s held" and al: "alloc s = (a, s')" and "a \<noteq> 0"
  shows "owns s0 s' (insert a held) \<and> a \<notin> held"
proof -
  have i: "inv s" and z: "0 \<in> frames s" and fr: "frames s = frames s0 \<union> frame_no ` held"
    using o by (auto simp: owns_def)
  have i': "inv s'" using inv_alloc[OF i] al by simp
  from i z al show ?thesis
  proof (cases rule: alloc_cases)
    case fail
    with \<open>a \<noteq> 0\<close> show ?thesis by simp
  next
    case (frame f)
    then have "frame_no a = f" by (simp add: frame_no_def)
    moreover from this frame(5) have "a \<notin> held" by (auto simp: fr)
    ultimately show ?thesis using o i' frame fr by (auto simp: owns_def)
  qed
qed

lemma owns_fail:
  assumes o: "owns s0 s held" and al: "alloc s = (0, s')"
  shows "owns s0 s' held"
proof -
  have i: "inv s" and z: "0 \<in> frames s"
    using o by (auto simp: owns_def)
  from i z al have "frames s' = frames s"
    by (cases rule: alloc_cases) auto
  then show ?thesis using o inv_alloc[OF i] al by (simp add: owns_def)
qed

lemma owns_free:
  assumes o: "owns s0 s held" and a: "a \<in> held"
  shows "owns s0 (free a s) (held - {a})"
proof -
  have i: "inv s" using o by (simp add: owns_def)
  have "frame_no ` (held - {a}) = frame_no ` held - {frame_no a}"
    using o a by (auto simp: owns_def inj_on_def)
  moreover have "frame_no a \<notin> frames s0" using o a by (auto simp: owns_def)
  moreover have "frames s = frames s0 \<union> frame_no ` held" using o by (simp add: owns_def)
  ultimately have "frames (free a s) = frames s0 \<union> frame_no ` (held - {a})"
    unfolding free_frames[OF i] frame_no_def[of a, symmetric] by blast
  moreover have "frame_no ` (held - {a}) \<inter> frames s0 = {}"
    using o by (auto simp: owns_def)
  ultimately show ?thesis
    using o inv_free[OF i] by (simp add: owns_def inj_on_diff)
qed

lemma run_owns:
  assumes "alloc_run alloc free s0 s held" "inv s0" "0 \<in> frames s0"
  shows "owns s0 s held"
  using assms
proof (induction rule: alloc_run.induct)
  case run_start
  then show ?case by (simp add: owns_def)
next
  case (run_alloc s held a s')
  then show ?case using owns_alloc[of s0 s held a s'] by simp
next
  case (run_fail s held s')
  then show ?case using owns_fail[of s0 s held s'] by simp
next
  case (run_free s held a)
  then show ?case using owns_free[of s0 s held a] by simp
qed

end

section \<open>The bitmap allocator meets the contract\<close>

lemma alloc_frame_full:
  "used s = {..<16384} \<Longrightarrow>
     alloc_frame s = (0, log_debug DEBUG_LEVEL_ERROR ''No free frames available!'' [] s)"
  by (simp add: alloc_frame_def first_free_frame_full)

lemma alloc_frame_least:
  assumes "f < 16384" "f \<notin> used s" "\<forall>g<f. g \<in> used s"
  shows "alloc_frame s = (of_nat (f * 4096), set_frame (of_nat (f * 4096))
    (log_debug DEBUG_LEVEL_DEBUG ''Allocated frame at physical address %x''
       [Va_int (of_nat (f * 4096))] s))"
proof -
  have "used s \<noteq> {..<16384}" using assms by auto
  then obtain h where h: "h < 16384" "h \<notin> used s" "\<forall>g<h. g \<in> used s"
    "first_free_frame s = (of_nat h, s)" by (rule first_free_frame_least)
  have "h = f" using h assms by (metis linorder_neqE_nat)
  moreover have "(of_nat f :: u32) \<noteq> - 1"
    using of_nat_below[of f "16384 :: u32"] assms(1) by auto
  ultimately show ?thesis using h(4) by (simp add: alloc_frame_def Let_def)
qed

lemma frame_no_of_nat: "f < 16384 \<Longrightarrow> unat (of_nat (f * 4096) :: u32) div 4096 = f"
  by (subst unat_of_nat) (simp add: take_bit_eq_mod)

interpretation bitmap: frame_allocator alloc_frame free_frame used bitmap_ok
proof
  fix s :: "'a frame_state_scheme" assume ok: "bitmap_ok s"
  show "used s \<subseteq> {..<16384}" by (rule used_bound)
  show "fst (alloc_frame s) = 0 \<and> used (snd (alloc_frame s)) = used s" if "used s = {..<16384}"
    using that by (simp add: alloc_frame_full)
  show "fst (alloc_frame s) = of_nat (f * 4096) \<and> used (snd (alloc_frame s)) = insert f (used s)"
    if "f < 16384" "f \<notin> used s" "\<forall>g<f. g \<in> used s" for f
    using ok that frame_no_of_nat[OF that(1)] by (simp add: alloc_frame_least used_set_frame)
  show "used (free_frame a s) = used s - {unat a div 4096}" for a
    using ok by (simp add: free_frame_def used_clear_frame)
  show "bitmap_ok (snd (alloc_frame s))"
    using ok by (auto simp: alloc_frame_def first_free_frame_def Let_def split: option.splits)
  show "bitmap_ok (free_frame a s)" for a
    using ok by (simp add: free_frame_def)
qed

text \<open>A bitmap is determined by the set it stands for.\<close>

lemma used_inject:
  assumes "bitmap_ok s" "bitmap_ok t" "used s = used t"
  shows "frame_bitmap s = frame_bitmap t"
proof (rule nth_equalityI)
  show "length (frame_bitmap s) = length (frame_bitmap t)"
    using assms by (simp add: bitmap_ok_def)
  fix i assume "i < length (frame_bitmap s)"
  then have i: "i < 512" using assms by (simp add: bitmap_ok_def)
  have "bit (frame_bitmap s ! i) k = bit (frame_bitmap t ! i) k" if "k < 32" for k
  proof -
    have "32 * i + k \<in> used s \<longleftrightarrow> 32 * i + k \<in> used t" using assms(3) by simp
    then show ?thesis using i that by (simp add: used_def)
  qed
  then show "frame_bitmap s ! i = frame_bitmap t ! i"
    by (intro bit_word_eqI) simp
qed

section \<open>Properties\<close>

text \<open>
  C9. Exclusive ownership: whatever sequence of allocations and frees a client has made since a
  state in which frame 0 was reserved, the bitmap marks exactly the frames that were used then
  and those the client holds; the addresses it holds are page-aligned, lie below 64 MiB, name
  pairwise different frames none of which was in use at the start, and the next successful
  allocation returns an address it does not hold.
\<close>

theorem alloc_run_exclusive:
  assumes "alloc_run alloc_frame free_frame s0 s held" and "bitmap_ok s0" and "0 \<in> used s0"
  shows "used s = used s0 \<union> frame_no ` held \<and> inj_on frame_no held \<and>
    frame_no ` held \<inter> used s0 = {} \<and>
    (\<forall>a\<in>held. unat a = frame_no a * 4096 \<and> frame_no a < 16384) \<and>
    (fst (alloc_frame s) \<noteq> 0 \<longrightarrow> fst (alloc_frame s) \<notin> held)"
proof -
  have o: "bitmap.owns s0 s held" by (rule bitmap.run_owns[OF assms])
  then show ?thesis
    using bitmap.owns_alloc[OF o, of "fst (alloc_frame s)" "snd (alloc_frame s)"]
    by (simp add: bitmap.owns_def)
qed

definition one_frame :: frame_state where
  "one_frame = \<lparr>klog = [], frame_bitmap = 1 # replicate 511 0\<rparr>"

lemma one_frame: "bitmap_ok one_frame" "used one_frame = {0}"
proof -
  have nth: "frame_bitmap one_frame ! i = (if i = 0 then 1 else 0)" if "i < 512" for i
    using that by (cases i) (simp_all add: one_frame_def)
  show "used one_frame = {0}"
    by (auto simp: used_def nth bit_1_iff split: if_splits)
  show "bitmap_ok one_frame" by (simp add: bitmap_ok_def one_frame_def)
qed

theorem alloc_run_exclusive_witness:
  "\<exists>s. alloc_run alloc_frame free_frame one_frame s {4096} \<and> used s = {0, 1} \<and>
       bitmap_ok one_frame \<and> 0 \<in> used one_frame"
proof -
  have "alloc_frame one_frame = (4096, snd (alloc_frame one_frame))"
    using alloc_frame_least[of 1 one_frame] one_frame by simp
  then have r: "alloc_run alloc_frame free_frame one_frame (snd (alloc_frame one_frame)) {4096}"
    by (auto intro: alloc_run.intros)
  show ?thesis
    using alloc_run_exclusive[OF r one_frame(1)] r one_frame
    by (intro exI[of _ "snd (alloc_frame one_frame)"]) (auto simp: frame_no_def)
qed

text \<open>
  C10. The two-level search of \<^verbatim>\<open>first_free_frame\<close>, which skips full words and then looks for a
  clear bit, finds what a linear scan of all frame numbers finds: the least free frame, or
  \<^verbatim>\<open>(uint32_t)-1\<close> when every frame is used.
\<close>

theorem first_free_frame_linear:
  "fst (first_free_frame s) =
     (case find (\<lambda>f. f \<notin> used s) [0..<16384] of Some f \<Rightarrow> of_nat f | None \<Rightarrow> - 1)"
proof (cases "used s = {..<16384}")
  case True
  then have "find (\<lambda>f. f \<notin> used s) [0..<16384] = None" by (auto simp: find_None_iff)
  with True show ?thesis by (simp add: first_free_frame_full)
next
  case False
  then obtain f where f: "f < 16384" "f \<notin> used s" "\<forall>g<f. g \<in> used s"
    "first_free_frame s = (of_nat f, s)" by (rule first_free_frame_least)
  then have "find (\<lambda>f. f \<notin> used s) [0..<16384] = Some f"
    by (auto simp: find_Some_iff)
  with f(4) show ?thesis by simp
qed

text \<open>
  C11. The bitmap operations refine the operations on the set of used frames, on every address:
  setting, clearing and testing act on the frame the address lies in, and an address at or
  above 64 MiB changes nothing and tests as free.
\<close>

theorem frame_ops_refine:
  assumes "bitmap_ok s"
  shows "used (set_frame a s) = used s \<union> ({frame_no a} \<inter> {..<16384}) \<and>
    used (clear_frame a s) = used s - {frame_no a} \<and>
    (fst (test_frame a s) \<noteq> 0 \<longleftrightarrow> frame_no a \<in> used s) \<and>
    bitmap_ok (set_frame a s) \<and> bitmap_ok (clear_frame a s)"
  using assms
  by (auto simp: used_set_frame used_clear_frame test_frame_used frame_no_def)

theorem frame_ops_refine_witness:
  "bitmap_ok one_frame \<and> used (set_frame 0x5123 one_frame) = {0, 5} \<and>
   used (clear_frame 0xFFF one_frame) = {} \<and> fst (test_frame 0x4000000 one_frame) = 0"
  using frame_ops_refine[OF one_frame(1), of "0x5123"] frame_ops_refine[OF one_frame(1), of "0xFFF"]
    frame_ops_refine[OF one_frame(1), of "0x4000000"] one_frame
  by (auto simp: frame_no_def)

text \<open>
  Freeing what an allocation returned restores the bitmap bit for bit.
\<close>

theorem alloc_free_roundtrip:
  assumes "bitmap_ok s" and "0 \<in> used s" and "fst (alloc_frame s) \<noteq> 0"
  shows "frame_bitmap (free_frame (fst (alloc_frame s)) (snd (alloc_frame s))) = frame_bitmap s"
proof -
  let ?a = "fst (alloc_frame s)" and ?s = "snd (alloc_frame s)"
  have ok: "bitmap_ok ?s" using assms(1) by (rule bitmap.inv_alloc)
  have "alloc_frame s = (?a, ?s)" by simp
  from bitmap.alloc_cases[OF assms(1,2) this] have "used (free_frame ?a ?s) = used s"
    using assms(3) bitmap.free_frames[OF ok, of ?a] by (metis Diff_insert_absorb nonzero_mult_div_cancel_right zero_neq_numeral)
  then show ?thesis
    using assms(1) bitmap.inv_free[OF ok] by (intro used_inject)
qed

theorem alloc_free_roundtrip_witness:
  "bitmap_ok one_frame \<and> 0 \<in> used one_frame \<and> fst (alloc_frame one_frame) \<noteq> 0 \<and>
   frame_bitmap (free_frame (fst (alloc_frame one_frame)) (snd (alloc_frame one_frame))) =
     1 # replicate 511 0"
proof -
  have "fst (alloc_frame one_frame) \<noteq> 0"
    using alloc_frame_least[of 1 one_frame] one_frame by simp
  then show ?thesis
    using alloc_free_roundtrip[OF one_frame(1)] one_frame by (simp add: one_frame_def)
qed

text \<open>
  C40. The address 0 doubles as the failure value: when frame 0 is free, an allocation marks it
  used and returns 0, which every caller takes for "no memory".
\<close>

theorem alloc_frame_zero_ambiguous:
  assumes "bitmap_ok s" and "0 \<notin> used s"
  shows "fst (alloc_frame s) = 0 \<and> used (snd (alloc_frame s)) = insert 0 (used s)"
  using bitmap.alloc_least[OF assms(1), of 0] assms(2) by simp

theorem alloc_frame_zero_ambiguous_witness:
  "bitmap_ok (clear_frame 1 one_frame) \<and> 0 \<notin> used (clear_frame 1 one_frame) \<and>
   fst (alloc_frame (clear_frame 1 one_frame)) = 0 \<and>
   used (snd (alloc_frame (clear_frame 1 one_frame))) = {0}"
proof -
  have "bitmap_ok (clear_frame 1 one_frame)" "used (clear_frame 1 one_frame) = {}"
    by (simp_all add: one_frame used_clear_frame)
  then show ?thesis using alloc_frame_zero_ambiguous[of "clear_frame 1 one_frame"] by simp
qed

end
