(* ===== verification/Paging.thy ===== *)
theory Paging
  imports Cells Frames
begin

text \<open>
  The paging system of \<^verbatim>\<open>src/kernel/kernel/paging.c\<close> on a machine with physical memory, the
  control registers CR0 and CR3 and a translation lookaside buffer. Page directory and page
  tables are cells of physical memory; the code reaches them through virtual addresses, so each
  of its accesses goes through the translation it is itself setting up and can fault.
\<close>

section \<open>The machine\<close>

abbreviation (input) KERNEL_VIRTUAL_BASE :: u32 where "KERNEL_VIRTUAL_BASE \<equiv> 0xC0000000"
abbreviation (input) PAGE_PRESENT :: u32 where "PAGE_PRESENT \<equiv> 0x001"
abbreviation (input) PAGE_WRITE :: u32 where "PAGE_WRITE \<equiv> 0x002"
abbreviation (input) PAGE_USER :: u32 where "PAGE_USER \<equiv> 0x004"

definition P2V :: "u32 \<Rightarrow> u32" where
  "P2V addr = addr + KERNEL_VIRTUAL_BASE"

definition V2P :: "u32 \<Rightarrow> u32" where
  "V2P addr = addr - KERNEL_VIRTUAL_BASE"

record paging_state = frame_state +
  kernel_page_directory :: u32
  current_page_directory :: u32
  phys_mem :: mem
  cr0 :: u32
  cr3 :: u32
  tlb :: "u32 \<rightharpoonup> u32"

text \<open>
  The processor's two-level walk for supervisor accesses to 4 KiB pages: the directory entry
  selected by the top ten bits of the address, then the table entry selected by the next ten,
  each of which must have its present bit set. With paging off, addresses are physical; with it
  on, a page whose translation is cached in the buffer is not walked again.
\<close>

definition mmu_walk :: "mem \<Rightarrow> u32 \<Rightarrow> u32 \<Rightarrow> u32 option" where
  "mmu_walk m dir va =
     (let pde = read32 m (cell (dir AND PAGE_FRAME) (drop_bit 22 va))
      in if pde AND PAGE_PRESENT = 0 then None
         else let pte = read32 m (cell (pde AND PAGE_FRAME) (drop_bit 12 va AND 0x3FF))
              in if pte AND PAGE_PRESENT = 0 then None
                 else Some ((pte AND PAGE_FRAME) + (va AND 0xFFF)))"

definition mmu_translate :: "'a paging_state_scheme \<Rightarrow> u32 \<Rightarrow> u32 option" where
  "mmu_translate s va =
     (if cr0 s AND 0x80000000 = 0 then Some va
      else case tlb s (drop_bit 12 va) of
             Some frame \<Rightarrow> Some (frame + (va AND 0xFFF))
           | None \<Rightarrow> mmu_walk (phys_mem s) (cr3 s) va)"

definition vm_ld :: "u32 \<Rightarrow> 'a paging_state_scheme \<Rightarrow> u8 res" where
  "vm_ld a s = (case mmu_translate s a of None \<Rightarrow> Inl (Page_fault a) | Some p \<Rightarrow> Inr (phys_mem s p))"

definition vm_st :: "u32 \<Rightarrow> u8 \<Rightarrow> 'a paging_state_scheme \<Rightarrow> 'a paging_state_scheme res" where
  "vm_st a b s =
     (case mmu_translate s a of
        None \<Rightarrow> Inl (Page_fault a)
      | Some p \<Rightarrow> Inr (s\<lparr>phys_mem := (phys_mem s)(p := b)\<rparr>))"

text \<open>\<^verbatim>\<open>movl %0, %%cr3\<close> drops every cached translation, \<^verbatim>\<open>invlpg\<close> those of one page.\<close>

definition write_cr3 :: "u32 \<Rightarrow> 'a paging_state_scheme \<Rightarrow> 'a paging_state_scheme" where
  "write_cr3 v s = s\<lparr>cr3 := v, tlb := Map.empty\<rparr>"

definition flush_tlb_entry :: "u32 \<Rightarrow> 'a paging_state_scheme \<Rightarrow> 'a paging_state_scheme" where
  "flush_tlb_entry addr s = s\<lparr>tlb := (tlb s)(drop_bit 12 addr := None)\<rparr>"

text \<open>Clearing the paging bit of CR0 empties the lookaside buffer.\<close>

definition enable_paging :: "'a paging_state_scheme \<Rightarrow> 'a paging_state_scheme" where
  "enable_paging s = log_debug DEBUG_LEVEL_INFO ''Paging enabled'' [] (s\<lparr>cr0 := cr0 s OR 0x80000000\<rparr>)"

definition disable_paging :: "'a paging_state_scheme \<Rightarrow> 'a paging_state_scheme" where
  "disable_paging s =
     log_debug DEBUG_LEVEL_INFO ''Paging disabled'' []
       (s\<lparr>cr0 := cr0 s AND NOT 0x80000000, tlb := Map.empty\<rparr>)"

definition is_paging_enabled :: "'a paging_state_scheme \<Rightarrow> bool" where
  "is_paging_enabled s \<longleftrightarrow> cr0 s AND 0x80000000 \<noteq> 0"

section \<open>Page tables\<close>

definition get_page_table ::
  "u32 \<Rightarrow> bool \<Rightarrow> 'a paging_state_scheme \<Rightarrow> (u32 \<times> 'a paging_state_scheme) res" where
  "get_page_table virt_addr create s =
     (let pdindex = drop_bit 22 virt_addr;
          pde = cell (current_page_directory s) pdindex
      in bindE (ld32 vm_ld pde s) (\<lambda>v.
         if v AND PAGE_PRESENT \<noteq> 0
         then bindE (ld32 vm_ld pde s) (\<lambda>v.
              let page_table_addr = v AND PAGE_FRAME
              in Inr (P2V page_table_addr,
                      log_debug DEBUG_LEVEL_TRACE
                        ''Using existing page table at physical %x for address %x''
                        [Va_int page_table_addr, Va_int virt_addr] s))
         else if create
         then let (page_table_addr, s) = alloc_frame s
              in if page_table_addr = 0
                 then Inr (0, log_debug DEBUG_LEVEL_ERROR
                                ''Failed to allocate page table for address %x'' [Va_int virt_addr] s)
                 else bindE (memset vm_st (P2V page_table_addr) 0 PAGE_SIZE s) (\<lambda>(_, s).
                      bindE (st32 vm_st pde (page_table_addr OR PAGE_PRESENT OR PAGE_WRITE) s) (\<lambda>s.
                      Inr (P2V page_table_addr,
                           log_debug DEBUG_LEVEL_TRACE
                             ''Created new page table at physical %x for address %x''
                             [Va_int page_table_addr, Va_int virt_addr] s)))
         else Inr (0, s)))"

definition map_page_to_frame ::
  "u32 \<Rightarrow> u32 \<Rightarrow> u32 \<Rightarrow> 'a paging_state_scheme \<Rightarrow> 'a paging_state_scheme res" where
  "map_page_to_frame virt_addr phys_addr flags s =
     (let ptindex = drop_bit 12 virt_addr AND 0x3FF;
          s = log_debug DEBUG_LEVEL_DEBUG ''Mapping virtual %x to physical %x with flags %x''
                [Va_int virt_addr, Va_int phys_addr, Va_int flags] s
      in bindE (get_page_table virt_addr True s) (\<lambda>(table, s).
         if table = 0
         then Inr (log_debug DEBUG_LEVEL_ERROR ''Failed to get page table for virtual address %x''
                     [Va_int virt_addr] s)
         else bindE (st32 vm_st (cell table ptindex)
                       ((phys_addr AND PAGE_FRAME) OR (flags AND 0xFFF) OR PAGE_PRESENT) s) (\<lambda>s.
              Inr (log_debug DEBUG_LEVEL_TRACE
                     ''Mapped virtual %x to physical %x (PD idx: %u, PT idx: %u)''
                     [Va_int virt_addr, Va_int phys_addr, Va_int (drop_bit 22 virt_addr),
                      Va_int ptindex] (flush_tlb_entry virt_addr s)))))"

definition unmap_page :: "u32 \<Rightarrow> 'a paging_state_scheme \<Rightarrow> 'a paging_state_scheme res" where
  "unmap_page virt_addr s =
     (let ptindex = drop_bit 12 virt_addr AND 0x3FF;
          s = log_debug DEBUG_LEVEL_DEBUG ''Unmapping virtual address %x'' [Va_int virt_addr] s
      in bindE (get_page_table virt_addr False s) (\<lambda>(table, s).
         if table = 0
         then Inr (log_debug DEBUG_LEVEL_WARNING ''Page table not found for virtual address %x''
                     [Va_int virt_addr] s)
         else bindE (st32 vm_st (cell table ptindex) 0 s) (\<lambda>s.
              Inr (log_debug DEBUG_LEVEL_TRACE
                     ''Unmapped virtual address %x (PD idx: %u, PT idx: %u)''
                     [Va_int virt_addr, Va_int (drop_bit 22 virt_addr), Va_int ptindex]
                     (flush_tlb_entry virt_addr s)))))"

definition get_physical_address ::
  "u32 \<Rightarrow> 'a paging_state_scheme \<Rightarrow> (u32 \<times> 'a paging_state_scheme) res" where
  "get_physical_address virt_addr s =
     (let ptindex = drop_bit 12 virt_addr AND 0x3FF
      in bindE (get_page_table virt_addr False s) (\<lambda>(table, s).
         if table = 0 then Inr (0, s)
         else bindE (ld32 vm_ld (cell table ptindex) s) (\<lambda>v.
              if v AND PAGE_PRESENT = 0 then Inr (0, s)
              else bindE (ld32 vm_ld (cell table ptindex) s) (\<lambda>v.
                   let frame_addr = v AND PAGE_FRAME; offset = virt_addr AND 0xFFF
                   in Inr (frame_addr + offset, s)))))"

definition switch_page_directory :: "u32 \<Rightarrow> 'a paging_state_scheme \<Rightarrow> 'a paging_state_scheme" where
  "switch_page_directory dir s =
     log_debug DEBUG_LEVEL_DEBUG ''Switched to page directory at virtual %x, physical %x''
       [Va_int dir, Va_int (V2P dir)]
       (write_cr3 (V2P dir) (s\<lparr>current_page_directory := dir\<rparr>))"

definition kmalloc_physical_page :: "'a paging_state_scheme \<Rightarrow> (u32 \<times> 'a paging_state_scheme) res" where
  "kmalloc_physical_page s =
     (let (frame, s) = alloc_frame s
      in if frame = 0 then Inr (0, s)
         else bindE (memset vm_st (P2V frame) 0 PAGE_SIZE s) (\<lambda>(_, s). Inr (frame, s)))"

definition kfree_physical_page :: "u32 \<Rightarrow> 'a paging_state_scheme \<Rightarrow> 'a paging_state_scheme" where
  "kfree_physical_page addr s = (if addr = 0 then s else free_frame addr s)"

section \<open>Initialisation and report\<close>

text \<open>
  \<^verbatim>\<open>for (addr = from; addr < to; addr += PAGE_SIZE) set_frame(addr)\<close>, which never ends when
  \<open>to\<close> lies in the last page of the address space and the counter wraps around.
\<close>

partial_function (option) mark_frames ::
  "u32 \<Rightarrow> u32 \<Rightarrow> 'a frame_state_scheme \<Rightarrow> 'a frame_state_scheme option" where
  "mark_frames addr to s =
     (if addr < to then mark_frames (addr + PAGE_SIZE) to (set_frame addr s) else Some s)"

definition mark_range ::
  "u32 \<Rightarrow> u32 \<Rightarrow> 'a frame_state_scheme \<Rightarrow> 'a frame_state_scheme res" where
  "mark_range addr to s = (case mark_frames addr to s of None \<Rightarrow> Inl No_return | Some s' \<Rightarrow> Inr s')"

text \<open>The linker's symbols \<^verbatim>\<open>kernel_physical_start\<close> and \<^verbatim>\<open>kernel_physical_end\<close> are arguments.\<close>

definition init_paging ::
  "u32 \<Rightarrow> u32 \<Rightarrow> 'a paging_state_scheme \<Rightarrow> 'a paging_state_scheme res" where
  "init_paging kernel_start kernel_end s =
     (let s = log_printf (''Initializing paging system...'' @ NL) [] s;
          s = s\<lparr>frame_bitmap := replicate 512 0\<rparr>
      in bindE (mark_range 0 0x100000 s) (\<lambda>s.
      let s = log_printf (''Marking kernel physical memory as used: %x - %x'' @ NL)
                [Va_int kernel_start, Va_int kernel_end] s
      in bindE (mark_range kernel_start kernel_end s) (\<lambda>s.
      let cr3_value = cr3 s;
          s = s\<lparr>kernel_page_directory := P2V cr3_value\<rparr>;
          s = s\<lparr>current_page_directory := kernel_page_directory s\<rparr>;
          s = log_printf (''Current page directory at physical: %x, virtual: %x'' @ NL)
                [Va_int cr3_value, Va_int (kernel_page_directory s)] s
      in bindE (st32 vm_st (cell (kernel_page_directory s) 1023)
                  (V2P (kernel_page_directory s) OR PAGE_PRESENT OR PAGE_WRITE) s) (\<lambda>s.
      Inr (log_printf (''Paging system initialized!'' @ NL) []
            (log_debug DEBUG_LEVEL_INFO ''Paging system initialized successfully'' []
              (write_cr3 cr3_value s)))))))"

definition count_used_frames :: "u32 list \<Rightarrow> u32" where
  "count_used_frames bm =
     for_range 0 BITMAP_SIZE (\<lambda>i n.
       for_range 0 32 (\<lambda>j n. if bm ! unat i AND push_bit (unat j) 1 \<noteq> 0 then n + 1 else n) n) 0"

definition print_paging_info :: "'a paging_state_scheme \<Rightarrow> 'a paging_state_scheme" where
  "print_paging_info s =
     (let s = log_printf (''Paging Information:'' @ NL) [] s;
          s = log_printf (''  Paging enabled: %s'' @ NL)
                [Va_str (Some (if is_paging_enabled s then ''YES'' else ''NO''))] s;
          cr3_value = cr3 s;
          s = log_printf (''  Page Directory (CR3): %x (Physical)'' @ NL) [Va_int cr3_value] s;
          s = log_printf (''  Page Directory Virtual: %x'' @ NL) [Va_int (current_page_directory s)] s;
          used_frames = count_used_frames (frame_bitmap s);
          s = log_printf (''  Used physical frames: %u/%u (%u KB)'' @ NL)
                [Va_int used_frames, Va_int TOTAL_FRAMES, Va_int (used_frames * PAGE_SIZE div 1024)] s;
          s = log_printf (''  Free physical frames: %u/%u (%u KB)'' @ NL)
                [Va_int (TOTAL_FRAMES - used_frames), Va_int TOTAL_FRAMES,
                 Va_int ((TOTAL_FRAMES - used_frames) * PAGE_SIZE div 1024)] s
      in log_debug DEBUG_LEVEL_TRACE ''Page directory at physical %x, virtual %x''
           [Va_int cr3_value, Va_int (current_page_directory s)] s)"

end
