(* ===== verification/Paging_Window.thy ===== *)
theory Paging_Window
  imports Paging
begin

text \<open>
  The kernel window: the 4 MiB at \<^term>\<open>KERNEL_VIRTUAL_BASE\<close> that boot maps onto the first 4 MiB
  of physical memory, and through which \<^verbatim>\<open>paging.c\<close> reaches page tables and fresh frames.
  Where the window is mapped, and away from the bytes that map it, virtual memory is a
  \<open>byte_memory\<close>, so that the contracts of the string routines and of 32-bit cells apply.
\<close>

section \<open>Addresses\<close>

lemma V2P_P2V [simp]: "V2P (P2V a) = a" "P2V (V2P a) = a"
  by (simp_all add: P2V_def V2P_def)

lemma V2P_add: "V2P (a + k) = V2P a + k" and P2V_add: "P2V (a + k) = P2V a + k"
  by (simp_all add: V2P_def P2V_def)

lemma cell_P2V: "V2P (cell a i) = cell (V2P a) i"
  by (simp add: cell_def V2P_add)

lemma unat_u32_less: "unat a < 4294967296" for a :: u32
proof -
  have "unat a < 2 ^ LENGTH(32)" by (rule unsigned_less)
  then show ?thesis by simp
qed

lemma unat_drop_bit: "unat (drop_bit n a) = unat a div 2 ^ n" for a :: u32
proof -
  have "unat (drop_bit n a) = drop_bit n (unat a)" 
    using unat_u32_less[of a] by (simp add: unsigned_drop_bit_eq take_bit_nat_eq_self)
  then show ?thesis by (simp only: drop_bit_eq_div)
qed

lemma unat_and_3FF: "unat (a AND 0x3FF) = unat a mod 1024" for a :: u32
proof -
  have "(0x3FF :: u32) = mask 10" by (simp add: mask_eq_exp_minus_1)
  then have "a AND 0x3FF = take_bit 10 a" by (simp only: take_bit_eq_mask)
  then show ?thesis by (simp add: take_bit_eq_mod unat_mod)
qed

lemma unat_and_FFF: "unat (a AND 0xFFF) = unat a mod 4096" for a :: u32
  by (simp add: page_masks take_bit_eq_mod unat_mod)

lemma unat_PAGE_FRAME: "unat (a AND PAGE_FRAME) = unat a div 4096 * 4096" for a :: u32
proof -
  have "unat a = unat ((a AND PAGE_FRAME) + (a AND 0xFFF))" by (simp add: page_split)
  also have "\<dots> = unat (a AND PAGE_FRAME) + unat (a AND 0xFFF)"
    using page_split[of a] word_and_le2[of PAGE_FRAME a]
    by (metis unat_plus_simple word_and_le2)
  finally show ?thesis by (simp add: unat_and_FFF) (metis add_diff_cancel_right' minus_mod_eq_div_mult)
qed

lemma pd_index_less: "drop_bit 22 va < 1024" for va :: u32
  using unat_u32_less[of va] by (simp add: word_less_nat_alt unat_drop_bit)

lemma pt_index_less: "drop_bit 12 va AND 0x3FF < 1024" for va :: u32
  by (simp add: word_less_nat_alt unat_and_3FF)

lemma window_indices:
  assumes "pa < 0x400000"
  shows "drop_bit 22 (P2V pa) = 768" and "drop_bit 12 (P2V pa) AND 0x3FF = drop_bit 12 pa"
    and "P2V pa AND 0xFFF = pa AND 0xFFF" and "drop_bit 12 pa < 1024"
    and "4096 * drop_bit 12 pa + (pa AND 0xFFF) = pa"
proof -
  have pa: "unat pa < 4194304" using assms by (simp add: word_less_nat_alt)
  have va: "unat (P2V pa) = unat pa + 3221225472"
    using pa by (simp add: P2V_def unat_word_ariths)
  have base: "unat pa + 3221225472 = unat pa + 786432 * 4096" by simp
  have "(unat pa + 3221225472) div 4096 = unat pa div 4096 + 768 * 1024"
    "(unat pa + 3221225472) mod 4096 = unat pa mod 4096"
    unfolding base by (simp, rule mod_mult_self1)
  moreover from this have "(unat pa + 3221225472) div 4096 mod 1024 = unat pa div 4096"
    using pa by (simp only: mod_mult_self1) simp
  moreover have "(unat pa + 3221225472) div 4194304 = 768" using pa by linarith
  ultimately show "drop_bit 22 (P2V pa) = 768" and "drop_bit 12 (P2V pa) AND 0x3FF = drop_bit 12 pa"
    and "P2V pa AND 0xFFF = pa AND 0xFFF"
    by (simp_all add: word_unat_eq_iff unat_drop_bit unat_and_3FF unat_and_FFF va)
  show "drop_bit 12 pa < 1024" using pa by (simp add: word_less_nat_alt unat_drop_bit)
  show "4096 * drop_bit 12 pa + (pa AND 0xFFF) = pa"
    using pa by (simp add: word_unat_eq_iff unat_word_ariths unat_drop_bit unat_and_FFF)
qed

section \<open>Directory and table entries\<close>

definition pd_entry :: "'a paging_state_scheme \<Rightarrow> u32 \<Rightarrow> u32" where
  "pd_entry s j = read32 (phys_mem s) (cell (cr3 s AND PAGE_FRAME) j)"

definition table_of :: "'a paging_state_scheme \<Rightarrow> u32 \<Rightarrow> u32" where
  "table_of s j = pd_entry s j AND PAGE_FRAME"

definition pt_entry :: "'a paging_state_scheme \<Rightarrow> u32 \<Rightarrow> u32 \<Rightarrow> u32" where
  "pt_entry s j i = read32 (phys_mem s) (cell (table_of s j) i)"

lemma walk_entries:
  "mmu_walk (phys_mem s) (cr3 s) va =
     (if pd_entry s (drop_bit 22 va) AND PAGE_PRESENT = 0 then None
      else if pt_entry s (drop_bit 22 va) (drop_bit 12 va AND 0x3FF) AND PAGE_PRESENT = 0 then None
      else Some ((pt_entry s (drop_bit 22 va) (drop_bit 12 va AND 0x3FF) AND PAGE_FRAME) +
                 (va AND 0xFFF)))"
  by (simp add: mmu_walk_def pd_entry_def pt_entry_def table_of_def Let_def)

lemma table_of_aligned [simp]: "table_of s j AND 0xFFF = 0"
  by (simp add: table_of_def)

section \<open>The kernel window as a byte memory\<close>

definition window_ok :: "'a paging_state_scheme \<Rightarrow> bool" where
  "window_ok s \<longleftrightarrow> (\<forall>pa<0x400000. mmu_walk (phys_mem s) (cr3 s) (P2V pa) = Some pa \<and>
     mmu_translate s (P2V pa) = Some pa)"

text \<open>The bytes that map the window: directory entry 768 and the table it points to.\<close>

definition maps_window :: "'a paging_state_scheme \<Rightarrow> u32 \<Rightarrow> bool" where
  "maps_window s p \<longleftrightarrow> p AND PAGE_FRAME = table_of s 768 \<or>
     (\<exists>k<4. p = cell (cr3 s AND PAGE_FRAME) 768 + k)"

definition window_byte :: "'a paging_state_scheme \<Rightarrow> u32 \<Rightarrow> bool" where
  "window_byte s a \<longleftrightarrow> window_ok s \<and> V2P a < 0x400000 \<and> \<not> maps_window s (V2P a)"

lemma vm_ld_window: "window_ok s \<Longrightarrow> V2P a < 0x400000 \<Longrightarrow> vm_ld a s = Inr (phys_mem s (V2P a))"
  using spec[of "\<lambda>pa. pa < 0x400000 \<longrightarrow> mmu_walk (phys_mem s) (cr3 s) (P2V pa) = Some pa \<and>
     mmu_translate s (P2V pa) = Some pa" "V2P a"]
  by (simp add: window_ok_def vm_ld_def)

lemma vm_st_window: "window_ok s \<Longrightarrow> V2P a < 0x400000 \<Longrightarrow>
    vm_st a b s = Inr (s\<lparr>phys_mem := (phys_mem s)(V2P a := b)\<rparr>)"
  using spec[of "\<lambda>pa. pa < 0x400000 \<longrightarrow> mmu_walk (phys_mem s) (cr3 s) (P2V pa) = Some pa \<and>
     mmu_translate s (P2V pa) = Some pa" "V2P a"]
  by (simp add: window_ok_def vm_st_def)

text \<open>A store outside those bytes leaves the entries that map the window, and so the window.\<close>

lemma store_keeps_pd768:
  assumes "\<not> maps_window s p"
  shows "pd_entry (s\<lparr>phys_mem := (phys_mem s)(p := b)\<rparr>) 768 = pd_entry s 768"
  using assms by (auto simp: pd_entry_def maps_window_def intro!: read32_cong)

lemma store_keeps_pt768:
  assumes "\<not> maps_window s p" "i < 1024"
  shows "pt_entry (s\<lparr>phys_mem := (phys_mem s)(p := b)\<rparr>) 768 i = pt_entry s 768 i"
proof -
  have "table_of (s\<lparr>phys_mem := (phys_mem s)(p := b)\<rparr>) 768 = table_of s 768"
    using assms(1) by (simp add: table_of_def store_keeps_pd768)
  moreover have "p \<noteq> cell (table_of s 768) i + k" if "k < 4" for k
    using assms(1) cell_byte(1)[OF table_of_aligned assms(2) that, of s 768]
    by (auto simp: maps_window_def)
  moreover from this have "read32 ((phys_mem s)(p := b)) (cell (table_of s 768) i) =
      read32 (phys_mem s) (cell (table_of s 768) i)"
    by (intro read32_cong) (metis fun_upd_other)
  ultimately show ?thesis by (simp add: pt_entry_def)
qed

lemma store_keeps_window:
  assumes "window_ok s" "\<not> maps_window s p"
  shows "window_ok (s\<lparr>phys_mem := (phys_mem s)(p := b)\<rparr>)"
  unfolding window_ok_def
proof (intro allI impI)
  let ?s = "s\<lparr>phys_mem := (phys_mem s)(p := b)\<rparr>"
  fix pa :: u32 assume pa: "pa < 0x400000"
  have "mmu_walk (phys_mem ?s) (cr3 ?s) (P2V pa) = mmu_walk (phys_mem s) (cr3 s) (P2V pa)"
    unfolding walk_entries window_indices[OF pa]
    using assms(2) window_indices(4)[OF pa] by (simp add: store_keeps_pd768 store_keeps_pt768)
  moreover from this have "mmu_translate ?s (P2V pa) = mmu_translate s (P2V pa)"
    by (simp add: mmu_translate_def split: option.splits)
  ultimately show "mmu_walk (phys_mem ?s) (cr3 ?s) (P2V pa) = Some pa \<and>
      mmu_translate ?s (P2V pa) = Some pa"
    using assms(1) pa by (simp add: window_ok_def)
qed

lemma store_keeps_maps_window:
  "\<not> maps_window s p \<Longrightarrow> maps_window (s\<lparr>phys_mem := (phys_mem s)(p := b)\<rparr>) = maps_window s"
  by (simp add: maps_window_def[abs_def] table_of_def store_keeps_pd768)

lemma window_ok_revert:
  assumes "\<not> maps_window s p" "window_ok (s\<lparr>phys_mem := (phys_mem s)(p := b)\<rparr>)"
  shows "window_ok s"
  using store_keeps_window[OF assms(2), of p "phys_mem s p"] assms(1)
  by (simp add: store_keeps_maps_window)

interpretation kvm: byte_memory vm_ld vm_st "\<lambda>s a. phys_mem s (V2P a)"
  "\<lambda>a b s. s\<lparr>phys_mem := (phys_mem s)(V2P a := b)\<rparr>" window_byte
proof
  fix s :: "'a paging_state_scheme" and a b c
  assume a: "window_byte s a"
  then have w: "window_ok s" "V2P a < 0x400000" "\<not> maps_window s (V2P a)"
    by (simp_all add: window_byte_def)
  show "vm_ld a s = Inr (phys_mem s (V2P a))" using w by (simp add: vm_ld_window)
  show "vm_st a b s = Inr (s\<lparr>phys_mem := (phys_mem s)(V2P a := b)\<rparr>)"
    using w by (simp add: vm_st_window)
  show "window_byte (s\<lparr>phys_mem := (phys_mem s)(V2P a := b)\<rparr>) c = window_byte s c"
    using w by (simp add: window_byte_def store_keeps_window store_keeps_maps_window)
  assume "window_byte s c"
  show "phys_mem (s\<lparr>phys_mem := (phys_mem s)(V2P a := b)\<rparr>) (V2P c) =
      (if c = a then b else phys_mem s (V2P c))"
    by (auto simp: V2P_def)
qed

text \<open>Cell accesses and page clearing through the window, in terms of physical memory.\<close>

lemma window_ld32:
  assumes "window_ok s" "\<And>k. k < 4 \<Longrightarrow> V2P (a + k) < 0x400000"
  shows "ld32 vm_ld a s = Inr (read32 (phys_mem s) (V2P a))"
  using assms(2)[of 0] assms(2)[of 1] assms(2)[of 2] assms(2)[of 3] assms(1)
  by (simp add: ld32_def vm_ld_window read32_def V2P_add)

lemma window_st32:
  assumes "\<And>k. k < 4 \<Longrightarrow> window_byte s (a + k)"
  shows "st32 vm_st a v s = Inr (s\<lparr>phys_mem := write32 (V2P a) v (phys_mem s)\<rparr>)"
  by (subst kvm.st32_ok[OF assms]) (simp_all add: write32_def V2P_add fun_upd_def)

lemma window_memset:
  assumes "b AND 0xFFF = 0" "\<And>k. k < 4096 \<Longrightarrow> window_byte s (P2V b + k)"
  shows "memset vm_st (P2V b) 0 4096 s = Inr (P2V b, s\<lparr>phys_mem := clear_page b (phys_mem s)\<rparr>)"
proof -
  let ?Q = "\<lambda>t. \<exists>m. t = s\<lparr>phys_mem := m\<rparr> \<and> (\<forall>c. \<not> c AND PAGE_FRAME = b \<longrightarrow> m c = phys_mem s c)"
  have inb: "(V2P (P2V b + k)) AND PAGE_FRAME = b" if "k < 4096" for k
    using page_offset(1)[OF assms(1) that] by (simp add: V2P_add)
  have Q: "?Q s" by (intro exI[of _ "phys_mem s"]) simp
  have step: "?Q (t\<lparr>phys_mem := (phys_mem t)(V2P (P2V b + k) := ucast (0 :: u32))\<rparr>)"
    if "k < 4096" and t: "?Q t" for k t
  proof -
    obtain m where m: "t = s\<lparr>phys_mem := m\<rparr>" "\<forall>c. c AND PAGE_FRAME \<noteq> b \<longrightarrow> m c = phys_mem s c"
      using t by blast
    then show ?thesis
      using inb[OF that(1)] by (intro exI[of _ "m(V2P (P2V b + k) := 0)"]) auto
  qed
  obtain s' where s': "memset vm_st (P2V b) 0 4096 s = Inr (P2V b, s')"
    "kvm.stored s (in_region (P2V b) 4096) (\<lambda>_. ucast (0 :: u32)) ?Q s'"
    using kvm.memset_stored[where Q = ?Q and v = 0 and n = 4096, OF assms(2) Q step] by blast
  then obtain m where m: "s' = s\<lparr>phys_mem := m\<rparr>" "\<And>c. c AND PAGE_FRAME \<noteq> b \<Longrightarrow> m c = phys_mem s c"
    by (auto simp: kvm.stored_def)
  have "m c = 0" if "c AND PAGE_FRAME = b" for c
  proof -
    have k: "in_region b 4096 c" using that in_page[OF assms(1)] by simp
    then have "window_byte s (P2V c)"
      using assms(2)[of "c - b"] by (simp add: in_region_def P2V_def add.commute)
    moreover have "in_region (P2V b) 4096 (P2V c)"
      using k by (simp add: in_region_def P2V_def)
    ultimately show ?thesis using s'(2) m(1) by (auto simp: kvm.stored_def)
  qed
  with m have "m = clear_page b (phys_mem s)" by (auto simp: clear_page_def)
  with s'(1) m(1) show ?thesis by simp
qed

end
