(* ===== verification/Paging_Inv.thy ===== *)
theory Paging_Inv
  imports Paging_Window
begin

text \<open>
  The invariant of the paging system and the effect of each of its operations on what the
  processor translates.
\<close>

section \<open>What the allocator and the log leave alone\<close>

lemma log_fields [simp]:
  "phys_mem (log_debug l f x s) = phys_mem s" "cr0 (log_debug l f x s) = cr0 s"
  "cr3 (log_debug l f x s) = cr3 s" "tlb (log_debug l f x s) = tlb s"
  "current_page_directory (log_debug l f x s) = current_page_directory s"
  "kernel_page_directory (log_debug l f x s) = kernel_page_directory s"
  "frame_bitmap (log_debug l f x t) = frame_bitmap t"
  "phys_mem (log_printf f x s) = phys_mem s" "cr0 (log_printf f x s) = cr0 s"
  "cr3 (log_printf f x s) = cr3 s" "tlb (log_printf f x s) = tlb s"
  "current_page_directory (log_printf f x s) = current_page_directory s"
  "kernel_page_directory (log_printf f x s) = kernel_page_directory s"
  "frame_bitmap (log_printf f x t) = frame_bitmap t"
  by (simp_all add: log_debug_def log_printf_def)

lemma set_frame_fields [simp]:
  "phys_mem (set_frame a s) = phys_mem s" "cr0 (set_frame a s) = cr0 s"
  "cr3 (set_frame a s) = cr3 s" "tlb (set_frame a s) = tlb s"
  "current_page_directory (set_frame a s) = current_page_directory s"
  by (simp_all add: set_frame_def Let_def)

lemma clear_frame_fields [simp]:
  "phys_mem (clear_frame a s) = phys_mem s" "cr0 (clear_frame a s) = cr0 s"
  "cr3 (clear_frame a s) = cr3 s" "tlb (clear_frame a s) = tlb s"
  "current_page_directory (clear_frame a s) = current_page_directory s"
  by (simp_all add: clear_frame_def Let_def)

lemma alloc_frame_fields:
  assumes "alloc_frame s = (a, s')"
  shows "phys_mem s' = phys_mem s" "cr0 s' = cr0 s" "cr3 s' = cr3 s" "tlb s' = tlb s"
    "current_page_directory s' = current_page_directory s"
  using assms
  by (auto simp: alloc_frame_def first_free_frame_def Let_def split: option.splits if_splits)

lemma free_frame_fields [simp]:
  "phys_mem (free_frame a s) = phys_mem s" "cr0 (free_frame a s) = cr0 s"
  "cr3 (free_frame a s) = cr3 s" "tlb (free_frame a s) = tlb s"
  "current_page_directory (free_frame a s) = current_page_directory s"
  by (simp_all add: free_frame_def)

section \<open>The invariant\<close>

definition present :: "'a paging_state_scheme \<Rightarrow> u32 \<Rightarrow> bool" where
  "present s j \<longleftrightarrow> pd_entry s j AND PAGE_PRESENT \<noteq> 0"

text \<open>
  The tables: directory and tables are page-aligned frames of the window that the allocator
  has marked used; entry 768 maps the window; two directory entries share a table only if it is
  the window's own (boot enters it twice, at 0 and at 768). Entry 1023, once
  \<^verbatim>\<open>init_paging\<close> has set it, is the recursive entry: its table is the directory itself.
\<close>

definition tables_ok :: "'a paging_state_scheme \<Rightarrow> bool" where
  "tables_ok s \<longleftrightarrow>
     cr3 s AND 0xFFF = 0 \<and> cr3 s < 0x400000 \<and> frame_no (cr3 s) \<in> used s \<and>
     present s 768 \<and>
     (\<forall>i<1024. pt_entry s 768 i AND PAGE_PRESENT \<noteq> 0 \<and> pt_entry s 768 i AND PAGE_FRAME = 4096 * i) \<and>
     (\<forall>j<1023. present s j \<longrightarrow>
        table_of s j < 0x400000 \<and> frame_no (table_of s j) \<in> used s \<and> table_of s j \<noteq> cr3 s) \<and>
     (\<forall>j<1023. \<forall>k<1023. j \<noteq> k \<and> present s j \<and> present s k \<and> table_of s j = table_of s k \<longrightarrow>
        table_of s j = table_of s 768) \<and>
     (present s 1023 \<longrightarrow> table_of s 1023 = cr3 s)"

definition tlb_coherent :: "'a paging_state_scheme \<Rightarrow> bool" where
  "tlb_coherent s \<longleftrightarrow> (\<forall>va frame. tlb s (drop_bit 12 va) = Some frame \<longrightarrow>
     mmu_walk (phys_mem s) (cr3 s) va = Some (frame + (va AND 0xFFF)))"

definition paging_inv :: "'a paging_state_scheme \<Rightarrow> bool" where
  "paging_inv s \<longleftrightarrow> bitmap_ok s \<and> 0 \<in> used s \<and> is_paging_enabled s \<and>
     current_page_directory s = P2V (cr3 s) \<and> tables_ok s \<and> tlb_coherent s"

lemma translate_walk:
  "is_paging_enabled s \<Longrightarrow> tlb_coherent s \<Longrightarrow>
     mmu_translate s va = mmu_walk (phys_mem s) (cr3 s) va"
  by (auto simp: mmu_translate_def is_paging_enabled_def tlb_coherent_def split: option.splits)

lemma tables_ok_walk:
  assumes "tables_ok s" "pa < 0x400000"
  shows "mmu_walk (phys_mem s) (cr3 s) (P2V pa) = Some pa"
  using assms window_indices[OF assms(2)]
  by (simp add: walk_entries tables_ok_def present_def)

lemma inv_window: "paging_inv s \<Longrightarrow> window_ok s"
  by (simp add: window_ok_def paging_inv_def translate_walk tables_ok_walk)

text \<open>A page of the window stays in the window.\<close>

lemma page_below:
  assumes "b AND 0xFFF = 0" "b < 0x400000" "k < (4096 :: u32)"
  shows "b + k < 0x400000"
proof -
  have "unat b mod 4096 = 0" using assms(1) unat_and_FFF[of b] by simp
  then obtain q where q: "unat b = 4096 * q" by (auto simp: mod_eq_0_iff_dvd)
  then have "unat b + 4096 \<le> 4194304" using assms(2) by (simp add: word_less_nat_alt)
  then show ?thesis using assms(3) by (simp add: word_less_nat_alt unat_word_ariths)
qed

lemma cell_below:
  assumes "b AND 0xFFF = 0" "b < 0x400000" "i < 1024" "k < 4"
  shows "cell b i + k < 0x400000"
  using page_below[OF assms(1,2), of "4 * i + k"] assms(3,4)
  by (simp add: cell_def add.assoc word_less_nat_alt unat_word_ariths)

section \<open>Entries after a store to a table\<close>

lemma pd_entry_cell_store:
  assumes "cr3 s AND 0xFFF = 0" "T AND 0xFFF = 0" "i < 1024" "j < 1024"
  shows "pd_entry (s\<lparr>phys_mem := write32 (cell T i) v (phys_mem s)\<rparr>) j =
    (if T = cr3 s \<and> i = j then v else pd_entry s j)"
  using assms by (simp add: pd_entry_def page_aligned_frame read_cell_write)

lemma pt_entry_cell_store:
  assumes "cr3 s AND 0xFFF = 0" "T AND 0xFFF = 0" "T \<noteq> cr3 s" "i < 1024" "j < 1024" "k < 1024"
  shows "pt_entry (s\<lparr>phys_mem := write32 (cell T i) v (phys_mem s)\<rparr>) j k =
    (if T = table_of s j \<and> i = k then v else pt_entry s j k)"
proof -
  have "table_of (s\<lparr>phys_mem := write32 (cell T i) v (phys_mem s)\<rparr>) j = table_of s j"
    using assms by (simp add: table_of_def pd_entry_cell_store)
  then show ?thesis using assms by (simp add: pt_entry_def read_cell_write)
qed

lemma pd_entry_clear:
  assumes "cr3 s AND 0xFFF = 0" "b \<noteq> cr3 s" "j < 1024"
  shows "pd_entry (s\<lparr>phys_mem := clear_page b (phys_mem s)\<rparr>) j = pd_entry s j"
  using assms by (simp add: pd_entry_def page_aligned_frame read_cell_clear)

lemma pt_entry_clear:
  assumes "cr3 s AND 0xFFF = 0" "b \<noteq> cr3 s" "j < 1024" "k < 1024"
  shows "pt_entry (s\<lparr>phys_mem := clear_page b (phys_mem s)\<rparr>) j k =
    (if table_of s j = b then 0 else pt_entry s j k)"
proof -
  have "table_of (s\<lparr>phys_mem := clear_page b (phys_mem s)\<rparr>) j = table_of s j"
    using assms by (simp add: table_of_def pd_entry_clear)
  then show ?thesis using assms by (simp add: pt_entry_def read_cell_clear)
qed

text \<open>States with the same memory and registers have the same entries.\<close>

lemma entries_cong:
  assumes "phys_mem s = phys_mem t" "cr3 s = cr3 t"
  shows "pd_entry s = pd_entry t" "table_of s = table_of t" "pt_entry s = pt_entry t"
    "present s = present t" "maps_window s = maps_window t"
proof -
  show pd: "pd_entry s = pd_entry t" using assms by (simp add: pd_entry_def[abs_def])
  show tab: "table_of s = table_of t" by (simp add: table_of_def[abs_def] pd)
  show "pt_entry s = pt_entry t" using assms by (simp add: pt_entry_def[abs_def] tab)
  show "present s = present t" by (simp add: present_def[abs_def] pd)
  show "maps_window s = maps_window t" using assms by (simp add: maps_window_def[abs_def] tab)
qed

lemma window_ok_cong:
  assumes "phys_mem s = phys_mem t" "cr3 s = cr3 t" "cr0 s = cr0 t" "tlb s = tlb t"
  shows "window_ok s = window_ok t"
  by (simp only: window_ok_def mmu_translate_def assms)

lemma tables_ok_cong:
  assumes "phys_mem s = phys_mem t" "cr3 s = cr3 t" "used s = used t"
  shows "tables_ok s = tables_ok t"
  using entries_cong[OF assms(1,2)] assms by (simp add: tables_ok_def)

lemma paging_inv_cong:
  assumes "phys_mem s = phys_mem t" "cr3 s = cr3 t" "cr0 s = cr0 t" "tlb s = tlb t"
    "current_page_directory s = current_page_directory t" "frame_bitmap s = frame_bitmap t"
  shows "paging_inv s = paging_inv t"
proof -
  have "used s = used t" using assms(6) by (simp add: used_def)
  then show ?thesis
    using assms tables_ok_cong[OF assms(1,2)]
    by (simp add: paging_inv_def tlb_coherent_def is_paging_enabled_def bitmap_ok_def)
qed

lemma paging_inv_log [simp]:
  "paging_inv (log_debug l f x s) = paging_inv s" "paging_inv (log_printf f x s) = paging_inv s"
  by (rule paging_inv_cong; simp)+

lemma entries_log [simp]:
  "pd_entry (log_debug l f x s) = pd_entry s" "table_of (log_debug l f x s) = table_of s"
  "pt_entry (log_debug l f x s) = pt_entry s" "present (log_debug l f x s) = present s"
  "window_ok (log_debug l f x s) = window_ok s" "maps_window (log_debug l f x s) = maps_window s"
  by (rule entries_cong window_ok_cong; simp)+

section \<open>Finding the table of an address\<close>

lemma inv_dir:
  assumes "paging_inv s"
  shows "cr3 s AND 0xFFF = 0" "cr3 s < 0x400000" "cr3 s AND PAGE_FRAME = cr3 s"
    "current_page_directory s = P2V (cr3 s)"
  using assms by (auto simp: paging_inv_def tables_ok_def page_aligned_frame)

lemma ld_directory:
  assumes "paging_inv s" "j < 1024"
  shows "ld32 vm_ld (cell (current_page_directory s) j) s = Inr (pd_entry s j)"
proof -
  note d = inv_dir[OF assms(1)]
  have "V2P (cell (current_page_directory s) j + k) < 0x400000" if "k < 4" for k
    using cell_below[OF d(1,2) assms(2) that] by (simp add: V2P_add cell_P2V d(4))
  with inv_window[OF assms(1)] show ?thesis
    by (simp add: window_ld32 cell_P2V d(3,4) pd_entry_def)
qed

lemma get_page_table_present:
  assumes "paging_inv s" "present s (drop_bit 22 va)"
  shows "get_page_table va create s = Inr (P2V (table_of s (drop_bit 22 va)),
    log_debug DEBUG_LEVEL_TRACE ''Using existing page table at physical %x for address %x''
      [Va_int (table_of s (drop_bit 22 va)), Va_int va] s)"
  using assms
  by (simp add: get_page_table_def Let_def ld_directory pd_index_less present_def table_of_def)

lemma get_page_table_absent:
  assumes "paging_inv s" "\<not> present s (drop_bit 22 va)"
  shows "get_page_table va False s = Inr (0, s)"
  using assms by (simp add: get_page_table_def Let_def ld_directory pd_index_less present_def)

text \<open>The three parts of a virtual address.\<close>

lemma same_page:
  assumes "drop_bit 22 va = drop_bit 22 vb" "drop_bit 12 va AND 0x3FF = drop_bit 12 vb AND 0x3FF"
  shows "drop_bit 12 va = drop_bit 12 (vb :: u32)"
proof -
  have "unat v div 4096 = unat v div 4194304 * 1024 + unat v div 4096 mod 1024" for v :: u32
  proof -
    have "unat v div 4194304 = unat v div 4096 div 1024" by (simp add: div_mult2_eq[symmetric])
    then show ?thesis by simp
  qed
  moreover have "unat va div 4194304 = unat vb div 4194304"
    "unat va div 4096 mod 1024 = unat vb div 4096 mod 1024"
    using assms by (simp_all add: word_unat_eq_iff unat_drop_bit unat_and_3FF)
  ultimately have "unat va div 4096 = unat vb div 4096" by metis
  then show ?thesis by (simp add: word_unat_eq_iff unat_drop_bit)
qed

section \<open>Storing a table entry\<close>

text \<open>
  The effect of the store that \<^verbatim>\<open>map_page_to_frame\<close> and \<^verbatim>\<open>unmap_page\<close> make: entry \<open>i\<close> of the
  table of a present directory entry \<open>j\<close>, where that table is not the window's.
\<close>

definition set_entry :: "u32 \<Rightarrow> u32 \<Rightarrow> u32 \<Rightarrow> 'a paging_state_scheme \<Rightarrow> 'a paging_state_scheme" where
  "set_entry j i v s = s\<lparr>phys_mem := write32 (cell (table_of s j) i) v (phys_mem s)\<rparr>"

definition entry_ok :: "'a paging_state_scheme \<Rightarrow> u32 \<Rightarrow> u32 \<Rightarrow> bool" where
  "entry_ok s j i \<longleftrightarrow> j < 1023 \<and> i < 1024 \<and> present s j \<and> table_of s j \<noteq> table_of s 768"

lemma set_entry_fields [simp]:
  "cr3 (set_entry j i v s) = cr3 s" "cr0 (set_entry j i v s) = cr0 s"
  "tlb (set_entry j i v s) = tlb s" "frame_bitmap (set_entry j i v s) = frame_bitmap s"
  "current_page_directory (set_entry j i v s) = current_page_directory s"
  "used (set_entry j i v s) = used s" "bitmap_ok (set_entry j i v s) = bitmap_ok s"
  by (simp_all add: set_entry_def used_def bitmap_ok_def)

lemma tables_okD:
  assumes "tables_ok s" "present s j" "j < 1023"
  shows "table_of s j < 0x400000" "frame_no (table_of s j) \<in> used s" "table_of s j \<noteq> cr3 s"
  using assms by (auto simp: tables_ok_def)

lemma tables_ok_shared:
  assumes "tables_ok s" "j < 1023" "k < 1023" "present s j" "present s k" "table_of s j = table_of s k"
  shows "j = k \<or> table_of s j = table_of s 768"
  using assms unfolding tables_ok_def by blast

lemma below_1023: "k < 1024 \<Longrightarrow> k \<noteq> 1023 \<Longrightarrow> k < 1023" for k :: u32
  by (simp add: word_less_nat_alt word_unat_eq_iff)

lemma below_1024: "k < 1023 \<Longrightarrow> k < 1024" for k :: u32
  by (simp add: word_less_nat_alt)

text \<open>Among the present entries, the recursive one alone has the directory for its table.\<close>

lemma table_is_dir:
  assumes "tables_ok s" "present s k" "k < 1024"
  shows "table_of s k = cr3 s \<longleftrightarrow> k = 1023"
  using assms tables_okD(3)[OF assms(1,2)] below_1023[OF assms(3)]
  by (auto simp: tables_ok_def)

lemma set_entry_pd:
  assumes "tables_ok s" "entry_ok s j i" "k < 1024"
  shows "pd_entry (set_entry j i v s) k = pd_entry s k"
    and "present (set_entry j i v s) k = present s k"
    and "table_of (set_entry j i v s) k = table_of s k"
proof -
  have "table_of s j \<noteq> cr3 s" "cr3 s AND 0xFFF = 0" "i < 1024"
    using assms by (auto simp: entry_ok_def tables_ok_def)
  then show *: "pd_entry (set_entry j i v s) k = pd_entry s k"
    using assms(3) by (simp add: set_entry_def pd_entry_cell_store)
  then show "present (set_entry j i v s) k = present s k"
    "table_of (set_entry j i v s) k = table_of s k"
    by (simp_all add: present_def table_of_def)
qed

lemma set_entry_pt:
  assumes "tables_ok s" "entry_ok s j i" "k < 1024" "present s k" "l < 1024"
  shows "pt_entry (set_entry j i v s) k l = (if k = j \<and> l = i then v else pt_entry s k l)"
proof -
  have t: "table_of s j \<noteq> cr3 s" "cr3 s AND 0xFFF = 0" "i < 1024"
    using assms by (auto simp: entry_ok_def tables_ok_def)
  have "table_of s j = table_of s k \<longleftrightarrow> k = j"
  proof (cases "k = 1023")
    case True
    then show ?thesis using t assms by (auto simp: tables_ok_def entry_ok_def)
  next
    case False
    then have "k < 1023" using assms(3) by (intro below_1023)
    then show ?thesis using tables_ok_shared[of s j k] assms by (auto simp: entry_ok_def)
  qed
  then show ?thesis
    using t assms(3,5) by (auto simp: set_entry_def pt_entry_cell_store)
qed

lemma tables_ok_768: "tables_ok s \<Longrightarrow> present s 768"
  by (simp add: tables_ok_def)

lemma set_entry_tables:
  assumes "tables_ok s" "entry_ok s j i"
  shows "tables_ok (set_entry j i v s)"
proof -
  have "j \<noteq> 768" using assms(2) by (auto simp: entry_ok_def)
  then show ?thesis
    using assms(1) tables_ok_768[OF assms(1)]
    by (auto simp: tables_ok_def set_entry_pd[OF assms] set_entry_pt[OF assms] below_1024)
qed

lemma set_entry_walk:
  assumes "tables_ok s" "entry_ok s j i"
  shows "mmu_walk (phys_mem (set_entry j i v s)) (cr3 s) va =
    (if drop_bit 22 va = j \<and> drop_bit 12 va AND 0x3FF = i
     then (if v AND PAGE_PRESENT = 0 then None else Some ((v AND PAGE_FRAME) + (va AND 0xFFF)))
     else mmu_walk (phys_mem s) (cr3 s) va)"
proof (cases "present s (drop_bit 22 va)")
  case True
  let ?pt = "\<lambda>s. pt_entry s (drop_bit 22 va) (drop_bit 12 va AND 0x3FF)"
  have "mmu_walk (phys_mem (set_entry j i v s)) (cr3 s) va =
      mmu_walk (phys_mem (set_entry j i v s)) (cr3 (set_entry j i v s)) va" by simp
  also have "\<dots> = (let e = ?pt (set_entry j i v s) in
      if e AND PAGE_PRESENT = 0 then None else Some ((e AND PAGE_FRAME) + (va AND 0xFFF)))"
    using True unfolding walk_entries Let_def
    by (simp add: set_entry_pd[OF assms pd_index_less] present_def)
  also have "?pt (set_entry j i v s) =
      (if drop_bit 22 va = j \<and> drop_bit 12 va AND 0x3FF = i then v else ?pt s)"
    by (rule set_entry_pt[OF assms pd_index_less True pt_index_less])
  finally show ?thesis
    using True unfolding walk_entries[of s] present_def Let_def by presburger
next
  case False
  then have "drop_bit 22 va \<noteq> j" using assms(2) by (auto simp: entry_ok_def)
  moreover have "mmu_walk (phys_mem (set_entry j i v s)) (cr3 (set_entry j i v s)) va =
      mmu_walk (phys_mem s) (cr3 s) va"
    using False unfolding walk_entries
    by (simp add: set_entry_pd[OF assms pd_index_less] present_def)
  ultimately show ?thesis by simp
qed

text \<open>Flushing the page of the changed entry is what keeps the buffer coherent.\<close>

lemma set_entry_flush_inv:
  assumes "paging_inv s" "entry_ok s (drop_bit 22 va) (drop_bit 12 va AND 0x3FF)"
  shows "paging_inv (flush_tlb_entry va (set_entry (drop_bit 22 va) (drop_bit 12 va AND 0x3FF) v s))"
    (is "paging_inv ?t")
proof -
  let ?e = "set_entry (drop_bit 22 va) (drop_bit 12 va AND 0x3FF) v s"
  have ok: "tables_ok s" "tlb_coherent s" using assms(1) by (auto simp: paging_inv_def)
  have f: "phys_mem ?t = phys_mem ?e" "cr3 ?t = cr3 s" "cr0 ?t = cr0 s" "used ?t = used s"
    "bitmap_ok ?t = bitmap_ok s" "current_page_directory ?t = current_page_directory s"
    by (simp_all add: flush_tlb_entry_def used_def bitmap_ok_def)
  have "tables_ok ?t"
    using set_entry_tables[OF ok(1) assms(2)] tables_ok_cong[of ?t ?e] f by simp
  moreover have "tlb_coherent ?t"
    unfolding tlb_coherent_def
  proof (intro allI impI)
    fix vb frame assume tlb: "tlb ?t (drop_bit 12 vb) = Some frame"
    then have ne: "drop_bit 12 vb \<noteq> drop_bit 12 va" and "tlb s (drop_bit 12 vb) = Some frame"
      by (auto simp: flush_tlb_entry_def split: if_splits)
    then have "mmu_walk (phys_mem s) (cr3 s) vb = Some (frame + (vb AND 0xFFF))"
      using ok(2) by (simp add: tlb_coherent_def)
    moreover have "\<not> (drop_bit 22 vb = drop_bit 22 va \<and> drop_bit 12 vb AND 0x3FF = drop_bit 12 va AND 0x3FF)"
      using same_page[of vb va] ne by blast
    ultimately show "mmu_walk (phys_mem ?t) (cr3 ?t) vb = Some (frame + (vb AND 0xFFF))"
      unfolding f set_entry_walk[OF ok(1) assms(2)] by auto
  qed
  ultimately show ?thesis
    using assms(1) f by (simp add: paging_inv_def is_paging_enabled_def)
qed

section \<open>Creating a table\<close>

lemma entry_frame:
  "((p AND PAGE_FRAME) OR (f AND 0xFFF) OR PAGE_PRESENT) AND PAGE_FRAME = p AND PAGE_FRAME"
  "((p AND PAGE_FRAME) OR (f AND 0xFFF) OR PAGE_PRESENT) AND PAGE_PRESENT \<noteq> 0"
  for p f :: u32
proof -
  show "((p AND PAGE_FRAME) OR (f AND 0xFFF) OR PAGE_PRESENT) AND PAGE_FRAME = p AND PAGE_FRAME"
    unfolding page_masks by (rule bit_word_eqI) (auto simp: bit_simps)
  have "bit (((p AND PAGE_FRAME) OR (f AND 0xFFF) OR PAGE_PRESENT) AND PAGE_PRESENT) 0"
    by (simp add: bit_simps)
  then show "((p AND PAGE_FRAME) OR (f AND 0xFFF) OR PAGE_PRESENT) AND PAGE_PRESENT \<noteq> 0"
    by fastforce
qed

lemma table_entry:
  assumes "a AND 0xFFF = 0"
  shows "(a OR PAGE_PRESENT OR PAGE_WRITE) AND PAGE_FRAME = a"
    and "(a OR PAGE_PRESENT OR PAGE_WRITE) AND PAGE_PRESENT \<noteq> 0"
proof -
  have "a OR PAGE_PRESENT OR PAGE_WRITE = (a AND PAGE_FRAME) OR (PAGE_WRITE AND 0xFFF) OR PAGE_PRESENT"
    using assms by (simp add: page_aligned_frame or.assoc or.left_commute)
  then show "(a OR PAGE_PRESENT OR PAGE_WRITE) AND PAGE_FRAME = a"
    "(a OR PAGE_PRESENT OR PAGE_WRITE) AND PAGE_PRESENT \<noteq> 0"
    using entry_frame[of a "PAGE_WRITE"] assms by (simp_all add: page_aligned_frame)
qed

definition new_table :: "u32 \<Rightarrow> u32 \<Rightarrow> 'a paging_state_scheme \<Rightarrow> 'a paging_state_scheme" where
  "new_table j a s = s\<lparr>phys_mem := write32 (cell (cr3 s) j) (a OR PAGE_PRESENT OR PAGE_WRITE)
     (clear_page a (phys_mem s))\<rparr>"

text \<open>A frame the allocator hands out is none of those that hold the directory or a table.\<close>

lemma fresh_frame:
  assumes inv: "paging_inv s" and al: "alloc_frame s = (a, s1)" and "a \<noteq> 0"
  shows "a AND 0xFFF = 0" "frame_no a \<notin> used s" "used s1 = insert (frame_no a) (used s)"
    "bitmap_ok s1" "a \<noteq> cr3 s" "\<And>k. k < 1024 \<Longrightarrow> present s k \<Longrightarrow> table_of s k \<noteq> a"
proof -
  have b: "bitmap_ok s" "0 \<in> used s" "tables_ok s" using inv by (auto simp: paging_inv_def)
  obtain f where f: "unat a = f * 4096" "f \<notin> used s" "used s1 = insert f (used s)"
    using bitmap.alloc_cases[OF b(1,2) al] \<open>a \<noteq> 0\<close> by blast
  then have "frame_no a = f" by (simp add: frame_no_def)
  with f show new: "frame_no a \<notin> used s" and "used s1 = insert (frame_no a) (used s)" by simp_all
  show "a AND 0xFFF = 0" using f(1) by (simp add: word_unat_eq_iff unat_and_FFF)
  show "bitmap_ok s1" using bitmap.inv_alloc[OF b(1)] al by simp
  show dir: "a \<noteq> cr3 s" using b(3) new by (auto simp: tables_ok_def)
  show "table_of s k \<noteq> a" if "k < 1024" "present s k" for k
    using tables_okD(2)[OF b(3) that(2)] table_is_dir[OF b(3) that(2,1)] below_1023[OF that(1)] new dir
    by auto
qed

lemma window_byte_page:
  assumes "window_ok s" "cr3 s AND 0xFFF = 0" "b AND 0xFFF = 0" "b < 0x400000"
    "b \<noteq> cr3 s" "b \<noteq> table_of s 768" "k < 4096"
  shows "window_byte s (P2V b + k)"
proof -
  have p: "(b + k) AND PAGE_FRAME = b" by (rule page_offset(1)[OF assms(3,7)])
  have "b + k \<noteq> cell (cr3 s AND PAGE_FRAME) 768 + l" if "l < 4" for l
    using p cell_byte(1)[OF assms(2) _ that, of 768] assms(2,5)
    by (auto simp: page_aligned_frame)
  then show ?thesis
    using p assms page_below[OF assms(3,4,7)]
    by (auto simp: window_byte_def maps_window_def V2P_add)
qed

lemma window_byte_dir:
  assumes "window_ok s" "cr3 s AND 0xFFF = 0" "cr3 s < 0x400000" "cr3 s \<noteq> table_of s 768"
    "j < 1024" "j \<noteq> 768" "k < 4"
  shows "window_byte s (cell (P2V (cr3 s)) j + k)"
proof -
  have "cell (cr3 s) j + k \<noteq> cell (cr3 s AND PAGE_FRAME) 768 + l" if "l < 4" for l
    using cell_byte_inj[OF assms(2,2,5) _ assms(7) that, of 768] assms(2,6)
    by (auto simp: page_aligned_frame)
  then show ?thesis
    using assms cell_below[OF assms(2,3,5,7)] cell_byte(1)[OF assms(2,5,7)]
    by (auto simp: window_byte_def maps_window_def V2P_add cell_P2V)
qed

lemma clear_keeps_window:
  assumes "window_ok s" "cr3 s AND 0xFFF = 0" "b \<noteq> cr3 s" "b \<noteq> table_of s 768"
  shows "window_ok (s\<lparr>phys_mem := clear_page b (phys_mem s)\<rparr>)"
  unfolding window_ok_def
proof (intro allI impI)
  let ?s = "s\<lparr>phys_mem := clear_page b (phys_mem s)\<rparr>"
  fix pa :: u32 assume pa: "pa < 0x400000"
  have "mmu_walk (phys_mem ?s) (cr3 ?s) (P2V pa) = mmu_walk (phys_mem s) (cr3 s) (P2V pa)"
    unfolding walk_entries window_indices[OF pa]
    using assms window_indices(4)[OF pa] by (simp add: pd_entry_clear pt_entry_clear)
  moreover from this have "mmu_translate ?s (P2V pa) = mmu_translate s (P2V pa)"
    by (simp add: mmu_translate_def split: option.splits)
  ultimately show "mmu_walk (phys_mem ?s) (cr3 ?s) (P2V pa) = Some pa \<and>
      mmu_translate ?s (P2V pa) = Some pa"
    using assms(1) pa by (simp add: window_ok_def)
qed

lemma get_page_table_create:
  assumes inv: "paging_inv s" and abs: "\<not> present s (drop_bit 22 va)"
    and al: "alloc_frame s = (a, s1)" and a: "a \<noteq> 0" "a < 0x400000"
  shows "get_page_table va True s = Inr (P2V a,
    log_debug DEBUG_LEVEL_TRACE ''Created new page table at physical %x for address %x''
      [Va_int a, Va_int va] (new_table (drop_bit 22 va) a s1))"
proof -
  let ?j = "drop_bit 22 va"
  note d = inv_dir[OF inv] and fr = fresh_frame[OF inv al a(1)] and af = alloc_frame_fields[OF al]
  have t: "tables_ok s" using inv by (simp add: paging_inv_def)
  have ec: "table_of s1 = table_of s" "pd_entry s1 = pd_entry s"
    using entries_cong[of s1 s] af by auto
  have T: "a \<noteq> table_of s 768" "cr3 s \<noteq> table_of s 768" "?j \<noteq> 768"
    using fr(6)[of 768] tables_okD(3)[OF t, of 768] tables_ok_768[OF t] abs by auto
  have w: "window_ok s1" using inv_window[OF inv] window_ok_cong[of s1 s] af by simp
  let ?s2 = "s1\<lparr>phys_mem := clear_page a (phys_mem s1)\<rparr>"
  have "window_byte s1 (P2V a + k)" if "k < 4096" for k
    using w d fr(1,5) a T that by (intro window_byte_page) (simp_all add: af ec)
  then have "memset vm_st (P2V a) 0 4096 s1 = Inr (P2V a, ?s2)"
    by (rule window_memset[OF fr(1)])
  moreover have "window_byte ?s2 (cell (P2V (cr3 ?s2)) ?j + k)" if "k < 4" for k
  proof (rule window_byte_dir[OF _ _ _ _ pd_index_less T(3) that])
    show "window_ok ?s2" using w d fr(5) T by (intro clear_keeps_window) (simp_all add: af ec)
    have "pd_entry ?s2 768 = pd_entry s1 768"
      by (rule pd_entry_clear) (use d fr(5) in \<open>simp_all add: af\<close>)
    then show "cr3 ?s2 \<noteq> table_of ?s2 768"
      using T(2) by (simp add: table_of_def ec af)
  qed (simp_all add: d af)
  then have "st32 vm_st (cell (P2V (cr3 ?s2)) ?j) v ?s2 =
      Inr (?s2\<lparr>phys_mem := write32 (cell (cr3 s) ?j) v (phys_mem ?s2)\<rparr>)" for v
    by (subst window_st32) (simp_all add: cell_P2V af)
  moreover have "cell (current_page_directory s) ?j = cell (P2V (cr3 ?s2)) ?j"
    by (simp add: d af)
  moreover have "ld32 vm_ld (cell (current_page_directory s) ?j) s = Inr (pd_entry s ?j)"
    by (rule ld_directory[OF inv pd_index_less])
  ultimately show ?thesis
    using abs a al by (simp add: get_page_table_def Let_def present_def new_table_def af)
qed

text \<open>The invariant holds once the new table is in the directory, and every translation is as it was.\<close>

lemma new_table_entries:
  assumes d: "cr3 s AND 0xFFF = 0" and a: "a AND 0xFFF = 0" "a \<noteq> cr3 s" and j: "j < 1024" and k: "k < 1024"
  shows "pd_entry (new_table j a s) k = (if k = j then a OR PAGE_PRESENT OR PAGE_WRITE else pd_entry s k)"
    and "present (new_table j a s) k \<longleftrightarrow> k = j \<or> present s k"
    and "table_of (new_table j a s) k = (if k = j then a else table_of s k)"
proof -
  let ?c = "s\<lparr>phys_mem := clear_page a (phys_mem s)\<rparr>"
  have n: "new_table j a s =
      ?c\<lparr>phys_mem := write32 (cell (cr3 s) j) (a OR PAGE_PRESENT OR PAGE_WRITE) (phys_mem ?c)\<rparr>"
    by (simp add: new_table_def)
  show pd: "pd_entry (new_table j a s) k =
      (if k = j then a OR PAGE_PRESENT OR PAGE_WRITE else pd_entry s k)"
    unfolding n using d a j k pd_entry_clear[OF d a(2) k]
    by (subst pd_entry_cell_store) auto
  show "present (new_table j a s) k \<longleftrightarrow> k = j \<or> present s k"
    "table_of (new_table j a s) k = (if k = j then a else table_of s k)"
    using table_entry[OF a(1)] by (auto simp: present_def table_of_def pd)
qed

lemma new_table_pt:
  assumes d: "cr3 s AND 0xFFF = 0" and a: "a AND 0xFFF = 0" "a \<noteq> cr3 s" and j: "j < 1024"
    and k: "k < 1024" and i: "i < 1024" and T: "k \<noteq> j \<Longrightarrow> table_of s k \<noteq> a"
  shows "pt_entry (new_table j a s) k i =
    (if k = j then 0
     else if table_of s k = cr3 s then pd_entry (new_table j a s) i else pt_entry s k i)"
proof -
  have "pt_entry (new_table j a s) k i =
      read32 (write32 (cell (cr3 s) j) (a OR PAGE_PRESENT OR PAGE_WRITE) (clear_page a (phys_mem s)))
        (cell (if k = j then a else table_of s k) i)"
    by (simp add: pt_entry_def new_table_entries(3)[OF d a j k]) (simp add: new_table_def)
  also have "\<dots> = (if cr3 s = (if k = j then a else table_of s k) \<and> j = i
      then a OR PAGE_PRESENT OR PAGE_WRITE
      else read32 (clear_page a (phys_mem s)) (cell (if k = j then a else table_of s k) i))"
    using a(1) by (intro read_cell_write[OF d _ j i]) simp
  finally show ?thesis
    using a T new_table_entries(1)[OF d a j i] i d
    by (auto simp: read_cell_clear pt_entry_def pd_entry_def page_aligned_frame)
qed

lemma new_table_used: "used (new_table j a s) = used s" "bitmap_ok (new_table j a s) = bitmap_ok s"
  by (simp_all add: new_table_def used_def bitmap_ok_def)

lemma new_table_fields [simp]:
  "cr3 (new_table j a s) = cr3 s" "cr0 (new_table j a s) = cr0 s" "tlb (new_table j a s) = tlb s"
  "current_page_directory (new_table j a s) = current_page_directory s"
  by (simp_all add: new_table_def)

lemma new_table_walk:
  assumes inv: "paging_inv s" and abs: "\<not> present s j" and j: "j < 1023"
    and al: "alloc_frame s = (a, s1)" and a: "a \<noteq> 0"
    and va: "\<not> (drop_bit 22 va = 1023 \<and> drop_bit 12 va AND 0x3FF = j)"
  shows "mmu_walk (phys_mem (new_table j a s1)) (cr3 s) va = mmu_walk (phys_mem s) (cr3 s) va"
proof -
  let ?n = "new_table j a s1" and ?k = "drop_bit 22 va" and ?i = "drop_bit 12 va AND 0x3FF"
  note fr = fresh_frame[OF inv al a] and af = alloc_frame_fields[OF al]
  have t: "tables_ok s" and j': "j < 1024"
    using inv j by (auto simp: paging_inv_def intro: below_1024)
  have ec: "table_of s1 = table_of s" "pd_entry s1 = pd_entry s" "pt_entry s1 = pt_entry s"
    "present s1 = present s" using entries_cong[of s1 s] af by auto
  have d: "cr3 s1 AND 0xFFF = 0" "a \<noteq> cr3 s1" using inv_dir[OF inv] fr(5) by (simp_all add: af)
  note ne = new_table_entries[OF d(1) fr(1) d(2) j']
  note npt = new_table_pt[OF d(1) fr(1) d(2) j' pd_index_less pt_index_less, of va va]
  have "mmu_walk (phys_mem ?n) (cr3 ?n) va = mmu_walk (phys_mem s) (cr3 s) va"
  proof (cases "present s ?k")
    case False
    then show ?thesis
      using npt ne(1)[OF pd_index_less, of va]
      unfolding walk_entries by (cases "?k = j") (simp_all add: present_def ec)
  next
    case True
    then have kj: "?k \<noteq> j" using abs by auto
    have "?i \<noteq> j" if "table_of s ?k = cr3 s"
      using that va table_is_dir[OF t True pd_index_less] by simp
    then have "pt_entry ?n ?k ?i = pt_entry s ?k ?i"
      using npt ne(1)[OF pt_index_less, of va] kj fr(6)[OF pd_index_less True] inv_dir(3)[OF inv]
      by (auto simp: ec af pt_entry_def pd_entry_def)
    then show ?thesis
      using kj ne(1)[OF pd_index_less, of va] unfolding walk_entries by (simp add: ec)
  qed
  then show ?thesis by (simp add: af)
qed

text \<open>The one page the new entry adds is the table itself, seen through the recursive entry.\<close>

lemma recursive_absent:
  assumes "tables_ok s" "\<not> present s (drop_bit 12 va AND 0x3FF)" "drop_bit 22 va = 1023"
  shows "mmu_walk (phys_mem s) (cr3 s) va = None"
proof (cases "present s 1023")
  case True
  then have "table_of s 1023 = cr3 s AND PAGE_FRAME"
    using assms(1) by (auto simp: tables_ok_def page_aligned_frame)
  then have "pt_entry s 1023 (drop_bit 12 va AND 0x3FF) = pd_entry s (drop_bit 12 va AND 0x3FF)"
    by (simp add: pt_entry_def pd_entry_def)
  with assms(2,3) show ?thesis unfolding walk_entries by (simp add: present_def)
next
  case False
  with assms(3) show ?thesis unfolding walk_entries by (simp add: present_def)
qed

lemma new_table_inv:
  assumes inv: "paging_inv s" and abs: "\<not> present s j" and j: "j < 1023"
    and al: "alloc_frame s = (a, s1)" and a: "a \<noteq> 0" "a < 0x400000"
  shows "paging_inv (new_table j a s1)"
proof -
  let ?n = "new_table j a s1"
  note fr = fresh_frame[OF inv al a(1)] and af = alloc_frame_fields[OF al]
  have t: "tables_ok s" "tlb_coherent s" and j': "j < 1024"
    using inv j by (auto simp: paging_inv_def intro: below_1024)
  have ec: "table_of s1 = table_of s" "pd_entry s1 = pd_entry s" "pt_entry s1 = pt_entry s"
    "present s1 = present s" using entries_cong[of s1 s] af by auto
  have d: "cr3 s1 AND 0xFFF = 0" "a \<noteq> cr3 s1" using inv_dir[OF inv] fr(5) by (simp_all add: af)
  note ne = new_table_entries[OF d(1) fr(1) d(2) j']
  have j768: "j \<noteq> 768" using abs tables_ok_768[OF t(1)] by auto
  have "pt_entry ?n 768 i = pt_entry s 768 i" if "i < 1024" for i
    using new_table_pt[OF d(1) fr(1) d(2) j' _ that, of 768] fr(6)[of 768] j768
      tables_ok_768[OF t(1)] table_is_dir[OF t(1), of 768] by (simp add: ec af)
  moreover have "frame_no (cr3 s) \<in> used s1" using t(1) fr(3) by (simp add: tables_ok_def)
  ultimately have "tables_ok ?n"
    using t(1) fr a j768 j
    by (auto simp: tables_ok_def ne below_1024 ec af new_table_used)
  moreover have "tlb_coherent ?n"
    unfolding tlb_coherent_def
  proof (intro allI impI)
    fix va frame assume "tlb ?n (drop_bit 12 va) = Some frame"
    then have w: "mmu_walk (phys_mem s) (cr3 s) va = Some (frame + (va AND 0xFFF))"
      using t(2) by (simp add: tlb_coherent_def af)
    then have "\<not> (drop_bit 22 va = 1023 \<and> drop_bit 12 va AND 0x3FF = j)"
      using recursive_absent[OF t(1), of va] abs by auto
    from new_table_walk[OF inv abs j al a(1) this] w
    show "mmu_walk (phys_mem ?n) (cr3 ?n) va = Some (frame + (va AND 0xFFF))" by (simp add: af)
  qed
  ultimately show ?thesis
    using inv fr by (simp add: paging_inv_def is_paging_enabled_def new_table_used af)
qed

end
