(* ===== verification/Paging_Ops.thy ===== *)
theory Paging_Ops
  imports Paging_Inv
begin

text \<open>
  What the operations of \<^verbatim>\<open>paging.c\<close> do under the invariant: mapping, unmapping, the software
  walk, page allocation and initialisation from the tables boot builds, and runs of the whole
  system with the processor caching translations in between.
\<close>

section \<open>Obtaining a table\<close>

text \<open>
  An address whose mapping can be changed: not under the recursive entry and not served by the
  table of the kernel window.
\<close>

definition mappable :: "'a paging_state_scheme \<Rightarrow> u32 \<Rightarrow> bool" where
  "mappable s va \<longleftrightarrow> drop_bit 22 va < 1023 \<and>
     (present s (drop_bit 22 va) \<longrightarrow> table_of s (drop_bit 22 va) \<noteq> table_of s 768)"

text \<open>A table is there already, or a frame of the window is free to hold a new one.\<close>

definition table_available :: "'a paging_state_scheme \<Rightarrow> u32 \<Rightarrow> bool" where
  "table_available s va \<longleftrightarrow> present s (drop_bit 22 va) \<or> (\<exists>f<1024. f \<notin> used s)"

lemma mappable_log [simp]: "mappable (log_debug l f x s) = mappable s"
  by (simp add: mappable_def[abs_def])

lemma table_available_log [simp]: "table_available (log_debug l f x s) = table_available s"
  by (simp add: table_available_def[abs_def])

lemma translate_log [simp]:
  "mmu_translate (log_debug l f x s) = mmu_translate s"
  "mmu_translate (log_printf f x s) = mmu_translate s"
  by (intro ext; simp add: mmu_translate_def split: option.splits)+

text \<open>
  No frame is given up and at most one taken, tables stay where they are, and a table that is new lies
  in a frame that was free.
\<close>

definition tables_grow :: "'a paging_state_scheme \<Rightarrow> 'a paging_state_scheme \<Rightarrow> bool" where
  "tables_grow s t \<longleftrightarrow> cr3 t = cr3 s \<and> used s \<subseteq> used t \<and> (\<exists>f. used t \<subseteq> insert f (used s)) \<and>
     (\<forall>j<1024. present s j \<longrightarrow> present t j \<and> table_of t j = table_of s j) \<and>
     (\<forall>j<1024. present t j \<longrightarrow>
        present s j \<and> table_of t j = table_of s j \<or> frame_no (table_of t j) \<notin> used s)"

lemma tables_grow_log [simp]:
  "tables_grow (log_debug l f x s) t = tables_grow s t" "tables_grow s (log_debug l f x t) = tables_grow s t"
  by (simp_all add: tables_grow_def)

lemma tables_grow_refl [simp]: "tables_grow s s"
  by (auto simp: tables_grow_def)

text \<open>So an address that could be mapped still can.\<close>

lemma mappable_grow:
  assumes "paging_inv s" "tables_grow s t" "mappable s va"
  shows "mappable t va"
proof -
  have t: "present s 768" "frame_no (table_of s 768) \<in> used s"
    using assms(1) by (auto simp: paging_inv_def tables_ok_def)
  then have "table_of t 768 = table_of s 768" using assms(2) by (simp add: tables_grow_def)
  then show ?thesis using assms(2,3) t(2) pd_index_less[of va] unfolding mappable_def tables_grow_def by metis
qed

text \<open>The allocator serves the window first.\<close>

lemma alloc_in_window:
  assumes "paging_inv s" "f < 1024" "f \<notin> used s"
  obtains a s1 where "alloc_frame s = (a, s1)" "a \<noteq> 0" "a < 0x400000"
proof -
  have b: "bitmap_ok s" "0 \<in> used s" using assms(1) by (auto simp: paging_inv_def)
  obtain a s1 where al: "alloc_frame s = (a, s1)" by fastforce
  from b al show ?thesis
  proof (cases rule: bitmap.alloc_cases)
    case fail
    then show ?thesis using assms(2,3) by simp
  next
    case (frame g)
    then have "g \<le> f" using assms(3) by (meson linorder_not_less)
    then have "a < 0x400000" using frame(2) assms(2) by (simp add: word_less_nat_alt)
    then show ?thesis using al frame(3) that by blast
  qed
qed

lemma get_page_table_ok:
  assumes inv: "paging_inv s" and m: "mappable s va" and tab: "table_available s va"
  obtains t where "get_page_table va True s = Inr (P2V (table_of t (drop_bit 22 va)), t)"
    "paging_inv t" "entry_ok t (drop_bit 22 va) (drop_bit 12 va AND 0x3FF)"
    "cr3 t = cr3 s" "cr0 t = cr0 s"
    "\<forall>vb. drop_bit 22 vb \<noteq> 1023 \<longrightarrow>
       mmu_walk (phys_mem t) (cr3 s) vb = mmu_walk (phys_mem s) (cr3 s) vb"
    "tables_grow s t" "\<forall>k<1024. present t k \<longleftrightarrow> k = drop_bit 22 va \<or> present s k"
proof (cases "present s (drop_bit 22 va)")
  case True
  then show ?thesis
    using that[OF _ _ _ _ _ _ _] get_page_table_present[OF inv True] inv m pt_index_less[of va]
    by (auto simp: entry_ok_def mappable_def)
next
  case False
  then obtain f where f: "f < 1024" "f \<notin> used s" using tab by (auto simp: table_available_def)
  obtain a s1 where al: "alloc_frame s = (a, s1)" "a \<noteq> 0" "a < 0x400000"
    using alloc_in_window[OF inv f] by blast
  let ?j = "drop_bit 22 va"
  let ?t = "log_debug DEBUG_LEVEL_TRACE ''Created new page table at physical %x for address %x''
      [Va_int a, Va_int va] (new_table ?j a s1)"
  have j: "?j < 1023" using m by (simp add: mappable_def)
  have t: "tables_ok s" using inv by (simp add: paging_inv_def)
  have "?j \<noteq> 768" using False tables_ok_768[OF t] by auto
  note fr = fresh_frame[OF inv al(1,2)] and af = alloc_frame_fields[OF al(1)]
  have ne: "present (new_table ?j a s1) ?j" "table_of (new_table ?j a s1) ?j = a"
    "table_of (new_table ?j a s1) 768 = table_of s 768"
    using new_table_entries[of s1 a ?j, OF _ fr(1) _ pd_index_less] inv_dir[OF inv] fr(5)
      \<open>?j \<noteq> 768\<close> pd_index_less[of va] entries_cong[of s1 s] af by simp_all
  show ?thesis
  proof (rule that)
    show "get_page_table va True s = Inr (P2V (table_of ?t ?j), ?t)"
      using get_page_table_create[OF inv False al] ne by simp
    show "paging_inv ?t" using new_table_inv[OF inv False j al] by simp
    show "entry_ok ?t ?j (drop_bit 12 va AND 0x3FF)"
      using j ne fr(6)[of 768] tables_ok_768[OF t] by (auto simp: entry_ok_def pt_index_less)
    show "\<forall>vb. drop_bit 22 vb \<noteq> 1023 \<longrightarrow>
        mmu_walk (phys_mem ?t) (cr3 s) vb = mmu_walk (phys_mem s) (cr3 s) vb"
      using new_table_walk[OF inv False j al(1,2)] by simp
    show "tables_grow s ?t"
      using new_table_entries[of s1 a ?j, OF _ fr(1) _ pd_index_less] inv_dir[OF inv] fr(2,3,5)
        entries_cong[of s1 s] af False by (auto simp: tables_grow_def new_table_used)
    show "\<forall>k<1024. present ?t k \<longleftrightarrow> k = ?j \<or> present s k"
      using new_table_entries(2)[of s1 a ?j, OF _ fr(1) _ pd_index_less] inv_dir[OF inv] fr(5)
        entries_cong[of s1 s] af by simp
  qed (simp_all add: af)
qed

section \<open>Storing an entry through the window\<close>

lemma P2V_window_nonzero: "a < 0x400000 \<Longrightarrow> P2V a \<noteq> 0"
  by (simp add: P2V_def word_less_nat_alt word_unat_eq_iff unat_word_ariths)

lemma table_in_window:
  assumes "paging_inv s" "present s j" "j < 1024"
  shows "table_of s j < 0x400000"
proof -
  have t: "tables_ok s" using assms(1) by (simp add: paging_inv_def)
  show ?thesis
  proof (cases "j = 1023")
    case True
    then show ?thesis using t assms(2) by (auto simp: tables_ok_def)
  next
    case False
    then show ?thesis using tables_okD(1)[OF t assms(2) below_1023[OF assms(3)]] by simp
  qed
qed

lemma ld_table:
  assumes "paging_inv s" "present s j" "j < 1024" "i < 1024"
  shows "ld32 vm_ld (cell (P2V (table_of s j)) i) s = Inr (pt_entry s j i)"
proof -
  have "V2P (cell (P2V (table_of s j)) i + k) < 0x400000" if "k < 4" for k
    using cell_below[OF table_of_aligned table_in_window[OF assms(1-3)] assms(4) that]
    by (simp add: V2P_add cell_P2V)
  then show ?thesis
    using inv_window[OF assms(1)] by (simp add: window_ld32 cell_P2V pt_entry_def)
qed

lemma st_table:
  assumes inv: "paging_inv s" and e: "entry_ok s j i"
  shows "st32 vm_st (cell (P2V (table_of s j)) i) v s = Inr (set_entry j i v s)"
proof -
  have t: "tables_ok s" using inv by (simp add: paging_inv_def)
  have j: "j < 1023" "i < 1024" "present s j" "table_of s j \<noteq> table_of s 768"
    using e by (simp_all add: entry_ok_def)
  have "window_byte s (cell (P2V (table_of s j)) i + k)" if "k < 4" for k
  proof -
    have "4 * i + k < 4096" using j(2) that by (simp add: word_less_nat_alt unat_word_ariths)
    then have "window_byte s (P2V (table_of s j) + (4 * i + k))"
      using inv_window[OF inv] inv_dir[OF inv] tables_okD[OF t j(3,1)] j(4)
      by (intro window_byte_page) simp_all
    then show ?thesis by (simp add: cell_def add.assoc)
  qed
  then show ?thesis by (subst window_st32) (simp_all add: set_entry_def cell_P2V)
qed

section \<open>Mapping and unmapping\<close>

lemma flush_fields [simp]:
  "phys_mem (flush_tlb_entry va s) = phys_mem s" "cr3 (flush_tlb_entry va s) = cr3 s"
  "cr0 (flush_tlb_entry va s) = cr0 s"
  by (simp_all add: flush_tlb_entry_def)

lemma inv_translate: "paging_inv s \<Longrightarrow> mmu_translate s va = mmu_walk (phys_mem s) (cr3 s) va"
  by (simp add: paging_inv_def translate_walk)

text \<open>The common tail of \<^verbatim>\<open>map_page_to_frame\<close> and \<^verbatim>\<open>unmap_page\<close>: store the entry, flush its page.\<close>

lemma store_and_flush:
  fixes v :: u32
  assumes inv: "paging_inv s" and e: "entry_ok s (drop_bit 22 va) (drop_bit 12 va AND 0x3FF)"
  defines "t \<equiv> flush_tlb_entry va (set_entry (drop_bit 22 va) (drop_bit 12 va AND 0x3FF) v s)"
  shows "P2V (table_of s (drop_bit 22 va)) \<noteq> 0"
    and "bindE (st32 vm_st (cell (P2V (table_of s (drop_bit 22 va))) (drop_bit 12 va AND 0x3FF)) v s) f =
      f (set_entry (drop_bit 22 va) (drop_bit 12 va AND 0x3FF) v s)"
    and "paging_inv t"
    and "mmu_translate t vb =
      (if drop_bit 12 vb = drop_bit 12 va
       then (if v AND PAGE_PRESENT = 0 then None else Some ((v AND PAGE_FRAME) + (vb AND 0xFFF)))
       else mmu_translate s vb)"
proof -
  have ok: "tables_ok s" "drop_bit 22 va < 1023" "present s (drop_bit 22 va)"
    using inv e by (auto simp: paging_inv_def entry_ok_def)
  show "P2V (table_of s (drop_bit 22 va)) \<noteq> 0"
    by (intro P2V_window_nonzero tables_okD(1)[OF ok(1,3,2)])
  show "bindE (st32 vm_st (cell (P2V (table_of s (drop_bit 22 va))) (drop_bit 12 va AND 0x3FF)) v s) f =
      f (set_entry (drop_bit 22 va) (drop_bit 12 va AND 0x3FF) v s)"
    by (simp add: st_table[OF inv e])
  show t: "paging_inv t" unfolding t_def by (rule set_entry_flush_inv[OF inv e])
  have pg: "drop_bit 22 vb = drop_bit 22 va \<and> drop_bit 12 vb AND 0x3FF = drop_bit 12 va AND 0x3FF \<longleftrightarrow>
      drop_bit 12 vb = drop_bit 12 va" (is "?l \<longleftrightarrow> ?r")
  proof
    show "?l \<Longrightarrow> ?r" using same_page by blast
    assume ?r
    then have "drop_bit 10 (drop_bit 12 vb) = drop_bit 10 (drop_bit 12 va)" by simp
    then have "drop_bit 22 vb = drop_bit 22 va" by (simp only: drop_bit_drop_bit) simp
    with \<open>?r\<close> show ?l by simp
  qed
  show "mmu_translate t vb =
      (if drop_bit 12 vb = drop_bit 12 va
       then (if v AND PAGE_PRESENT = 0 then None else Some ((v AND PAGE_FRAME) + (vb AND 0xFFF)))
       else mmu_translate s vb)"
    unfolding inv_translate[OF t] inv_translate[OF inv]
    by (simp add: t_def set_entry_walk[OF ok(1) e] pg)
qed

lemma flush_entries [simp]:
  "present (flush_tlb_entry va s) = present s" "table_of (flush_tlb_entry va s) = table_of s"
  "used (flush_tlb_entry va s) = used s"
  using entries_cong[of "flush_tlb_entry va s" s] by (simp_all add: flush_tlb_entry_def used_def)

lemma store_flush_grow:
  assumes "paging_inv s" "entry_ok s j i"
  shows "tables_grow u (flush_tlb_entry va (set_entry j i v s)) = tables_grow u s"
  using assms set_entry_pd[of s j i] by (simp add: tables_grow_def paging_inv_def)

lemma map_page_ok:
  assumes inv: "paging_inv s" and m: "mappable s va" and tab: "table_available s va"
  obtains t where "map_page_to_frame va pa flags s = Inr t" "paging_inv t"
    "mmu_translate t va = Some ((pa AND PAGE_FRAME) + (va AND 0xFFF))"
    "\<forall>vb. drop_bit 22 vb \<noteq> 1023 \<and> drop_bit 12 vb \<noteq> drop_bit 12 va \<longrightarrow>
       mmu_translate t vb = mmu_translate s vb"
    "tables_grow s t" "\<forall>k<1024. present t k \<longleftrightarrow> k = drop_bit 22 va \<or> present s k"
proof -
  let ?l = "log_debug DEBUG_LEVEL_DEBUG ''Mapping virtual %x to physical %x with flags %x''
                [Va_int va, Va_int pa, Va_int flags] s"
  have "paging_inv ?l" "mappable ?l va" "table_available ?l va" using assms by simp_all
  then obtain u where
    u: "get_page_table va True ?l = Inr (P2V (table_of u (drop_bit 22 va)), u)" "paging_inv u"
      "entry_ok u (drop_bit 22 va) (drop_bit 12 va AND 0x3FF)" "cr3 u = cr3 ?l" "cr0 u = cr0 ?l"
      "\<forall>vb. drop_bit 22 vb \<noteq> 1023 \<longrightarrow>
       mmu_walk (phys_mem u) (cr3 ?l) vb = mmu_walk (phys_mem ?l) (cr3 ?l) vb" "tables_grow ?l u"
      "\<forall>k<1024. present u k \<longleftrightarrow> k = drop_bit 22 va \<or> present ?l k"
    by (rule get_page_table_ok)
  note sf = store_and_flush[OF u(2,3)]
  have keep: "mmu_translate u vb = mmu_translate s vb" if "drop_bit 22 vb \<noteq> 1023" for vb
    using u(4,6) that by (simp add: inv_translate[OF u(2)] inv_translate[OF inv])
  have "tables_ok u" using u(2) by (simp add: paging_inv_def)
  note pd = set_entry_pd(2)[OF this u(3)]
  show ?thesis
  proof (rule that)
    show "map_page_to_frame va pa flags s =
        Inr (log_debug DEBUG_LEVEL_TRACE ''Mapped virtual %x to physical %x (PD idx: %u, PT idx: %u)''
          [Va_int va, Va_int pa, Va_int (drop_bit 22 va), Va_int (drop_bit 12 va AND 0x3FF)]
          (flush_tlb_entry va (set_entry (drop_bit 22 va) (drop_bit 12 va AND 0x3FF)
             ((pa AND PAGE_FRAME) OR (flags AND 0xFFF) OR PAGE_PRESENT) u)))"
      using sf(1) unfolding map_page_to_frame_def Let_def u(1) by (simp add: sf(2))
    show "\<forall>k<1024. present (log_debug DEBUG_LEVEL_TRACE ''Mapped virtual %x to physical %x (PD idx: %u, PT idx: %u)''
          [Va_int va, Va_int pa, Va_int (drop_bit 22 va), Va_int (drop_bit 12 va AND 0x3FF)]
          (flush_tlb_entry va (set_entry (drop_bit 22 va) (drop_bit 12 va AND 0x3FF)
             ((pa AND PAGE_FRAME) OR (flags AND 0xFFF) OR PAGE_PRESENT) u))) k \<longleftrightarrow> k = drop_bit 22 va \<or> present s k"
      using u(8) by (simp add: pd)
  qed (use sf(3,4) keep entry_frame[of pa flags] store_flush_grow[OF u(2,3)] u(7) in auto)
qed

lemma unmap_page_ok:
  assumes inv: "paging_inv s" and m: "mappable s va"
  obtains t where "unmap_page va s = Inr t" "paging_inv t" "mmu_translate t va = None"
    "\<forall>vb. drop_bit 12 vb \<noteq> drop_bit 12 va \<longrightarrow> mmu_translate t vb = mmu_translate s vb"
    "frame_bitmap t = frame_bitmap s" "tables_grow s t"
proof (cases "present s (drop_bit 22 va)")
  case False
  then have "mmu_translate s va = None"
    unfolding inv_translate[OF inv] walk_entries by (simp add: present_def)
  with False inv get_page_table_absent[of "log_debug l f x s" va for l f x] show ?thesis
    by (intro that[of "log_debug DEBUG_LEVEL_WARNING ''Page table not found for virtual address %x''
          [Va_int va] (log_debug DEBUG_LEVEL_DEBUG ''Unmapping virtual address %x'' [Va_int va] s)"])
      (simp_all add: unmap_page_def Let_def)
next
  case True
  let ?l = "log_debug DEBUG_LEVEL_DEBUG ''Unmapping virtual address %x'' [Va_int va] s"
  let ?g = "log_debug DEBUG_LEVEL_TRACE ''Using existing page table at physical %x for address %x''
      [Va_int (table_of s (drop_bit 22 va)), Va_int va] ?l"
  have e: "paging_inv ?g" "entry_ok ?g (drop_bit 22 va) (drop_bit 12 va AND 0x3FF)"
    using inv True m pt_index_less[of va] by (simp_all add: entry_ok_def mappable_def)
  note sf = store_and_flush[OF e]
  have g: "get_page_table va False ?l = Inr (P2V (table_of ?g (drop_bit 22 va)), ?g)"
    using get_page_table_present[of ?l va] inv True by simp
  show ?thesis
  proof (rule that)
    show "unmap_page va s =
        Inr (log_debug DEBUG_LEVEL_TRACE ''Unmapped virtual address %x (PD idx: %u, PT idx: %u)''
          [Va_int va, Va_int (drop_bit 22 va), Va_int (drop_bit 12 va AND 0x3FF)]
          (flush_tlb_entry va (set_entry (drop_bit 22 va) (drop_bit 12 va AND 0x3FF) 0 ?g)))"
      using sf(1) unfolding unmap_page_def Let_def g by (simp add: sf(2)[unfolded entries_log])
    show "frame_bitmap (log_debug DEBUG_LEVEL_TRACE ''Unmapped virtual address %x (PD idx: %u, PT idx: %u)''
          [Va_int va, Va_int (drop_bit 22 va), Va_int (drop_bit 12 va AND 0x3FF)]
          (flush_tlb_entry va (set_entry (drop_bit 22 va) (drop_bit 12 va AND 0x3FF) 0 ?g))) =
        frame_bitmap s"
      by (simp add: flush_tlb_entry_def)
  qed (use sf(3,4) store_flush_grow[OF e] in auto)
qed

section \<open>The software walk\<close>

text \<open>The state differs from \<open>s\<close> at most in what has been logged.\<close>

definition only_logs :: "'a log_state_scheme \<Rightarrow> 'a log_state_scheme \<Rightarrow> bool" where
  "only_logs s t \<longleftrightarrow> t = s\<lparr>klog := klog t\<rparr>"

lemma only_logs_intros [simp]: "only_logs s s" "only_logs s (log_debug l f x s)"
  by (simp_all add: only_logs_def log_debug_def)

lemma get_physical_address_ok:
  assumes inv: "paging_inv s"
  obtains t where "only_logs s t" "get_physical_address va s =
    Inr (case mmu_translate s va of None \<Rightarrow> 0 | Some p \<Rightarrow> p, t)"
proof (cases "present s (drop_bit 22 va)")
  case False
  then show ?thesis
    using get_page_table_absent[OF inv False] that[of s]
    unfolding inv_translate[OF inv] walk_entries
    by (simp add: get_physical_address_def Let_def present_def)
next
  case True
  let ?g = "log_debug DEBUG_LEVEL_TRACE ''Using existing page table at physical %x for address %x''
      [Va_int (table_of s (drop_bit 22 va)), Va_int va] s"
  have "P2V (table_of s (drop_bit 22 va)) \<noteq> 0"
    by (intro P2V_window_nonzero table_in_window[OF inv True pd_index_less])
  moreover have "ld32 vm_ld (cell (P2V (table_of s (drop_bit 22 va))) (drop_bit 12 va AND 0x3FF)) ?g =
      Inr (pt_entry s (drop_bit 22 va) (drop_bit 12 va AND 0x3FF))"
    using ld_table[of ?g, OF _ _ pd_index_less pt_index_less, of va va] inv True by simp
  ultimately show ?thesis
    using get_page_table_present[OF inv True] that[of ?g] True
    unfolding inv_translate[OF inv] walk_entries
    by (simp add: get_physical_address_def Let_def present_def)
qed

section \<open>Physical pages\<close>

text \<open>Clearing a frame that holds neither the directory nor a table changes no translation.\<close>

lemma clear_fresh:
  assumes inv: "paging_inv s" and al: "alloc_frame s = (a, s1)" and a: "a \<noteq> 0"
  defines "t \<equiv> s1\<lparr>phys_mem := clear_page a (phys_mem s1)\<rparr>"
  shows "paging_inv t" and "mmu_walk (phys_mem t) (cr3 t) va = mmu_walk (phys_mem s) (cr3 s) va"
    and "k < 1024 \<Longrightarrow> pd_entry t k = pd_entry s k"
proof -
  note fr = fresh_frame[OF inv al a] and af = alloc_frame_fields[OF al] and d = inv_dir[OF inv]
  have ok: "tables_ok s" "tlb_coherent s" using inv by (auto simp: paging_inv_def)
  have ec: "table_of s1 = table_of s" "pd_entry s1 = pd_entry s" "pt_entry s1 = pt_entry s"
    "present s1 = present s" using entries_cong[of s1 s] af by auto
  have f: "cr3 t = cr3 s" "cr0 t = cr0 s" "tlb t = tlb s" "used t = used s1" "bitmap_ok t"
    "current_page_directory t = current_page_directory s"
    using fr(4) by (simp_all add: t_def af used_def bitmap_ok_def)
  have pd: "pd_entry t k = pd_entry s k" "table_of t k = table_of s k" "present t k = present s k"
    if "k < 1024" for k
    using that pd_entry_clear[of s1 a k] d fr(5) by (simp_all add: t_def af ec table_of_def present_def)
  then show "k < 1024 \<Longrightarrow> pd_entry t k = pd_entry s k" by blast
  have pt: "pt_entry t k i = pt_entry s k i" if "k < 1024" "i < 1024" "present s k" for k i
    using that pt_entry_clear[of s1 a k i] d fr(5,6) by (simp add: t_def af ec)
  show w: "mmu_walk (phys_mem t) (cr3 t) va = mmu_walk (phys_mem s) (cr3 s) va" for va
    unfolding walk_entries pd[OF pd_index_less]
    using pt[OF pd_index_less pt_index_less, of va va] by (auto simp: present_def)
  have "tables_ok t"
    using ok(1) fr(3) pt[of 768] tables_ok_768[OF ok(1)]
    by (auto simp: tables_ok_def pd f below_1024)
  then show "paging_inv t"
    using inv ok(2) fr(3) f w[unfolded f(1)]
    by (simp add: paging_inv_def is_paging_enabled_def tlb_coherent_def)
qed

text \<open>What a successful page allocation gives: the page \<open>a\<close>, cleared, and nothing else changed.\<close>

definition fresh_page :: "'a paging_state_scheme \<Rightarrow> u32 \<Rightarrow> 'a paging_state_scheme \<Rightarrow> bool" where
  "fresh_page s a t \<longleftrightarrow> a \<noteq> 0 \<and> a AND 0xFFF = 0 \<and> frame_no a \<notin> used s \<and>
     used t = insert (frame_no a) (used s) \<and> phys_mem t = clear_page a (phys_mem s) \<and>
     mmu_translate t = mmu_translate s \<and> cr3 t = cr3 s \<and> (\<forall>j<1024. pd_entry t j = pd_entry s j) \<and>
     a \<noteq> cr3 s \<and> (\<forall>j<1024. present s j \<longrightarrow> table_of s j \<noteq> a)"

lemma kmalloc_ok:
  assumes inv: "paging_inv s" and fr: "f < 1024" "f \<notin> used s"
  obtains a t where "kmalloc_physical_page s = Inr (a, t)" "fresh_page s a t" "paging_inv t"
proof -
  obtain a s1 where al: "alloc_frame s = (a, s1)" "a \<noteq> 0" "a < 0x400000"
    using alloc_in_window[OF inv fr] by blast
  note fr = fresh_frame[OF inv al(1,2)] and af = alloc_frame_fields[OF al(1)] and d = inv_dir[OF inv]
  let ?t = "s1\<lparr>phys_mem := clear_page a (phys_mem s1)\<rparr>"
  have w: "window_ok s1" using inv_window[OF inv] window_ok_cong[of s1 s] af by simp
  have ne: "table_of s 768 \<noteq> a"
    using fr(6)[of 768] inv by (simp add: paging_inv_def tables_ok_768)
  have "memset vm_st (P2V a) 0 4096 s1 = Inr (P2V a, ?t)"
    using w d fr(1,5) ne al(3) entries_cong(2)[of s1 s]
    by (intro window_memset window_byte_page) (auto simp: af)
  then have k: "kmalloc_physical_page s = Inr (a, ?t)"
    using al(1,2) by (simp add: kmalloc_physical_page_def)
  note cl = clear_fresh[OF inv al(1,2)]
  have "mmu_translate ?t va = mmu_translate s va" for va
    using cl by (simp only: inv_translate[OF cl(1)] inv_translate[OF inv])
  then have "mmu_translate ?t = mmu_translate s" by (rule ext)
  moreover have "used ?t = used s1" by (simp add: used_def)
  ultimately show ?thesis using that[OF k] al fr cl(1,3) by (simp add: fresh_page_def af)
qed

end
