(* ===== verification/Paging_Boot.thy ===== *)
theory Paging_Boot
  imports Paging_Ops
begin

text \<open>
  From the loader to a running paging system: the page tables that
  \<^verbatim>\<open>src/kernel/arch/i386/boot.S\<close> builds with paging off, and \<^verbatim>\<open>init_paging\<close> on top of them.
\<close>

section \<open>The bootstrap tables\<close>

text \<open>
  \<^verbatim>\<open>stosl\<close> in a loop: store \<^verbatim>\<open>%eax\<close> at \<^verbatim>\<open>%edi\<close>, advance \<^verbatim>\<open>%edi\<close> by four, add \<open>inc\<close> to \<^verbatim>\<open>%eax\<close>,
  \<^verbatim>\<open>%ecx\<close> times (\<^verbatim>\<open>rep stosl\<close> has \<open>inc = 0\<close>).
\<close>

fun stosl_loop :: "nat \<Rightarrow> u32 \<Rightarrow> u32 \<Rightarrow> u32 \<Rightarrow> mem \<Rightarrow> mem" where
  "stosl_loop 0 edi eax inc m = m"
| "stosl_loop (Suc ecx) edi eax inc m = stosl_loop ecx (edi + 4) (eax + inc) inc (write32 edi eax m)"

text \<open>
  \<^verbatim>\<open>early_print_string\<close>: the bytes from \<^verbatim>\<open>%ebx\<close> on, up to a zero, go to the even bytes from \<^verbatim>\<open>%edx\<close> on,
  the attribute behind each. Both run while paging is off, so that both addresses are physical ones;
  the messages are linked into \<^verbatim>\<open>.text\<close>, at virtual addresses. Nothing bounds the loop.
\<close>

partial_function (option) early_print :: "u32 \<Rightarrow> u32 \<Rightarrow> u32 \<Rightarrow> mem \<Rightarrow> mem option" where
  "early_print ebx ecx edx m =
     (let al = m (ebx + ecx)
      in if al = 0 then Some m
         else early_print ebx (ecx + 1) (edx + 2) (m(edx := al, edx + 1 := 0x0F)))"

definition early_print_string :: "u32 \<Rightarrow> mem \<Rightarrow> mem option" where
  "early_print_string ebx m = early_print ebx 0 0xB8000 m"

text \<open>\<^verbatim>\<open>setup_page_tables\<close>, up to the call that prints and with it.\<close>

definition build_page_tables :: "u32 \<Rightarrow> u32 \<Rightarrow> mem \<Rightarrow> mem" where
  "build_page_tables boot_page_directory boot_page_table1 m =
     (let m = stosl_loop 1024 boot_page_directory 0 0 m;
          m = stosl_loop 1024 boot_page_table1 0x00000003 4096 m;
          eax = boot_page_table1 + 0x003;
          m = write32 boot_page_directory eax m
      in write32 (boot_page_directory + drop_bit 22 KERNEL_VIRTUAL_BASE * 4) eax m)"

definition setup_page_tables :: "u32 \<Rightarrow> u32 \<Rightarrow> u32 \<Rightarrow> mem \<Rightarrow> mem option" where
  "setup_page_tables boot_page_directory boot_page_table1 page_tables_setup m =
     early_print_string page_tables_setup (build_page_tables boot_page_directory boot_page_table1 m)"

text \<open>The bootstrap from \<^verbatim>\<open>multiboot_entry\<close> to the jump to the higher half.\<close>

definition boot_paging ::
  "u32 \<Rightarrow> u32 \<Rightarrow> u32 \<Rightarrow> u32 \<Rightarrow> 'a paging_state_scheme \<Rightarrow> 'a paging_state_scheme res" where
  "boot_paging boot_page_directory boot_page_table1 boot_message page_tables_setup s =
     (case early_print_string boot_message (phys_mem s) of None \<Rightarrow> Inl No_return
      | Some m \<Rightarrow>
     (case setup_page_tables boot_page_directory boot_page_table1 page_tables_setup m of None \<Rightarrow> Inl No_return
      | Some m \<Rightarrow>
     let s = write_cr3 boot_page_directory (s\<lparr>phys_mem := m\<rparr>)
     in Inr (s\<lparr>cr0 := cr0 s OR 0x80000000\<rparr>)))"

section \<open>Printing in physical mode\<close>

text \<open>The bytes above the first 4 MiB that a message consists of, and what printing them leaves.\<close>

definition early_text :: "mem \<Rightarrow> u32 \<Rightarrow> nat \<Rightarrow> bool" where
  "early_text m a n \<longleftrightarrow> 0x400000 \<le> unat a \<and> unat a + n < 2 ^ 32 \<and>
     (\<forall>k<n. m (a + of_nat k) \<noteq> 0) \<and> m (a + of_nat n) = 0"

definition text_shown :: "u32 \<Rightarrow> nat \<Rightarrow> mem \<Rightarrow> mem" where
  "text_shown a n m = (\<lambda>p. if 0xB8000 \<le> unat p \<and> unat p < 0xB8000 + 2 * n
     then if even (unat p) then m (a + of_nat ((unat p - 0xB8000) div 2)) else 0x0F else m p)"

lemma text_shown_above: "0xB8000 + 2 * n \<le> unat p \<Longrightarrow> text_shown a n m p = m p"
  by (simp add: text_shown_def)

lemma text_shown_Suc:
  assumes "0xB8000 + 2 * Suc j \<le> 0x400000"
  shows "text_shown a (Suc j) m =
    (text_shown a j m)(0xB8000 + 2 * of_nat j := m (a + of_nat j), 0xB8000 + 2 * of_nat j + 1 := 0x0F)"
proof
  fix p :: u32
  have eq: "p = of_nat i \<longleftrightarrow> unat p = i" if "i < 0x400000" for i
    using that unat_of_nat_u32[of i] by (auto simp: word_unat_eq_iff)
  have "p = 0xB8000 + 2 * of_nat j \<longleftrightarrow> unat p = 0xB8000 + 2 * j"
    "p = 0xB8000 + 2 * of_nat j + 1 \<longleftrightarrow> unat p = 0xB8001 + 2 * j"
    using eq[of "0xB8000 + 2 * j"] eq[of "0xB8001 + 2 * j"] assms by simp_all
  moreover have "(0xB8000 + 2 * j - 0xB8000) div 2 = j" by simp
  ultimately show "text_shown a (Suc j) m p =
    ((text_shown a j m)(0xB8000 + 2 * of_nat j := m (a + of_nat j), 0xB8000 + 2 * of_nat j + 1 := 0x0F)) p"
    by (auto simp: text_shown_def less_Suc_eq_le)
qed

lemma early_print_ok:
  assumes t: "early_text m a n" and n: "0xB8000 + 2 * n \<le> 0x400000"
  shows "early_print_string a m = Some (text_shown a n m)"
proof -
  have rd: "text_shown a j m (a + of_nat k) = m (a + of_nat k)" if "j \<le> n" "k \<le> n" for j k
  proof (rule text_shown_above)
    have "unat a + k < 2 ^ 32" using t that by (simp add: early_text_def)
    then have "unat (a + of_nat k) = unat a + k" by (simp add: unat_word_ariths unat_of_nat_u32)
    then show "0xB8000 + 2 * j \<le> unat (a + of_nat k)" using t n that by (simp add: early_text_def)
  qed
  have go: "early_print a (of_nat j) (0xB8000 + 2 * of_nat j) (text_shown a j m) = Some (text_shown a n m)"
    if "j \<le> n" for j
    using that
  proof (induction rule: inc_induct)
    case base
    show ?case using rd[of n n] t by (subst early_print.simps) (simp add: early_text_def)
  next
    case (step j)
    let ?e = "0xB8000 + 2 * of_nat j :: u32" and ?m = "text_shown a j m"
    have "m (a + of_nat j) \<noteq> 0" using t step(2) by (simp add: early_text_def)
    then have "early_print a (of_nat j) ?e ?m =
        early_print a (of_nat j + 1) (?e + 2) (?m(?e := m (a + of_nat j), ?e + 1 := 0x0F))"
      using rd[of j j] step(2) by (subst early_print.simps) (simp add: Let_def)
    also have "\<dots> = early_print a (of_nat (Suc j)) (0xB8000 + 2 * of_nat (Suc j)) (text_shown a (Suc j) m)"
    proof -
      have "of_nat j + 1 = (of_nat (Suc j) :: u32)" "?e + 2 = 0xB8000 + 2 * of_nat (Suc j)" by simp_all
      moreover have "0xB8000 + 2 * Suc j \<le> 0x400000" using step(2) n by simp
      ultimately show ?thesis by (simp only: text_shown_Suc)
    qed
    finally show ?case using step.IH by simp
  qed
  have "text_shown a 0 m = m" by (auto simp: text_shown_def fun_eq_iff)
  with go[of 0] show ?thesis by (simp add: early_print_string_def)
qed

text \<open>
  What the code relies on: a zero byte is met on the screen's 2000 characters. A text of 147456
  bytes or more reaches the image behind the first MiB; without a zero byte anywhere the loop never ends.
\<close>

definition early_short :: "mem \<Rightarrow> u32 \<Rightarrow> bool" where
  "early_short m a \<longleftrightarrow> (\<exists>n\<le>2000. early_text m a n)"

lemma early_print_overrun:
  assumes "early_text m a n" "0xB8000 + 2 * n \<le> 0x400000" "0x48000 + 2 * k < 2 * n"
  shows "\<exists>m'. early_print_string a m = Some m' \<and> m' (0x100000 + 2 * of_nat k) = m (a + of_nat (0x24000 + k))"
proof -
  have "unat (0x100000 + 2 * of_nat k :: u32) = 0x100000 + 2 * k"
    using assms(2,3) unat_of_nat_u32[of "0x100000 + 2 * k"] by simp
  then show ?thesis using early_print_ok[OF assms(1,2)] assms(3) by (simp add: text_shown_def)
qed

lemma early_print_endless:
  assumes "\<forall>p. m p \<noteq> 0"
  shows "early_print_string a m = None"
proof (rule ccontr)
  assume "early_print_string a m \<noteq> None"
  then obtain t where t: "early_print a 0 0xB8000 m = Some t" by (auto simp: early_print_string_def)
  have "(\<forall>p. m p \<noteq> 0) \<longrightarrow> False"
    by (rule early_print.raw_induct[where P = "\<lambda>a b c m t. (\<forall>p. m p \<noteq> 0) \<longrightarrow> False", OF _ t])
      (fastforce simp: Let_def split: if_splits)
  with assms show False by blast
qed

lemma early_text_cong:
  assumes "\<And>p. 0x400000 \<le> unat p \<Longrightarrow> m' p = m p"
  shows "early_text m' a n = early_text m a n"
proof -
  have "m' (a + of_nat k) = m (a + of_nat k)" if "0x400000 \<le> unat a" "unat a + n < 2 ^ 32" "k \<le> n" for k
  proof (rule assms)
    have "unat (a + of_nat k) = unat a + k" using that by (simp add: unat_word_ariths unat_of_nat_u32)
    then show "0x400000 \<le> unat (a + of_nat k)" using that by simp
  qed
  then show ?thesis unfolding early_text_def by (metis less_imp_le order.refl)
qed

section \<open>What the tables hold\<close>

lemma stosl_loop_read:
  assumes b: "b AND 0xFFF = 0" "c AND 0xFFF = 0" and n: "k + n \<le> 1024" and j: "j < 1024"
  shows "read32 (stosl_loop n (cell b (of_nat k)) (v + of_nat k * inc) inc m) (cell c j) =
    (if b = c \<and> k \<le> unat j \<and> unat j < k + n then v + j * inc else read32 m (cell c j))"
  using n
proof (induction n arbitrary: k m)
  case (Suc n)
  have k: "unat (of_nat k :: u32) = k"
    using Suc.prems by (intro unat_of_nat_below[of _ 1024]) simp
  then have k': "(of_nat k :: u32) < 1024" using Suc.prems by (simp add: word_less_nat_alt)
  have eq: "of_nat k = j \<longleftrightarrow> unat j = k" using k by (metis word_unat_eq_iff)
  have "cell b (of_nat k) + 4 = cell b (of_nat (Suc k))"
    "v + of_nat k * inc + inc = v + of_nat (Suc k) * inc"
    by (simp_all add: cell_def algebra_simps)
  then have "stosl_loop (Suc n) (cell b (of_nat k)) (v + of_nat k * inc) inc m =
      stosl_loop n (cell b (of_nat (Suc k))) (v + of_nat (Suc k) * inc) inc
        (write32 (cell b (of_nat k)) (v + of_nat k * inc) m)"
    by (simp only: stosl_loop.simps)
  moreover have "Suc k + n \<le> 1024" using Suc.prems by simp
  ultimately show ?case
    using Suc.IH[of "Suc k"] b j k' by (auto simp: read_cell_write eq simp del: of_nat_Suc)
qed auto

lemma stosl_loop_outside:
  assumes b: "b AND 0xFFF = 0" and a: "a AND PAGE_FRAME \<noteq> b"
  shows "k + n \<le> 1024 \<Longrightarrow> stosl_loop n (cell b (of_nat k)) v inc m a = m a"
proof (induction n arbitrary: k v m)
  case (Suc n)
  have k: "(of_nat k :: u32) < 1024"
    using Suc.prems by (simp add: word_less_nat_alt unat_of_nat_u32)
  have "write32 (cell b (of_nat k)) v m a = m a"
    using cell_byte(1)[OF b k] a by (intro write32_other) auto
  moreover have "cell b (of_nat k) + 4 = cell b (of_nat (Suc k))" by (simp add: cell_def algebra_simps)
  ultimately show ?case using Suc.IH[of "Suc k"] Suc.prems by simp
qed simp

text \<open>The 2000 characters of the screen lie in one page.\<close>

lemma text_shown_outside:
  assumes "n \<le> 2000" "p AND PAGE_FRAME \<noteq> 0xB8000"
  shows "text_shown a n m p = m p"
proof -
  have "p AND PAGE_FRAME = 0xB8000" if "0xB8000 \<le> unat p" "unat p < 0xB8000 + 4000"
  proof -
    have "unat (p - 0xB8000) = unat p - 0xB8000" using that by (simp add: unat_sub_if')
    then have "p - 0xB8000 < 4096" using that by (simp add: word_less_nat_alt)
    from page_offset(1)[OF _ this, of "0xB8000"] show ?thesis by simp
  qed
  then show ?thesis using assms by (auto simp: text_shown_def)
qed

lemma text_shown_cell:
  assumes "n \<le> 2000" "c AND 0xFFF = 0" "c \<noteq> 0xB8000" "j < 1024"
  shows "read32 (text_shown a n m) (cell c j) = read32 m (cell c j)"
  using cell_byte(1)[OF assms(2,4)] assms(1,3) by (intro read32_cong text_shown_outside) auto

text \<open>Where the linker may put the two bootstrap pages.\<close>

definition boot_pages_ok :: "u32 \<Rightarrow> u32 \<Rightarrow> bool" where
  "boot_pages_ok bpd bpt \<longleftrightarrow> bpd AND 0xFFF = 0 \<and> bpt AND 0xFFF = 0 \<and> bpd \<noteq> bpt \<and>
     0x100000 \<le> bpd \<and> bpd < 0x400000 \<and> 0x100000 \<le> bpt \<and> bpt < 0x400000"

lemma build_tables_read:
  assumes ok: "boot_pages_ok bpd bpt" and j: "j < 1024"
  shows "read32 (build_page_tables bpd bpt m) (cell bpd j) = (if j = 0 \<or> j = 768 then bpt + 3 else 0)"
    and "read32 (build_page_tables bpd bpt m) (cell bpt j) = 3 + 4096 * j"
proof -
  have a: "bpd AND 0xFFF = 0" "bpt AND 0xFFF = 0" "bpd \<noteq> bpt"
    using ok by (auto simp: boot_pages_ok_def)
  have j': "unat j < 1024" using j by (simp add: word_less_nat_alt)
  have c: "write32 bpd = write32 (cell bpd 0)" "bpd + drop_bit 22 KERNEL_VIRTUAL_BASE * 4 = cell bpd 768"
    by (simp_all add: cell_def)
  let ?m = "stosl_loop 1024 bpt 3 4096 (stosl_loop 1024 bpd 0 0 m)"
  have m: "read32 ?m (cell bpd j) = 0" "read32 ?m (cell bpt j) = 3 + 4096 * j"
    using stosl_loop_read[of bpt _ 0 1024 j 3 4096] stosl_loop_read[of bpd _ 0 1024 j 0 0] a j j'
    by (simp_all add: cell_def mult.commute)
  show "read32 (build_page_tables bpd bpt m) (cell bpd j) = (if j = 0 \<or> j = 768 then bpt + 3 else 0)"
    "read32 (build_page_tables bpd bpt m) (cell bpt j) = 3 + 4096 * j"
    using a j m unfolding build_page_tables_def Let_def c by (auto simp: read_cell_write)
qed

lemma build_tables_outside:
  assumes ok: "boot_pages_ok bpd bpt" and a: "a AND PAGE_FRAME \<notin> {bpd, bpt}"
  shows "build_page_tables bpd bpt m a = m a"
proof -
  have al: "bpd AND 0xFFF = 0" "bpt AND 0xFFF = 0" using ok by (simp_all add: boot_pages_ok_def)
  have c: "write32 bpd = write32 (cell bpd 0)" "bpd + drop_bit 22 KERNEL_VIRTUAL_BASE * 4 = cell bpd 768"
    "stosl_loop n b = stosl_loop n (cell b (of_nat 0))" for n b by (simp_all add: cell_def)
  have w: "write32 (cell bpd j) v m a = m a" if "j < 1024" for j v m
    using cell_byte(1)[OF al(1) that] a by (intro write32_other) auto
  have s: "stosl_loop 1024 b v x m a = m a" if "b = bpd \<or> b = bpt" for b v x m
    using stosl_loop_outside[of b a 0 1024 v x m] that al a by (auto simp: cell_def)
  show ?thesis unfolding build_page_tables_def Let_def c(1,2) by (simp add: w s)
qed

section \<open>Marking a range of frames\<close>

text \<open>The state differs from \<open>s\<close> at most in the bitmap and in what has been logged.\<close>

definition only_frames :: "'a frame_state_scheme \<Rightarrow> 'a frame_state_scheme \<Rightarrow> bool" where
  "only_frames s t \<longleftrightarrow> frame_state.more t = frame_state.more s"

lemma only_frames_set: "only_frames s (set_frame a s)"
  by (cases s) (simp add: only_frames_def set_frame_def log_debug_def Let_def)

lemma only_frames_fields:
  assumes "only_frames s t"
  shows "phys_mem t = phys_mem s" "cr0 t = cr0 s" "cr3 t = cr3 s" "tlb t = tlb s"
  using assms by (cases s; cases t; simp add: only_frames_def)+

text \<open>The frames of the pages the loop visits.\<close>

definition page_span :: "u32 \<Rightarrow> u32 \<Rightarrow> nat set" where
  "page_span from to = {f. frame_no from \<le> f \<and> f * 4096 + unat from mod 4096 < unat to} \<inter> {..<16384}"

lemma page_span_step:
  assumes lt: "from < to" and to: "unat to \<le> 2 ^ 32 - 4096 + unat from mod 4096"
  shows "unat (from + PAGE_SIZE) = unat from + 4096"
    and "page_span from to = ({frame_no from} \<inter> {..<16384}) \<union> page_span (from + PAGE_SIZE) to"
proof -
  have "unat from < 4294963200 + unat from mod 4096" using assms by (simp add: word_less_nat_alt)
  then have "unat from div 4096 * 4096 < 4294963200"
    using div_mult_mod_eq[of "unat from" 4096] by linarith
  then have "unat from div 4096 < 1048575" by simp
  then have "unat from + 4096 < 4294967296" by linarith
  then show u: "unat (from + PAGE_SIZE) = unat from + 4096"
    by (simp add: unat_word_ariths)
  then have "frame_no (from + PAGE_SIZE) = Suc (frame_no from)" by (simp add: frame_no_def)
  moreover have "frame_no from * 4096 + unat from mod 4096 < unat to"
    using lt by (simp add: frame_no_def word_less_nat_alt)
  ultimately show "page_span from to = ({frame_no from} \<inter> {..<16384}) \<union> page_span (from + PAGE_SIZE) to"
    using u by (auto simp: page_span_def Suc_le_eq)
qed

lemma page_span_done: "\<not> from < to \<Longrightarrow> page_span from to = {}"
proof -
  assume "\<not> from < to"
  then have "unat to \<le> frame_no from * 4096 + unat from mod 4096"
    by (simp add: frame_no_def word_less_nat_alt)
  moreover have "frame_no from * 4096 \<le> f * 4096" if "frame_no from \<le> f" for f using that by simp
  ultimately show ?thesis unfolding page_span_def by fastforce
qed

lemma mark_frames_ok:
  assumes "bitmap_ok s" and to: "unat to \<le> 2 ^ 32 - 4096 + unat from mod 4096"
  obtains t where "mark_frames from to s = Some t" "used t = used s \<union> page_span from to"
    "bitmap_ok t" "only_frames s t"
  using assms
proof (induction "unat to - unat from" arbitrary: "from" s thesis rule: less_induct)
  case less
  show ?case
  proof (cases "from < to")
    case True
    note step = page_span_step[OF True less.prems(3)]
    have dec: "unat to - unat (from + PAGE_SIZE) < unat to - unat from"
      using True step(1) by (simp add: word_less_nat_alt)
    have ok: "bitmap_ok (set_frame from s)" using less.prems(2) by simp
    obtain t where t: "mark_frames (from + PAGE_SIZE) to (set_frame from s) = Some t"
      "used t = used (set_frame from s) \<union> page_span (from + PAGE_SIZE) to" "bitmap_ok t"
      "only_frames (set_frame from s) t"
      using less.hyps[OF dec _ ok] less.prems(3) step(1) by (metis mod_add_self2)
    have "used t = used s \<union> page_span from to"
      using t(2) step(2) less.prems(2) by (auto simp: used_set_frame frame_no_def)
    with True t show ?thesis
      using only_frames_set[of s "from"]
      by (intro less.prems(1)[of t]) (simp_all add: mark_frames.simps[of "from"] only_frames_def)
  next
    case False
    then show ?thesis
      using less.prems page_span_done[OF False]
      by (intro less.prems(1)[of s]) (simp_all add: mark_frames.simps[of "from"] only_frames_def)
  qed
qed

text \<open>A limit in the last page, beyond the last address the counter takes, is never reached.\<close>

lemma mark_frames_diverges:
  assumes to: "2 ^ 32 - 4096 + unat from mod 4096 < unat to"
  shows "mark_frames from to s = None"
proof (rule ccontr)
  assume "mark_frames from to s \<noteq> None"
  then obtain t where t: "mark_frames from to s = Some t" by blast
  have step: "a < to" "unat (a + PAGE_SIZE) mod 4096 = unat a mod 4096"
    if "unat a mod 4096 = unat from mod 4096" for a :: u32
  proof -
    have "unat a div 4096 < 1048576" using unat_u32_less[of a] by (simp add: less_mult_imp_div_less)
    then have "unat a div 4096 * 4096 \<le> 4294963200" by simp
    then have "unat a \<le> 4294963200 + unat a mod 4096"
      using div_mult_mod_eq[of "unat a" 4096] by linarith
    then show "a < to" using that to by (simp add: word_less_nat_alt)
    show "unat (a + PAGE_SIZE) mod 4096 = unat a mod 4096"
      by (simp add: unat_word_ariths mod_mod_cancel)
  qed
  have "unat from mod 4096 = unat from mod 4096 \<longrightarrow> to = to \<longrightarrow> False"
    by (rule mark_frames.raw_induct[where P = "\<lambda>a b s t. unat a mod 4096 = unat from mod 4096 \<longrightarrow>
          b = to \<longrightarrow> False", OF _ t]) (use step in \<open>auto split: if_splits\<close>)
  then show False by simp
qed

section \<open>Initialisation\<close>

text \<open>The tables of the bootstrap in a memory, and a processor that runs on them.\<close>

definition boot_tables :: "u32 \<Rightarrow> u32 \<Rightarrow> mem \<Rightarrow> bool" where
  "boot_tables bpd bpt m \<longleftrightarrow> (\<forall>j<1024. read32 m (cell bpd j) = (if j = 0 \<or> j = 768 then bpt + 3 else 0) \<and>
     read32 m (cell bpt j) = 3 + 4096 * j)"

definition boot_ready :: "u32 \<Rightarrow> u32 \<Rightarrow> 'a paging_state_scheme \<Rightarrow> bool" where
  "boot_ready bpd bpt s \<longleftrightarrow> boot_tables bpd bpt (phys_mem s) \<and> cr3 s = bpd \<and> tlb s = Map.empty \<and>
     is_paging_enabled s"

text \<open>With short messages the bootstrap gets through, and it writes on the screen and into its two pages only.\<close>

lemma boot_paging_ok:
  assumes ok: "boot_pages_ok bpd bpt" and t: "early_short (phys_mem s) msg1" "early_short (phys_mem s) msg2"
  obtains p where "boot_paging bpd bpt msg1 msg2 s = Inr p" "boot_ready bpd bpt p"
    "\<And>a. a AND PAGE_FRAME \<notin> {0xB8000, bpd, bpt} \<Longrightarrow> phys_mem p a = phys_mem s a"
proof -
  obtain n1 n2 where n: "n1 \<le> 2000" "early_text (phys_mem s) msg1 n1" "n2 \<le> 2000" "early_text (phys_mem s) msg2 n2"
    using t by (auto simp: early_short_def)
  define m where "m = build_page_tables bpd bpt (text_shown msg1 n1 (phys_mem s))"
  have a: "bpd AND 0xFFF = 0" "bpt AND 0xFFF = 0" "bpd \<noteq> 0xB8000" "bpt \<noteq> 0xB8000"
    "bpd < 0x400000" "bpt < 0x400000" using ok by (auto simp: boot_pages_ok_def)
  have "m p = phys_mem s p" if p: "0x400000 \<le> unat p" for p
  proof -
    have "p AND PAGE_FRAME \<noteq> b" if "b < 0x400000" "b AND 0xFFF = 0" for b
    proof
      assume "p AND PAGE_FRAME = b"
      with page_split[of p] have "p = b + (p AND 0xFFF)" by simp
      from ord_eq_less_trans[OF this page_below[OF that(2,1) page_off_less]] have "p < 0x400000" .
      with p show False by (simp add: word_less_nat_alt)
    qed
    then have "p AND PAGE_FRAME \<notin> {bpd, bpt}" using a by blast
    from build_tables_outside[OF ok this] text_shown_above[of n1 p] show ?thesis using n(1) p by (simp add: m_def)
  qed
  from iffD2[OF early_text_cong[OF this] n(4)] have "early_text m msg2 n2" .
  then have e: "early_print_string msg1 (phys_mem s) = Some (text_shown msg1 n1 (phys_mem s))"
    "setup_page_tables bpd bpt msg2 (text_shown msg1 n1 (phys_mem s)) = Some (text_shown msg2 n2 m)"
    using early_print_ok n by (simp_all add: setup_page_tables_def m_def)
  show thesis
  proof (rule that)
    let ?p = "(write_cr3 bpd (s\<lparr>phys_mem := text_shown msg2 n2 m\<rparr>))\<lparr>cr0 := cr0 s OR 0x80000000\<rparr>"
    show "boot_paging bpd bpt msg1 msg2 s = Inr ?p" by (simp add: boot_paging_def e Let_def write_cr3_def)
    have "bit ((cr0 s OR 0x80000000) AND 0x80000000) 31" by (simp add: bit_simps)
    then have "is_paging_enabled ?p" by (auto simp: is_paging_enabled_def)
    then show "boot_ready bpd bpt ?p"
      using text_shown_cell[OF n(3)] a build_tables_read[OF ok]
      by (simp add: boot_ready_def boot_tables_def write_cr3_def m_def)
    show "phys_mem ?p p = phys_mem s p" if "p AND PAGE_FRAME \<notin> {0xB8000, bpd, bpt}" for p
      using that text_shown_outside n build_tables_outside[OF ok] by (simp add: write_cr3_def m_def)
  qed
qed

lemma entry_plus_3:
  assumes "b AND 0xFFF = (0 :: u32)"
  shows "(b + 3) AND PAGE_PRESENT = 1" "(b + 3) AND PAGE_FRAME = b"
proof -
  have "(b + 3) AND PAGE_PRESENT = ((b + 3) AND 0xFFF) AND PAGE_PRESENT" by (simp add: and.assoc)
  then show "(b + 3) AND PAGE_PRESENT = 1" "(b + 3) AND PAGE_FRAME = b"
    using page_offset[OF assms, of 3] by simp_all
qed

text \<open>What the paging code finds: the entries of the bootstrap directory and table.\<close>

lemma boot_entries:
  assumes "boot_pages_ok bpd bpt" and s: "boot_tables bpd bpt (phys_mem s)" "cr3 s = bpd"
    and j: "j < 1024"
  shows "pd_entry s j = (if j = 0 \<or> j = 768 then bpt + 3 else 0)"
    and "present s j \<longleftrightarrow> j = 0 \<or> j = 768"
    and "j = 0 \<or> j = 768 \<Longrightarrow> table_of s j = bpt"
    and "i < 1024 \<Longrightarrow> j = 0 \<or> j = 768 \<Longrightarrow> pt_entry s j i = 3 + 4096 * i"
proof -
  have a: "bpd AND 0xFFF = 0" "bpt AND 0xFFF = 0" using assms(1) by (auto simp: boot_pages_ok_def)
  note f = entry_plus_3[OF a(2)]
  show pd: "pd_entry s j = (if j = 0 \<or> j = 768 then bpt + 3 else 0)"
    using s(1) j a by (simp add: pd_entry_def s(2) page_aligned_frame boot_tables_def)
  show "present s j \<longleftrightarrow> j = 0 \<or> j = 768" using f by (simp add: present_def pd)
  show t: "j = 0 \<or> j = 768 \<Longrightarrow> table_of s j = bpt" using f by (simp add: table_of_def pd)
  show "i < 1024 \<Longrightarrow> j = 0 \<or> j = 768 \<Longrightarrow> pt_entry s j i = 3 + 4096 * i"
    using s(1) t by (simp add: pt_entry_def boot_tables_def)
qed

text \<open>The kernel image holds the bootstrap pages and lies in the window, as the linker lays it out.\<close>

definition image_ok :: "u32 \<Rightarrow> u32 \<Rightarrow> u32 \<Rightarrow> u32 \<Rightarrow> bool" where
  "image_ok kernel_start kernel_end bpd bpt \<longleftrightarrow> boot_pages_ok bpd bpt \<and>
     kernel_start \<le> bpd \<and> bpd + 4096 \<le> kernel_end \<and>
     kernel_start \<le> bpt \<and> bpt + 4096 \<le> kernel_end \<and> kernel_end \<le> 0x400000"

lemma image_frames:
  assumes "image_ok ks ke bpd bpt"
  shows "frame_no bpd \<in> page_span ks ke" "frame_no bpt \<in> page_span ks ke"
proof -
  have "frame_no b \<in> page_span ks ke"
    if "ks \<le> b" "b + 4096 \<le> ke" "ke \<le> 0x400000" "b < 0x400000" "b AND 0xFFF = 0" for b
  proof -
    have "unat b mod 4096 = 0" using that(5) unat_and_FFF[of b] by simp
    then have "frame_no b * 4096 = unat b" by (auto simp: frame_no_def)
    moreover have "unat b + 4096 \<le> unat ke" "unat b < 4194304" "unat ks \<le> unat b"
      using that by (simp_all add: word_le_nat_alt word_less_nat_alt unat_word_ariths)
    moreover have "unat ks mod 4096 < 4096" by simp
    ultimately show ?thesis by (simp add: page_span_def div_le_mono frame_no_def[of ks] frame_no_def[of b])
  qed
  then show "frame_no bpd \<in> page_span ks ke" "frame_no bpt \<in> page_span ks ke"
    using assms by (auto simp: image_ok_def boot_pages_ok_def)
qed

text \<open>The tables once the recursive entry is in place.\<close>

lemma recursive_entries:
  assumes ok: "boot_pages_ok bpd bpt"
    and s: "phys_mem s = write32 (cell bpd 1023) (bpd OR PAGE_PRESENT OR PAGE_WRITE) m" "cr3 s = bpd"
    and m: "boot_tables bpd bpt m"
  shows "j < 1024 \<Longrightarrow> present s j \<longleftrightarrow> j = 0 \<or> j = 768 \<or> j = 1023"
    and "table_of s 0 = bpt" "table_of s 768 = bpt" "table_of s 1023 = bpd"
    and "i < 1024 \<Longrightarrow> pt_entry s 768 i = 3 + 4096 * i"
    and "i < 1024 \<Longrightarrow> pt_entry s 0 i = 3 + 4096 * i"
proof -
  let ?b = "s\<lparr>phys_mem := m\<rparr>"
  have a: "bpd AND 0xFFF = 0" "bpt AND 0xFFF = 0" "bpd \<noteq> bpt" using ok by (auto simp: boot_pages_ok_def)
  have s': "s = ?b\<lparr>phys_mem := write32 (cell bpd 1023) (bpd OR PAGE_PRESENT OR PAGE_WRITE) (phys_mem ?b)\<rparr>"
    using s(1) by simp
  note be = boot_entries[OF ok, of ?b, simplified, OF m s(2)]
  have pd: "pd_entry s j = (if j = 1023 then bpd OR PAGE_PRESENT OR PAGE_WRITE else pd_entry ?b j)"
    if "j < 1024" for j
    by (subst s', subst pd_entry_cell_store) (use a that s(2) in auto)
  show "j < 1024 \<Longrightarrow> present s j \<longleftrightarrow> j = 0 \<or> j = 768 \<or> j = 1023"
    using be(2)[of j] pd[of j] table_entry[OF a(1)] by (auto simp: present_def)
  show t: "table_of s 0 = bpt" "table_of s 768 = bpt" "table_of s 1023 = bpd"
    using be(3)[of 0] be(3)[of 768] pd table_entry[OF a(1)] by (auto simp: table_of_def)
  show "i < 1024 \<Longrightarrow> pt_entry s 768 i = 3 + 4096 * i" "i < 1024 \<Longrightarrow> pt_entry s 0 i = 3 + 4096 * i"
    using be(4)[of 768 i] be(3)[of 768] be(4)[of 0 i] be(3)[of 0] a
    by (simp_all add: pt_entry_def t s(1) read_cell_write)
qed

lemma boot_pte:
  fixes i :: u32
  assumes "i < 1024"
  shows "(3 + 4096 * i) AND PAGE_PRESENT = 1" "(3 + 4096 * i) AND PAGE_FRAME = 4096 * i"
proof -
  have "unat (4096 * i) = 4096 * unat i" using assms by (simp add: word_less_nat_alt unat_word_ariths)
  then have b: "4096 * i AND 0xFFF = 0" by (simp add: word_unat_eq_iff unat_and_FFF)
  show "(3 + 4096 * i) AND PAGE_PRESENT = 1" "(3 + 4096 * i) AND PAGE_FRAME = 4096 * i"
    unfolding add.commute[of 3] using entry_plus_3[OF b] by blast+
qed

lemma recursive_tables_ok:
  assumes ok: "boot_pages_ok bpd bpt"
    and s: "phys_mem s = write32 (cell bpd 1023) (bpd OR PAGE_PRESENT OR PAGE_WRITE) m" "cr3 s = bpd"
    and m: "boot_tables bpd bpt m"
    and u: "frame_no bpd \<in> used s" "frame_no bpt \<in> used s"
  shows "tables_ok s"
proof -
  note re = recursive_entries[OF ok s m]
  have "j < 1023 \<Longrightarrow> present s j \<longleftrightarrow> j = 0 \<or> j = 768" for j
    using re(1)[OF below_1024] by auto
  then show ?thesis
    using ok u re(1)[of 768] re(2-5) by (auto simp: tables_ok_def s(2) boot_pages_ok_def boot_pte)
qed

lemma boot_tables_ok:
  assumes ok: "boot_pages_ok bpd bpt"
    and s: "boot_tables bpd bpt (phys_mem s)" "cr3 s = bpd"
    and u: "frame_no bpd \<in> used s" "frame_no bpt \<in> used s"
  shows "tables_ok s"
proof -
  note be = boot_entries[OF ok s]
  have "j < 1023 \<Longrightarrow> present s j \<longleftrightarrow> j = 0 \<or> j = 768" for j
    using be(2)[OF below_1024] by auto
  then show ?thesis
    using ok u be(2)[of 768] be(2)[of 1023] be(3)[of 0] be(3)[of 768] be(4)[of 768]
    by (auto simp: tables_ok_def s(2) boot_pages_ok_def boot_pte)
qed

lemma init_marks:
  assumes ke: "ke \<le> 0x400000" and s: "bitmap_ok s" "used s = {}"
  obtains t u where "mark_range 0 0x100000 s = Inr t" "mark_range ks ke (log_printf f x t) = Inr u"
    "used u = {..<256} \<union> page_span ks ke" "bitmap_ok u" "only_frames s u"
proof -
  have span: "page_span 0 0x100000 = {..<256}" by (auto simp: page_span_def frame_no_def)
  obtain t where t: "mark_frames 0 0x100000 s = Some t" "used t = {..<256}" "bitmap_ok t" "only_frames s t"
    using mark_frames_ok[OF s(1), of "0x100000" 0] s(2) span by auto
  have "unat ke \<le> 2 ^ 32 - 4096 + unat ks mod 4096" using ke by (simp add: word_le_nat_alt)
  from mark_frames_ok[OF _ this, of "log_printf f x t"] t(2,3) obtain u where
    u: "mark_frames ks ke (log_printf f x t) = Some u" "used u = {..<256} \<union> page_span ks ke"
      "bitmap_ok u" "only_frames (log_printf f x t) u" by auto
  have "only_frames s u" using t(4) u(4) by (cases t) (simp add: only_frames_def log_printf_def)
  with t u show ?thesis by (intro that[of t u]) (simp_all add: mark_range_def)
qed

text \<open>The store of the recursive entry and the reload of CR3 that follows it.\<close>

lemma recursive_store:
  assumes inv: "paging_inv s"
  shows "st32 vm_st (cell (current_page_directory s) 1023) v s =
    Inr (s\<lparr>phys_mem := write32 (cell (cr3 s) 1023) v (phys_mem s)\<rparr>)"
proof -
  note d = inv_dir[OF inv]
  have t: "tables_ok s" using inv by (simp add: paging_inv_def)
  have "cr3 s \<noteq> table_of s 768" using tables_okD(3)[OF t tables_ok_768[OF t]] by simp
  then have "window_byte s (cell (P2V (cr3 s)) 1023 + k)" if "k < 4" for k
    using inv_window[OF inv] d that by (intro window_byte_dir) simp_all
  then show ?thesis unfolding d(4) by (subst window_st32) (simp_all add: cell_P2V)
qed

text \<open>
  With the frames marked and the directory noted, the recursive entry is entered and CR3 reloaded; from
  then on the invariant holds.
\<close>

lemma init_finish:
  assumes img: "image_ok ks ke bpd bpt" and b: "boot_ready bpd bpt s"
    and s: "bitmap_ok s" "used s = {..<256} \<union> page_span ks ke" "current_page_directory s = P2V bpd"
  defines "v \<equiv> bpd OR PAGE_PRESENT OR PAGE_WRITE"
  defines "t \<equiv> s\<lparr>phys_mem := write32 (cell bpd 1023) v (phys_mem s)\<rparr>"
  shows "st32 vm_st (cell (P2V bpd) 1023) v s = Inr t" and "paging_inv (write_cr3 bpd t)"
proof -
  have ok: "boot_pages_ok bpd bpt" using img by (simp add: image_ok_def)
  have f: "cr3 s = bpd" "tlb s = Map.empty" "is_paging_enabled s" "boot_tables bpd bpt (phys_mem s)"
    using b by (simp_all add: boot_ready_def)
  have fr: "frame_no bpd \<in> used s" "frame_no bpt \<in> used s"
    using image_frames[OF img] s(2) by auto
  have "tables_ok s" by (rule boot_tables_ok[OF ok f(4,1) fr])
  then have "paging_inv s"
    using s f by (simp add: paging_inv_def tlb_coherent_def)
  from recursive_store[OF this, of v] show "st32 vm_st (cell (P2V bpd) 1023) v s = Inr t"
    by (simp add: s(3) f(1) t_def)
  have u: "used (write_cr3 bpd t) = used s" by (simp add: used_def write_cr3_def t_def)
  have "tables_ok (write_cr3 bpd t)"
    by (rule recursive_tables_ok[OF ok _ _ f(4)]) (use u fr in \<open>simp_all add: write_cr3_def t_def v_def\<close>)
  then show "paging_inv (write_cr3 bpd t)"
    using s u f by (simp add: paging_inv_def tlb_coherent_def write_cr3_def t_def bitmap_ok_def is_paging_enabled_def)
qed

lemma init_paging_ready:
  assumes img: "image_ok ks ke bpd bpt" and b: "boot_ready bpd bpt s"
  obtains t where "init_paging ks ke s = Inr t" "paging_inv t" "cr3 t = bpd"
    "used t = {..<256} \<union> page_span ks ke" "tlb t = Map.empty"
    "phys_mem t = write32 (cell bpd 1023) (bpd OR PAGE_PRESENT OR PAGE_WRITE)
      (phys_mem s)"
proof -
  have ke: "ke \<le> 0x400000" using img by (simp add: image_ok_def)
  let ?l = "(log_printf (''Initializing paging system...'' @ NL) [] s)\<lparr>frame_bitmap := replicate 512 0\<rparr>"
  have l: "bitmap_ok ?l" "used ?l = {}" by (auto simp: bitmap_ok_def used_def)
  obtain t1 t2 where t: "mark_range 0 0x100000 ?l = Inr t1"
    "mark_range ks ke (log_printf (''Marking kernel physical memory as used: %x - %x'' @ NL)
       [Va_int ks, Va_int ke] t1) = Inr t2"
    "used t2 = {..<256} \<union> page_span ks ke" "bitmap_ok t2" "only_frames ?l t2"
    using init_marks[OF ke l] by blast
  note of' = only_frames_fields[OF t(5)]
  let ?t3 = "log_printf (''Current page directory at physical: %x, virtual: %x'' @ NL)
      [Va_int bpd, Va_int (P2V bpd)]
      (t2\<lparr>kernel_page_directory := P2V bpd, current_page_directory := P2V bpd\<rparr>)"
  let ?v = "bpd OR PAGE_PRESENT OR PAGE_WRITE"
  let ?t4 = "?t3\<lparr>phys_mem := write32 (cell bpd 1023) ?v (phys_mem ?t3)\<rparr>"
  let ?t = "log_printf (''Paging system initialized!'' @ NL) []
            (log_debug DEBUG_LEVEL_INFO ''Paging system initialized successfully'' []
              (write_cr3 bpd ?t4))"
  have f: "cr3 t2 = bpd" "phys_mem t2 = phys_mem s" "cr0 t2 = cr0 s" "tlb t2 = Map.empty"
    using of' b by (simp_all add: boot_ready_def)
  have u: "used ?t3 = used t2" "used ?t = used t2" by (simp_all add: used_def write_cr3_def)
  have "boot_ready bpd bpt ?t3" using b f by (simp add: boot_ready_def is_paging_enabled_def)
  moreover have "bitmap_ok ?t3" using t(4) by (simp add: bitmap_ok_def)
  moreover have "used ?t3 = {..<256} \<union> page_span ks ke" by (simp only: u(1) t(3))
  moreover have "current_page_directory ?t3 = P2V bpd" by simp
  ultimately have fin: "st32 vm_st (cell (P2V bpd) 1023) ?v ?t3 = Inr ?t4" "paging_inv (write_cr3 bpd ?t4)"
    by (rule init_finish[OF img])+
  have "init_paging ks ke s = Inr ?t"
    using fin(1) t(1,2) f(1) by (simp add: init_paging_def Let_def)
  then show ?thesis
    using fin(2) u t(3) f by (intro that[of ?t]) (simp_all add: write_cr3_def)
qed

lemma init_paging_ok:
  assumes img: "image_ok ks ke bpd bpt" and t: "early_short (phys_mem s) msg1" "early_short (phys_mem s) msg2"
  obtains p t where "boot_paging bpd bpt msg1 msg2 s = Inr p" "init_paging ks ke p = Inr t"
    "paging_inv t" "cr3 t = bpd" "used t = {..<256} \<union> page_span ks ke" "tlb t = Map.empty"
    "phys_mem t = write32 (cell bpd 1023) (bpd OR PAGE_PRESENT OR PAGE_WRITE) (phys_mem p)"
    "boot_ready bpd bpt p"
proof -
  have "boot_pages_ok bpd bpt" using img by (simp add: image_ok_def)
  from boot_paging_ok[OF this t] obtain p where p: "boot_paging bpd bpt msg1 msg2 s = Inr p" "boot_ready bpd bpt p"
    by blast
  from init_paging_ready[OF img p(2)] obtain t where "init_paging ks ke p = Inr t" "paging_inv t" "cr3 t = bpd"
    "used t = {..<256} \<union> page_span ks ke" "tlb t = Map.empty"
    "phys_mem t = write32 (cell bpd 1023) (bpd OR PAGE_PRESENT OR PAGE_WRITE) (phys_mem p)" by blast
  with p show thesis by (intro that)
qed

end
