(* ===== verification/Paging_Props.thy ===== *)
theory Paging_Props
  imports Paging_Boot
begin

text \<open>
  The theorems about the paging system, each with its instance on the state that boot and
  \<^verbatim>\<open>init_paging\<close> leave for a kernel image from 0x100000 to 0x140000.
\<close>

section \<open>A booted system\<close>

definition reset_state :: paging_state where
  "reset_state = \<lparr>klog = [], frame_bitmap = [], kernel_page_directory = 0,
     current_page_directory = 0, phys_mem = (\<lambda>_. 0), cr0 = 0x11, cr3 = 0, tlb = Map.empty\<rparr>"

text \<open>The machine at the jump to the higher half, and after \<^verbatim>\<open>init_paging\<close>.\<close>

definition boot_state :: paging_state where
  "boot_state = projr (boot_paging 0x101000 0x102000 0xC0105000 0xC0105040 reset_state)"

definition booted :: paging_state where
  "booted = projr (init_paging 0x100000 0x140000 boot_state)"

lemma image_sample: "image_ok 0x100000 0x140000 0x101000 0x102000"
  by (simp add: image_ok_def boot_pages_ok_def)

lemma reset_short:
  "early_short (phys_mem reset_state) 0xC0105000" "early_short (phys_mem reset_state) 0xC0105040"
  by (auto simp: early_short_def early_text_def reset_state_def)

lemma boot_state:
  "boot_paging 0x101000 0x102000 0xC0105000 0xC0105040 reset_state = Inr boot_state"
  "boot_ready 0x101000 0x102000 boot_state"
proof -
  have "boot_pages_ok 0x101000 0x102000" using image_sample by (simp add: image_ok_def)
  from boot_paging_ok[OF this reset_short] obtain p where
    "boot_paging 0x101000 0x102000 0xC0105000 0xC0105040 reset_state = Inr p" "boot_ready 0x101000 0x102000 p"
    by blast
  then show "boot_paging 0x101000 0x102000 0xC0105000 0xC0105040 reset_state = Inr boot_state"
    "boot_ready 0x101000 0x102000 boot_state" by (simp_all add: boot_state_def)
qed

lemma booted:
  "init_paging 0x100000 0x140000 boot_state = Inr booted"
  "paging_inv booted" "cr3 booted = 0x101000" "used booted = {..<320}"
  "phys_mem booted = write32 (cell 0x101000 1023) (0x101000 OR PAGE_PRESENT OR PAGE_WRITE) (phys_mem boot_state)"
proof -
  obtain t where t: "init_paging 0x100000 0x140000 boot_state = Inr t"
    "paging_inv t" "cr3 t = 0x101000" "used t = {..<256} \<union> page_span 0x100000 0x140000"
    "phys_mem t = write32 (cell 0x101000 1023) (0x101000 OR PAGE_PRESENT OR PAGE_WRITE) (phys_mem boot_state)"
    by (rule init_paging_ready[OF image_sample boot_state(2)])
  then have b: "booted = t" by (simp add: booted_def)
  have "{..<256} \<union> page_span 0x100000 0x140000 = {..<320}"
    by (auto simp: page_span_def frame_no_def)
  with t b show "init_paging 0x100000 0x140000 boot_state = Inr booted"
    "paging_inv booted" "cr3 booted = 0x101000" "used booted = {..<320}"
    "phys_mem booted = write32 (cell 0x101000 1023) (0x101000 OR PAGE_PRESENT OR PAGE_WRITE) (phys_mem boot_state)"
    by simp_all
qed

lemma booted_tables:
  "j < 1024 \<Longrightarrow> present booted j \<longleftrightarrow> j = 0 \<or> j = 768 \<or> j = 1023"
  "table_of booted 0 = 0x102000" "table_of booted 768 = 0x102000" "table_of booted 1023 = 0x101000"
  using recursive_entries(1-4)[OF _ booted(5,3)] image_sample boot_state(2)
  by (simp_all add: image_ok_def boot_ready_def)

lemma booted_mappable: "mappable booted 0x400000" "table_available booted va"
proof -
  have "drop_bit 22 (0x400000 :: u32) = 1" by simp
  then show "mappable booted 0x400000"
    using booted_tables(1)[of 1] by (simp add: mappable_def)
  have "(320 :: nat) < 1024 \<and> 320 \<notin> used booted" by (simp add: booted(4))
  then show "table_available booted va" unfolding table_available_def by blast
qed

section \<open>Initialisation\<close>

lemma window_low:
  assumes "pa < (0x400000 :: u32)"
  shows "drop_bit 22 pa = 0" "drop_bit 12 pa AND 0x3FF = drop_bit 12 pa"
proof -
  have "unat pa < 4194304" using assms by (simp add: word_less_nat_alt)
  then show "drop_bit 22 pa = 0" "drop_bit 12 pa AND 0x3FF = drop_bit 12 pa"
    by (simp_all add: word_unat_eq_iff unat_drop_bit unat_and_3FF)
qed

text \<open>Through the recursive entry, page \<open>i\<close> of the last 4 MiB is the table of entry \<open>i\<close>.\<close>

lemma recursive_view:
  assumes inv: "paging_inv s" and r: "present s 1023" and va: "drop_bit 22 va = 1023"
  defines "i \<equiv> drop_bit 12 va AND 0x3FF"
  shows "mmu_translate s va = (if present s i then Some (table_of s i + (va AND 0xFFF)) else None)"
proof -
  have "table_of s 1023 = cr3 s" using inv r by (auto simp: paging_inv_def tables_ok_def)
  then have "pt_entry s 1023 i = pd_entry s i"
    using inv_dir(3)[OF inv] by (simp add: pt_entry_def pd_entry_def)
  then show ?thesis
    using r va unfolding inv_translate[OF inv] walk_entries
    by (simp add: present_def i_def table_of_def)
qed

lemma directory_page:
  assumes "off < 4096"
  shows "drop_bit 22 (0xFFFFF000 + off) = (1023 :: u32)"
    "drop_bit 12 (0xFFFFF000 + off) AND 0x3FF = (1023 :: u32)" "(0xFFFFF000 + off) AND 0xFFF = off"
proof -
  have off: "unat off < 4096" using assms by (simp add: word_less_nat_alt)
  then have u: "unat (0xFFFFF000 + off) = 4294963200 + unat off" by (simp add: unat_word_ariths)
  have "(4294963200 + unat off) div 4194304 = 1023" "(4294963200 + unat off) div 4096 = 1048575"
    using off by linarith+
  then show "drop_bit 22 (0xFFFFF000 + off) = (1023 :: u32)"
    "drop_bit 12 (0xFFFFF000 + off) AND 0x3FF = (1023 :: u32)"
    by (simp_all add: word_unat_eq_iff unat_drop_bit unat_and_3FF u)
  show "(0xFFFFF000 + off) AND 0xFFF = off" using assms by (intro page_offset(2)) simp_all
qed

text \<open>What the processor translates once the initialisation is done, the recursive area apart.\<close>

definition initial_map :: "u32 \<Rightarrow> u32 option" where
  "initial_map va = (if va < 0x400000 then Some va
     else if drop_bit 22 va = 768 then Some (V2P va) else None)"

lemma window_high:
  assumes "drop_bit 22 va = (768 :: u32)"
  shows "V2P va < 0x400000" "P2V (V2P va) = va"
proof -
  have "unat va div 4194304 = 768" using assms by (simp add: word_unat_eq_iff unat_drop_bit)
  then have "3221225472 \<le> unat va" "unat va < 3225419776" by linarith+
  then show "V2P va < 0x400000" by (simp add: V2P_def word_less_nat_alt unat_sub_if')
  show "P2V (V2P va) = va" by (simp add: P2V_def V2P_def)
qed

lemma initial_translation:
  assumes ok: "boot_pages_ok bpd bpt" and t: "paging_inv t" "cr3 t = bpd"
    "phys_mem t = write32 (cell bpd 1023) (bpd OR PAGE_PRESENT OR PAGE_WRITE) m" "boot_tables bpd bpt m"
  shows "drop_bit 22 va \<noteq> 1023 \<Longrightarrow> mmu_translate t va = initial_map va"
    and "off < 4096 \<Longrightarrow> mmu_translate t (0xFFFFF000 + off) = Some (bpd + off)"
proof -
  note re = recursive_entries[OF ok t(3,2,4)] and w = inv_translate[OF t(1)]
  have low: "mmu_translate t (P2V pa) = Some pa \<and> mmu_translate t pa = Some pa" if "pa < 0x400000" for pa
    using inv_window[OF t(1)] window_low[OF that] re(1)[of 0] re(6)[of "drop_bit 12 pa"] that
      boot_pte[of "drop_bit 12 pa"] window_indices[OF that]
    unfolding w[of pa] walk_entries by (simp add: window_ok_def present_def)
  show "mmu_translate t va = initial_map va" if "drop_bit 22 va \<noteq> 1023"
  proof -
    consider "va < 0x400000" | "drop_bit 22 va = 768" | "\<not> va < 0x400000" "drop_bit 22 va \<noteq> 768" by blast
    then show ?thesis
    proof cases
      case 2
      then have "drop_bit 22 va \<noteq> (0 :: u32)" by simp
      then have "\<not> va < 0x400000" using window_low(1)[of va] by blast
      then show ?thesis using low[OF window_high(1)[OF 2]] 2 by (simp add: window_high(2) initial_map_def)
    next
      case 3
      then have "\<not> unat va < 4194304" by (simp add: word_less_nat_alt)
      then have "drop_bit 22 va \<noteq> 0" by (simp add: word_unat_eq_iff unat_drop_bit)
      then show ?thesis using 3 that re(1)[OF pd_index_less] unfolding w walk_entries
        by (simp add: initial_map_def present_def)
    qed (use low in \<open>simp add: initial_map_def\<close>)
  qed
  show "mmu_translate t (0xFFFFF000 + off) = Some (bpd + off)" if "off < 4096"
    using recursive_view[OF t(1) _ directory_page(1)[OF that]] re(1)[of 1023] re(4)
    by (simp add: directory_page[OF that])
qed

text \<open>
  C7. Booting works: for any kernel image that lies in the first 4 MiB and holds the two
  bootstrap pages, when physical memory at the addresses of the two early messages, which lie above the first
  4 MiB, has a zero byte after at most 2000 others, the bootstrap builds its tables and \<^verbatim>\<open>init_paging\<close> run on them returns,
  in a state that satisfies the invariant of the paging system. The first MiB and the image are reserved and
  every other frame is free; the first 4 MiB are mapped both at 0 and at 0xC0000000, and apart from the
  recursive area nothing else is mapped; through the recursive entry the directory appears at 0xFFFFF000.
\<close>

theorem init_paging_establishes:
  assumes "image_ok kernel_start kernel_end bpd bpt"
    and "early_short (phys_mem s) boot_message" and "early_short (phys_mem s) page_tables_setup"
  shows "\<exists>p t. boot_paging bpd bpt boot_message page_tables_setup s = Inr p \<and>
    init_paging kernel_start kernel_end p = Inr t \<and> paging_inv t \<and>
    used t = {..<256} \<union> page_span kernel_start kernel_end \<and>
    (\<forall>va. drop_bit 22 va \<noteq> 1023 \<longrightarrow> mmu_translate t va = initial_map va) \<and>
    (\<forall>off<4096. mmu_translate t (0xFFFFF000 + off) = Some (bpd + off))"
proof -
  have ok: "boot_pages_ok bpd bpt" using assms by (simp add: image_ok_def)
  obtain p t where t: "boot_paging bpd bpt boot_message page_tables_setup s = Inr p"
    "init_paging kernel_start kernel_end p = Inr t"
    "paging_inv t" "cr3 t = bpd" "used t = {..<256} \<union> page_span kernel_start kernel_end" "tlb t = Map.empty"
    "phys_mem t = write32 (cell bpd 1023) (bpd OR PAGE_PRESENT OR PAGE_WRITE) (phys_mem p)"
    "boot_ready bpd bpt p"
    by (rule init_paging_ok[OF assms])
  then show ?thesis using initial_translation[OF ok t(3,4,7)] by (auto simp: boot_ready_def)
qed

theorem init_paging_establishes_witness:
  "image_ok 0x100000 0x140000 0x101000 0x102000 \<and>
   init_paging 0x100000 0x140000 boot_state = Inr booted \<and>
   paging_inv booted \<and> mmu_translate booted 0xC00B8000 = Some 0xB8000 \<and> mmu_translate booted 0x400000 = None \<and>
   mmu_translate booted 0xFFFFF004 = Some 0x101004"
proof -
  have f: "\<forall>va. drop_bit 22 va \<noteq> 1023 \<longrightarrow> mmu_translate booted va = initial_map va"
    "\<forall>off<4096. mmu_translate booted (0xFFFFF000 + off) = Some (0x101000 + off)"
    using init_paging_establishes[OF image_sample reset_short] booted(1) boot_state(1) by auto
  have "drop_bit 22 (0xC00B8000 :: u32) = 768" "drop_bit 22 (0x400000 :: u32) = 1" by simp_all
  with f(1)[rule_format, of "0xC00B8000"] f(1)[rule_format, of "0x400000"] f(2)[rule_format, of 4]
  show ?thesis using image_sample booted(1,2) by (simp add: initial_map_def V2P_def)
qed

text \<open>
  The loop that marks a range of frames returns exactly when the limit is not beyond the
  last address its counter takes; then the frames marked are those of the pages from the first
  address up to the limit.
\<close>

theorem mark_range_total:
  assumes "bitmap_ok s"
  shows "if unat to \<le> 2 ^ 32 - 4096 + unat from mod 4096
    then \<exists>t. mark_range from to s = Inr t \<and> used t = used s \<union> page_span from to \<and> bitmap_ok t
    else mark_range from to s = Inl No_return"
proof (cases "unat to \<le> 2 ^ 32 - 4096 + unat from mod 4096")
  case True
  obtain t where "mark_frames from to s = Some t" "used t = used s \<union> page_span from to" "bitmap_ok t"
    using mark_frames_ok[OF assms True] by blast
  with True show ?thesis by (simp add: mark_range_def)
next
  case False
  then show ?thesis by (simp add: mark_range_def mark_frames_diverges)
qed

theorem mark_range_total_witness:
  "bitmap_ok one_frame \<and>
   (\<exists>t. mark_range 0x1000 0x3000 one_frame = Inr t \<and> used t = {0, 1, 2}) \<and>
   mark_range 0 0xFFFFF001 one_frame = Inl No_return"
proof -
  have "page_span 0x1000 0x3000 = {1, 2}" by (auto simp: page_span_def frame_no_def)
  then show ?thesis
    using mark_range_total[OF one_frame(1), of "0x3000" "0x1000"] one_frame
      mark_range_total[OF one_frame(1), of "0xFFFFF001" 0] by auto
qed

section \<open>Mapping, unmapping, translating\<close>

text \<open>
  Page \<open>0xFFC00 + j\<close> of the address space shows the table of entry \<open>j\<close>; all other translations stay.
\<close>

lemma map_page_others:
  assumes s: "paging_inv s" and t: "paging_inv t" and g: "tables_grow s t" and j: "j < 1023"
    and p: "\<forall>k<1024. present t k \<longleftrightarrow> k = j \<or> present s k"
    and vb: "drop_bit 22 vb = 1023" "present s j \<or> drop_bit 12 vb \<noteq> 0xFFC00 + j"
  shows "mmu_translate t vb = mmu_translate s vb"
proof (cases "present s 1023")
  case True
  let ?i = "drop_bit 12 vb AND 0x3FF"
  have "unat vb div 4096 div 1024 = 1023"
    using vb(1) by (simp add: word_unat_eq_iff unat_drop_bit flip: div_mult2_eq)
  with div_mult_mod_eq[of "unat vb div 4096" 1024]
  have d: "unat vb div 4096 = 1047552 + unat vb div 4096 mod 1024" by simp
  have i: "unat ?i = unat vb div 4096 mod 1024" "unat ?i < 1024"
    by (simp_all add: unat_drop_bit unat_and_3FF)
  then have "unat (0xFFC00 + ?i) = unat vb div 4096" using d by (simp add: unat_word_ariths)
  then have "drop_bit 12 vb = 0xFFC00 + ?i" by (simp add: word_unat_eq_iff unat_drop_bit)
  with vb(2) have "present s j \<or> ?i \<noteq> j" by auto
  moreover have "present t 1023" using True p by simp
  ultimately show ?thesis
    using p g pt_index_less[of vb] unfolding recursive_view[OF s True vb(1)] recursive_view[OF t \<open>present t 1023\<close> vb(1)]
    by (auto simp: tables_grow_def)
next
  case False
  then have "\<not> present t 1023" using p j by auto
  then show ?thesis
    using False vb(1) unfolding inv_translate[OF s] inv_translate[OF t] walk_entries by (simp add: present_def)
qed

text \<open>
  C4. Mapping a page: for an address outside the recursive area and not served by the kernel
  window's own table, with a table there or a frame of the window free for one,
  \<^verbatim>\<open>map_page_to_frame\<close> returns without a fault; afterwards the processor translates the address
  to the frame asked for, at the same offset, every other page translates as before, except that a table
  that is new appears on its page of the recursive area, and the invariant holds again, the lookaside
  buffer included.
\<close>

theorem map_page_correct:
  assumes "paging_inv s" and "mappable s va" and "table_available s va"
  shows "\<exists>t. map_page_to_frame va pa flags s = Inr t \<and> paging_inv t \<and>
    mmu_translate t va = Some ((pa AND PAGE_FRAME) + (va AND 0xFFF)) \<and>
    (\<forall>vb. drop_bit 12 vb \<noteq> drop_bit 12 va \<and>
       (present s (drop_bit 22 va) \<or> drop_bit 12 vb \<noteq> 0xFFC00 + drop_bit 22 va) \<longrightarrow>
       mmu_translate t vb = mmu_translate s vb)"
proof -
  obtain t where t: "map_page_to_frame va pa flags s = Inr t" "paging_inv t"
    "mmu_translate t va = Some ((pa AND PAGE_FRAME) + (va AND 0xFFF))"
    "\<forall>vb. drop_bit 22 vb \<noteq> 1023 \<and> drop_bit 12 vb \<noteq> drop_bit 12 va \<longrightarrow> mmu_translate t vb = mmu_translate s vb"
    "tables_grow s t" "\<forall>k<1024. present t k \<longleftrightarrow> k = drop_bit 22 va \<or> present s k"
    by (rule map_page_ok[OF assms])
  have "drop_bit 22 va < 1023" using assms(2) by (simp add: mappable_def)
  from map_page_others[OF assms(1) t(2,5) this t(6)] t show ?thesis by blast
qed

theorem map_page_correct_witness:
  "paging_inv booted \<and> mappable booted 0x400000 \<and> table_available booted 0x400000 \<and>
   (\<exists>t. map_page_to_frame 0x400000 0x200123 7 booted = Inr t \<and>
        mmu_translate t 0x400000 = Some 0x200000)"
  using map_page_correct[OF booted(2) booted_mappable, of "0x200123" 7] booted(2) booted_mappable
  by auto

text \<open>
  C8. Unmapping a page: under the same condition on the address \<^verbatim>\<open>unmap_page\<close> returns, the
  address no longer translates, every other page is as before, no frame changes hands and the
  invariant holds again. Where the address had no table at all, only warnings are logged.
\<close>

theorem unmap_page_correct:
  assumes "paging_inv s" and "mappable s va"
  shows "\<exists>t. unmap_page va s = Inr t \<and> paging_inv t \<and> mmu_translate t va = None \<and>
    (\<forall>vb. drop_bit 12 vb \<noteq> drop_bit 12 va \<longrightarrow> mmu_translate t vb = mmu_translate s vb) \<and>
    frame_bitmap t = frame_bitmap s"
  using unmap_page_ok[OF assms] by blast

theorem unmap_page_correct_witness:
  "paging_inv booted \<and> mappable booted 0x400000 \<and>
   (\<exists>t. unmap_page 0x400000 booted = Inr t \<and> mmu_translate t 0x400000 = None)"
  using unmap_page_correct[OF booted(2) booted_mappable(1)] booted(2) booted_mappable(1) by auto

text \<open>
  C6. The software walk agrees with the processor: on every address, \<^verbatim>\<open>get_physical_address\<close>
  returns the address the processor translates it to, or 0 if it would fault, and changes
  nothing but the log.
\<close>

theorem get_physical_address_agrees:
  assumes "paging_inv s"
  shows "\<exists>t. get_physical_address va s =
      Inr (case mmu_translate s va of None \<Rightarrow> 0 | Some p \<Rightarrow> p, t) \<and> only_logs s t"
  using get_physical_address_ok[OF assms, of va] by blast

theorem get_physical_address_agrees_witness:
  "paging_inv booted \<and> (\<exists>t. get_physical_address 0xC00B8123 booted = Inr (0xB8123, t))"
proof -
  have "mmu_translate booted (P2V 0xB8123) = Some 0xB8123"
    using inv_window[OF booted(2)] by (simp add: window_ok_def)
  then show ?thesis
    using get_physical_address_agrees[OF booted(2), of "0xC00B8123"] booted(2) by (auto simp: P2V_def)
qed

section \<open>Physical pages and exhaustion\<close>

text \<open>
  C12. As long as a frame of the kernel window is free, \<^verbatim>\<open>kmalloc_physical_page\<close> returns a
  page-aligned, non-zero address of a frame that was free and is used from then on; the page reads
  as zeros, no other byte of physical memory and no translation has changed, and the invariant
  holds.
\<close>

theorem kmalloc_correct:
  assumes "paging_inv s" and "f < 1024" and "f \<notin> used s"
  shows "\<exists>a t. kmalloc_physical_page s = Inr (a, t) \<and> a \<noteq> 0 \<and> a AND 0xFFF = 0 \<and>
    frame_no a \<notin> used s \<and> used t = insert (frame_no a) (used s) \<and>
    (\<forall>p. phys_mem t p = (if p AND PAGE_FRAME = a then 0 else phys_mem s p)) \<and>
    mmu_translate t = mmu_translate s \<and> paging_inv t"
proof -
  obtain a t where "kmalloc_physical_page s = Inr (a, t)" "fresh_page s a t" "paging_inv t"
    using kmalloc_ok[OF assms] by blast
  then show ?thesis
    by (intro exI[of _ a] exI[of _ t]) (simp add: fresh_page_def clear_page_def)
qed

theorem kmalloc_correct_witness:
  "paging_inv booted \<and> (320 :: nat) < 1024 \<and> 320 \<notin> used booted \<and>
   (\<exists>a t. kmalloc_physical_page booted = Inr (a, t) \<and> a \<noteq> 0 \<and> frame_no a \<notin> {..<320} \<and>
      paging_inv t)"
proof -
  have "(320 :: nat) < 1024" "320 \<notin> used booted" by (simp_all add: booted(4))
  from kmalloc_correct[OF booted(2) this] show ?thesis using booted(2,4) by auto
qed

text \<open>
  C34. When every frame is used, a page allocation returns 0 and a mapping that needs a new
  table gives up: memory, registers and translations are untouched, and errors are logged.
\<close>

theorem out_of_frames:
  assumes "paging_inv s" and "used s = {..<16384}" and "\<not> present s (drop_bit 22 va)"
  shows "kmalloc_physical_page s =
      Inr (0, log_debug DEBUG_LEVEL_ERROR ''No free frames available!'' [] s) \<and>
    (\<exists>t. map_page_to_frame va pa flags s = Inr t \<and> only_logs s t \<and>
      map (\<lambda>c. case c of Debug_call l _ _ \<Rightarrow> l | _ \<Rightarrow> 0) (drop (length (klog s)) (klog t)) =
        [DEBUG_LEVEL_DEBUG, DEBUG_LEVEL_ERROR, DEBUG_LEVEL_ERROR, DEBUG_LEVEL_ERROR])"
proof
  let ?l = "log_debug DEBUG_LEVEL_DEBUG ''Mapping virtual %x to physical %x with flags %x''
                [Va_int va, Va_int pa, Va_int flags] s"
  show "kmalloc_physical_page s =
      Inr (0, log_debug DEBUG_LEVEL_ERROR ''No free frames available!'' [] s)"
    using assms(2) by (simp add: kmalloc_physical_page_def alloc_frame_full)
  have "get_page_table va True ?l = Inr (0, log_debug DEBUG_LEVEL_ERROR
      ''Failed to allocate page table for address %x'' [Va_int va]
      (log_debug DEBUG_LEVEL_ERROR ''No free frames available!'' [] ?l))"
    using assms ld_directory[of ?l, OF _ pd_index_less]
    by (simp add: get_page_table_def Let_def present_def alloc_frame_full)
  then show "\<exists>t. map_page_to_frame va pa flags s = Inr t \<and> only_logs s t \<and>
      map (\<lambda>c. case c of Debug_call l _ _ \<Rightarrow> l | _ \<Rightarrow> 0) (drop (length (klog s)) (klog t)) =
        [DEBUG_LEVEL_DEBUG, DEBUG_LEVEL_ERROR, DEBUG_LEVEL_ERROR, DEBUG_LEVEL_ERROR]"
    by (simp add: map_page_to_frame_def Let_def) (simp add: only_logs_def log_debug_def)
qed

text \<open>The booted system after more frames have been marked: all of them, or those of the window.\<close>

definition exhausted :: paging_state where
  "exhausted = booted\<lparr>frame_bitmap := replicate 512 (- 1)\<rparr>"

definition window_full :: paging_state where
  "window_full = booted\<lparr>frame_bitmap := replicate 32 (- 1) @ replicate 480 0\<rparr>"

lemma booted_bitmap:
  fixes bm :: "u32 list"
  defines "t \<equiv> booted\<lparr>frame_bitmap := bm\<rparr>"
  assumes bm: "length bm = 512" "{..<320} \<subseteq> used t"
  shows "paging_inv t" "present t = present booted"
proof -
  show e: "present t = present booted"
    using entries_cong[of t booted] by (simp add: t_def)
  have e': "pt_entry t = pt_entry booted" "table_of t = table_of booted" "pd_entry t = pd_entry booted"
    using entries_cong[of t booted] by (simp_all add: t_def)
  have "used booted \<subseteq> used t" using bm(2) by (simp add: booted(4))
  then have "tables_ok t"
    using booted(2) unfolding paging_inv_def tables_ok_def e e' by (auto simp: t_def)
  then show "paging_inv t"
    using booted(2) bm
    by (auto simp: paging_inv_def tlb_coherent_def is_paging_enabled_def bitmap_ok_def t_def)
qed

lemma exhausted:
  "paging_inv exhausted" "used exhausted = {..<16384}" "\<not> present exhausted (drop_bit 22 0x400000)"
proof -
  show u: "used exhausted = {..<16384}" by (auto simp: used_def exhausted_def)
  have "drop_bit 22 (0x400000 :: u32) = 1" by simp
  then show "paging_inv exhausted" "\<not> present exhausted (drop_bit 22 0x400000)"
    using booted_bitmap[of "replicate 512 (- 1)"] u booted_tables(1)[of 1] by (simp_all add: exhausted_def)
qed

lemma window_full:
  "paging_inv window_full" "used window_full = {..<1024}" "\<not> present window_full (drop_bit 22 0x400000)"
  "mmu_translate window_full (P2V (of_nat (1024 * 4096))) = None"
proof -
  have nth: "(replicate 32 (- 1) @ replicate 480 0) ! i = (if i < 32 then - 1 else 0 :: u32)"
    if "i < 512" for i using that by (simp add: nth_append)
  show u: "used window_full = {..<1024}"
    by (auto simp: used_def window_full_def nth split: if_splits)
  have "drop_bit 22 (0x400000 :: u32) = 1" by simp
  then show inv: "paging_inv window_full" and "\<not> present window_full (drop_bit 22 0x400000)"
    using booted_bitmap[of "replicate 32 (- 1) @ replicate 480 0"] u booted_tables(1)[of 1]
    by (simp_all add: window_full_def)
  have "\<not> present window_full 769"
    using booted_bitmap(2)[of "replicate 32 (- 1) @ replicate 480 0"] u booted_tables(1)[of 769]
    by (simp add: window_full_def)
  moreover have "drop_bit 22 (P2V (of_nat (1024 * 4096))) = 769" by (simp add: P2V_def)
  ultimately show "mmu_translate window_full (P2V (of_nat (1024 * 4096))) = None"
    unfolding inv_translate[OF inv] walk_entries by (simp add: present_def)
qed

theorem out_of_frames_witness:
  "paging_inv exhausted \<and> used exhausted = {..<16384} \<and> \<not> present exhausted (drop_bit 22 0x400000) \<and>
   (\<exists>t. kmalloc_physical_page exhausted = Inr (0, t))"
  using out_of_frames[OF exhausted] exhausted by auto

text \<open>
  C35. The allocator manages 64 MiB but only the first 4 MiB are mapped at 0xC0000000: once the
  least free frame lies beyond and nothing maps its address there, clearing the frame faults, in
  \<^verbatim>\<open>kmalloc_physical_page\<close> as well as in a mapping that needs a new table.
\<close>

theorem frame_beyond_window_faults:
  fixes s :: "'a paging_state_scheme"
  assumes "paging_inv s" and "f < 16384" and "f \<notin> used s" and "\<forall>g<f. g \<in> used s"
    and "mmu_translate s (P2V (of_nat (f * 4096))) = None" and "\<not> present s (drop_bit 22 va)"
  shows "kmalloc_physical_page s = Inl (Page_fault (P2V (of_nat (f * 4096)))) \<and>
    map_page_to_frame va pa flags s = Inl (Page_fault (P2V (of_nat (f * 4096))))"
proof
  let ?a = "of_nat (f * 4096) :: u32"
  let ?l = "log_debug DEBUG_LEVEL_DEBUG ''Mapping virtual %x to physical %x with flags %x''
                [Va_int va, Va_int pa, Va_int flags] s"
  have "f \<noteq> 0" using assms(1,3) by (auto simp: paging_inv_def intro: gr0I)
  then have a: "?a \<noteq> 0"
    using assms(2) frame_no_of_nat[OF assms(2)] by (metis div_0 unat_0)
  have m: "memset vm_st (P2V ?a) 0 4096 t = Inl (Page_fault (P2V ?a))" if "mmu_translate t = mmu_translate s" for t :: "'a paging_state_scheme"
    using assms(5) by (simp add: memset_def for_rangeE.simps[of 0] vm_st_def that)
  have tr: "mmu_translate (set_frame ?a t) = mmu_translate t" for t :: "'a paging_state_scheme"
    by (intro ext) (simp add: mmu_translate_def split: option.splits)
  have al: "alloc_frame t = (?a, set_frame ?a (log_debug DEBUG_LEVEL_DEBUG
      ''Allocated frame at physical address %x'' [Va_int ?a] t))" if "used t = used s" for t :: "'a paging_state_scheme"
    using assms(2-4) that by (intro alloc_frame_least) simp_all
  show "kmalloc_physical_page s = Inl (Page_fault (P2V ?a))"
    using a by (simp add: kmalloc_physical_page_def al m tr del: of_nat_mult)
  have "get_page_table va True ?l = Inl (Page_fault (P2V ?a))"
    using a assms(1,6) ld_directory[of ?l, OF _ pd_index_less]
    by (simp add: get_page_table_def Let_def present_def al m tr del: of_nat_mult)
  then show "map_page_to_frame va pa flags s = Inl (Page_fault (P2V ?a))"
    by (simp add: map_page_to_frame_def Let_def)
qed

theorem frame_beyond_window_faults_witness:
  "paging_inv window_full \<and> (1024 :: nat) < 16384 \<and> 1024 \<notin> used window_full \<and>
   {..<1024} \<subseteq> used window_full \<and>
   mmu_translate window_full (P2V (of_nat (1024 * 4096))) = None \<and>
   \<not> present window_full (drop_bit 22 0x400000) \<and>
   kmalloc_physical_page window_full = Inl (Page_fault 0xC0400000)"
proof -
  have h: "(1024 :: nat) < 16384" "1024 \<notin> used window_full" "\<forall>g<1024. g \<in> used window_full"
    by (simp_all add: window_full(2))
  have "kmalloc_physical_page window_full = Inl (Page_fault (P2V (of_nat (1024 * 4096))))"
    using frame_beyond_window_faults[OF window_full(1) h window_full(4,3)] by blast
  moreover have "P2V (of_nat (1024 * 4096)) = 0xC0400000" by (simp add: P2V_def)
  ultimately show ?thesis using window_full h by simp
qed

end
