(* ===== verification/Paging_Run.thy ===== *)
theory Paging_Run
  imports Paging_Props
begin

text \<open>
  Runs of the paging system: kernel code maps, unmaps, translates, takes and returns physical
  pages and stores into pages it holds, in any order, and between any two of these calls the
  processor may cache or drop translations.
\<close>

section \<open>Steps\<close>

text \<open>A configuration is the state and the set of physical pages that clients hold.\<close>

inductive paging_step ::
  "paging_state \<times> u32 set \<Rightarrow> paging_state \<times> u32 set \<Rightarrow> bool" where
  step_map: "mappable s va \<Longrightarrow> table_available s va \<Longrightarrow> map_page_to_frame va pa flags s = Inr t \<Longrightarrow>
     paging_step (s, held) (t, held)"
| step_unmap: "mappable s va \<Longrightarrow> unmap_page va s = Inr t \<Longrightarrow> paging_step (s, held) (t, held)"
| step_query: "get_physical_address va s = Inr (pa, t) \<Longrightarrow> paging_step (s, held) (t, held)"
| step_alloc: "f < 1024 \<Longrightarrow> f \<notin> used s \<Longrightarrow> kmalloc_physical_page s = Inr (a, t) \<Longrightarrow>
     paging_step (s, held) (t, insert a held)"
| step_free: "a \<in> held \<Longrightarrow> paging_step (s, held) (kfree_physical_page a s, held - {a})"
| step_store: "mmu_translate s va = Some p \<Longrightarrow> p AND PAGE_FRAME \<in> held \<Longrightarrow> vm_st va b s = Inr t \<Longrightarrow>
     paging_step (s, held) (t, held)"
| step_cache: "mmu_walk (phys_mem s) (cr3 s) va = Some p \<Longrightarrow>
     paging_step (s, held) (s\<lparr>tlb := (tlb s)(drop_bit 12 va \<mapsto> p AND PAGE_FRAME)\<rparr>, held)"
| step_evict: "paging_step (s, held) (flush_tlb_entry va s, held)"

inductive paging_run :: "paging_state \<times> u32 set \<Rightarrow> paging_state \<times> u32 set \<Rightarrow> bool" for c0 where
  run_refl: "paging_run c0 c0"
| run_step: "paging_run c0 c \<Longrightarrow> paging_step c d \<Longrightarrow> paging_run c0 d"

section \<open>The invariant of a run\<close>

text \<open>The pages clients hold are used frames apart from the directory and from every table.\<close>

definition held_ok :: "paging_state \<Rightarrow> u32 set \<Rightarrow> bool" where
  "held_ok s held \<longleftrightarrow> (\<forall>a\<in>held. a AND 0xFFF = 0 \<and> a \<noteq> 0 \<and> frame_no a \<in> used s \<and> a \<noteq> cr3 s \<and>
     (\<forall>j<1024. present s j \<longrightarrow> table_of s j \<noteq> a))"

definition run_inv :: "paging_state \<times> u32 set \<Rightarrow> bool" where
  "run_inv c \<longleftrightarrow> paging_inv (fst c) \<and> held_ok (fst c) (snd c)"

lemma held_ok_grow:
  assumes "held_ok s held" "tables_grow s t"
  shows "held_ok t held"
  using assms unfolding held_ok_def tables_grow_def by (metis subsetD)

lemma held_ok_cong:
  assumes "held_ok s held" "used t = used s" "cr3 t = cr3 s" "\<And>j. j < 1024 \<Longrightarrow> pd_entry t j = pd_entry s j"
  shows "held_ok t held"
  using assms by (simp add: held_ok_def present_def table_of_def)

lemma only_logs_inv:
  assumes "only_logs s t"
  shows "paging_inv t = paging_inv s" "held_ok t held = held_ok s held"
proof -
  obtain l where t: "t = s\<lparr>klog := l\<rparr>" using assms by (auto simp: only_logs_def)
  show "paging_inv t = paging_inv s" by (rule paging_inv_cong) (simp_all add: t)
  have "present t = present s" "table_of t = table_of s"
    using entries_cong[of t s] by (simp_all add: t)
  moreover have "used t = used s" by (simp add: used_def t)
  ultimately show "held_ok t held = held_ok s held" by (simp add: held_ok_def) (simp add: t)
qed

lemma frame_no_inj:
  assumes "a AND 0xFFF = 0" "b AND 0xFFF = 0" "frame_no a = frame_no b"
  shows "a = b"
proof -
  have "unat x = frame_no x * 4096" if "x AND 0xFFF = 0" for x
  proof -
    have "unat x mod 4096 = 0" using that unat_and_FFF[of x] by simp
    then show ?thesis by (auto simp: frame_no_def)
  qed
  then show ?thesis using assms by (simp add: word_unat_eq_iff)
qed

lemma kmalloc_held:
  assumes inv: "run_inv (s, held)" and fr: "f < 1024" "f \<notin> used s"
    and k: "kmalloc_physical_page s = Inr (a, t)"
  shows "run_inv (t, insert a held)"
proof -
  have s: "paging_inv s" "held_ok s held" using inv by (simp_all add: run_inv_def)
  have "fresh_page s a t" "paging_inv t" using kmalloc_ok[OF s(1) fr] k by auto
  then show ?thesis
    using s(2) by (auto simp: run_inv_def held_ok_def fresh_page_def present_def table_of_def)
qed

lemma kfree_held:
  assumes inv: "run_inv (s, held)" and a: "a \<in> held"
  shows "run_inv (kfree_physical_page a s, held - {a})"
proof -
  have s: "paging_inv s" "held_ok s held" and t: "tables_ok s"
    using inv by (simp_all add: run_inv_def paging_inv_def)
  have b: "bitmap_ok s" "0 \<in> used s" using s(1) by (simp_all add: paging_inv_def)
  have ha: "a AND 0xFFF = 0" "a \<noteq> 0" "a \<noteq> cr3 s" "\<forall>j<1024. present s j \<longrightarrow> table_of s j \<noteq> a"
    using s(2) a by (auto simp: held_ok_def)
  let ?t = "free_frame a s"
  have u: "used ?t = used s - {frame_no a}"
    using bitmap.free_frames[OF b(1)] by (simp add: frame_no_def)
  have e: "pd_entry ?t = pd_entry s" "table_of ?t = table_of s" "pt_entry ?t = pt_entry s"
    "present ?t = present s" using entries_cong[of ?t s] by simp_all
  have keep: "frame_no x \<noteq> frame_no a" if "x AND 0xFFF = 0" "x \<noteq> a" for x
    using frame_no_inj[OF that(1) ha(1)] that(2) by blast
  have "frame_no (table_of s j) \<noteq> frame_no a" if "j < 1023" "present s j" for j
    using keep[OF table_of_aligned] ha(4) that below_1024 by blast
  then have "tables_ok ?t"
    using t ha keep[OF inv_dir(1)[OF s(1)]] by (auto simp: tables_ok_def u e)
  moreover have "frame_no a \<noteq> 0" using keep[of 0] ha(2) by (simp add: frame_no_def)
  ultimately have "paging_inv ?t"
    using s(1) b u bitmap.inv_free[OF b(1), of a]
    by (simp add: paging_inv_def is_paging_enabled_def tlb_coherent_def)
  moreover have "held_ok ?t (held - {a})"
    using s(2) keep by (auto simp: held_ok_def u e)
  ultimately show ?thesis using ha(2) by (simp add: run_inv_def kfree_physical_page_def)
qed

text \<open>Memory that changes only in held pages, which are neither the directory nor tables.\<close>

lemma held_entries:
  assumes inv: "run_inv (s, held)" and m: "\<And>a. a AND PAGE_FRAME \<notin> held \<Longrightarrow> m a = phys_mem s a"
  shows "j < 1024 \<Longrightarrow> pd_entry (s\<lparr>phys_mem := m\<rparr>) j = pd_entry s j"
    and "j < 1024 \<Longrightarrow> i < 1024 \<Longrightarrow> present s j \<Longrightarrow> pt_entry (s\<lparr>phys_mem := m\<rparr>) j i = pt_entry s j i"
proof -
  let ?t = "s\<lparr>phys_mem := m\<rparr>"
  have s: "paging_inv s" "held_ok s held" using inv by (simp_all add: run_inv_def)
  note d = inv_dir[OF s(1)]
  have h: "cr3 s \<notin> held" "\<And>j. j < 1024 \<Longrightarrow> present s j \<Longrightarrow> table_of s j \<notin> held"
    using s(2) by (auto simp: held_ok_def)
  have cell: "read32 (phys_mem ?t) (cell T i) = read32 (phys_mem s) (cell T i)"
    if "T AND 0xFFF = 0" "i < 1024" "T \<notin> held" for T i
  proof (rule read32_cong)
    fix k :: u32 assume "k < 4"
    then have "(cell T i + k) AND PAGE_FRAME = T" by (rule cell_byte(1)[OF that(1,2)])
    then show "phys_mem ?t (cell T i + k) = phys_mem s (cell T i + k)" using m that(3) by simp
  qed
  show pd: "pd_entry ?t j = pd_entry s j" if "j < 1024" for j
    using cell[OF d(1) that h(1)] by (simp add: pd_entry_def d(3))
  show "pt_entry ?t j i = pt_entry s j i" if "j < 1024" "i < 1024" "present s j"
    using cell[OF table_of_aligned that(2) h(2)[OF that(1,3)]] pd[OF that(1)]
    by (simp add: pt_entry_def table_of_def)
qed

lemma held_walk:
  assumes "run_inv (s, held)" and "\<And>a. a AND PAGE_FRAME \<notin> held \<Longrightarrow> m a = phys_mem s a"
  shows "mmu_walk m (cr3 s) va = mmu_walk (phys_mem s) (cr3 s) va"
  using walk_entries[of "s\<lparr>phys_mem := m\<rparr>" va] held_entries[OF assms] pd_index_less[of va] pt_index_less[of va]
  by (simp add: walk_entries present_def)

lemma held_translate:
  assumes "run_inv (s, held)" and "\<And>a. a AND PAGE_FRAME \<notin> held \<Longrightarrow> m a = phys_mem s a"
  shows "mmu_translate (s\<lparr>phys_mem := m\<rparr>) = mmu_translate s"
  using held_walk[OF assms] by (intro ext) (simp add: mmu_translate_def split: option.splits)

lemma memory_held:
  assumes inv: "run_inv (s, held)" and m: "\<And>a. a AND PAGE_FRAME \<notin> held \<Longrightarrow> m a = phys_mem s a"
  shows "run_inv (s\<lparr>phys_mem := m\<rparr>, held)"
proof -
  let ?t = "s\<lparr>phys_mem := m\<rparr>"
  have s: "paging_inv s" "held_ok s held" and t: "tables_ok s" "tlb_coherent s"
    using inv by (simp_all add: run_inv_def paging_inv_def)
  have pd: "pd_entry ?t j = pd_entry s j" "present ?t j = present s j" "table_of ?t j = table_of s j"
    if "j < 1024" for j
    using held_entries(1)[OF inv m that] by (simp_all add: present_def table_of_def)
  have pt: "pt_entry ?t j i = pt_entry s j i" if "j < 1024" "i < 1024" "present s j" for j i
    using held_entries(2)[OF inv m that] .
  have "tlb_coherent ?t" using t(2) held_walk[OF inv m] by (simp add: tlb_coherent_def)
  moreover have u: "used ?t = used s" by (simp add: used_def)
  then have "tables_ok ?t"
    using t(1) tables_ok_768[OF t(1)] pt[of 768] by (auto simp: tables_ok_def pd below_1024)
  ultimately have "paging_inv ?t"
    using s(1) u by (simp add: paging_inv_def is_paging_enabled_def bitmap_ok_def)
  then show ?thesis
    using held_ok_cong[OF s(2) u] pd by (simp add: run_inv_def)
qed

lemma store_held:
  assumes "run_inv (s, held)" and "p AND PAGE_FRAME \<in> held"
  shows "run_inv (s\<lparr>phys_mem := (phys_mem s)(p := b)\<rparr>, held)"
  using assms by (intro memory_held) auto

text \<open>The processor caches what it has walked, and may forget it at any time.\<close>

lemma tlb_run_inv:
  assumes inv: "run_inv (s, held)" and c: "tlb_coherent (s\<lparr>tlb := f\<rparr>)"
  shows "run_inv (s\<lparr>tlb := f\<rparr>, held)"
proof -
  have "tables_ok (s\<lparr>tlb := f\<rparr>) = tables_ok s" by (rule tables_ok_cong) (simp_all add: used_def)
  moreover have u: "used (s\<lparr>tlb := f\<rparr>) = used s" by (simp add: used_def)
  moreover have "pd_entry (s\<lparr>tlb := f\<rparr>) = pd_entry s" using entries_cong[of "s\<lparr>tlb := f\<rparr>" s] by simp
  ultimately show ?thesis
    using inv c held_ok_cong[of s held "s\<lparr>tlb := f\<rparr>"]
    by (simp add: run_inv_def paging_inv_def is_paging_enabled_def bitmap_ok_def)
qed

lemma walk_same_page:
  assumes "mmu_walk (phys_mem s) (cr3 s) va = Some p" "drop_bit 12 vb = drop_bit 12 va"
  shows "mmu_walk (phys_mem s) (cr3 s) vb = Some ((p AND PAGE_FRAME) + (vb AND 0xFFF))"
proof -
  have "drop_bit 10 (drop_bit 12 vb) = drop_bit 10 (drop_bit 12 va)" using assms(2) by simp
  then have "drop_bit 22 vb = drop_bit 22 va" by (simp only: drop_bit_drop_bit) simp
  moreover have "p AND PAGE_FRAME = pt_entry s (drop_bit 22 va) (drop_bit 12 va AND 0x3FF) AND PAGE_FRAME"
    using assms(1) page_offset(1)[OF page_frame_aligned page_off_less] unfolding walk_entries
    by (auto split: if_splits)
  ultimately show ?thesis
    using assms unfolding walk_entries by (auto split: if_splits)
qed

lemma cache_coherent:
  assumes "tlb_coherent s" "mmu_walk (phys_mem s) (cr3 s) va = Some p"
  shows "tlb_coherent (s\<lparr>tlb := (tlb s)(drop_bit 12 va \<mapsto> p AND PAGE_FRAME)\<rparr>)"
  using assms walk_same_page[OF assms(2)] by (auto simp: tlb_coherent_def)

lemma step_inv: "paging_step c d \<Longrightarrow> run_inv c \<Longrightarrow> run_inv d"
proof (induction rule: paging_step.induct)
  case (step_map s va pa flags t held)
  then show ?case using map_page_ok[of s va pa flags] held_ok_grow[of s held t] by (auto simp: run_inv_def)
next
  case (step_unmap s va t held)
  then show ?case using unmap_page_ok[of s va] held_ok_grow[of s held t] by (auto simp: run_inv_def)
next
  case (step_query va s pa t held)
  then show ?case using get_physical_address_ok[of s va] only_logs_inv[of s t] by (auto simp: run_inv_def)
next
  case (step_store s va p held b t)
  then show ?case using store_held[of s held p b] by (simp add: vm_st_def)
next
  case (step_cache s va p held)
  then show ?case
    by (intro tlb_run_inv cache_coherent) (auto simp: run_inv_def paging_inv_def)
next
  case (step_evict s held va)
  then show ?case unfolding flush_tlb_entry_def
    by (intro tlb_run_inv) (auto simp: run_inv_def paging_inv_def tlb_coherent_def)
qed (use kmalloc_held kfree_held in auto)

lemma run_inv_run: "paging_run c0 c \<Longrightarrow> run_inv c0 \<Longrightarrow> run_inv c"
  by (induction rule: paging_run.induct) (auto intro: step_inv)

text \<open>
  C1. Safety of every run: from the state that the bootstrap, its messages short, and \<^verbatim>\<open>init_paging\<close> leave, whatever
  the processor caches or forgets in between, any sequence of these calls keeps the invariant: mapping an address
  that neither lies in the recursive area nor is served by the kernel window's own table, while there is a table
  for it or a frame of the window free; unmapping such an address; looking up any address; allocating a page while
  a frame of the window is free; releasing a page that was allocated; and storing into one. Throughout,
  the lookaside buffer never gives a stale translation, the kernel window maps the first 4 MiB, and no page a
  client holds is the directory, a page table or a free frame.
\<close>

theorem paging_run_safe:
  assumes "image_ok kernel_start kernel_end bpd bpt"
    and "early_short (phys_mem s) boot_message" and "early_short (phys_mem s) page_tables_setup"
    and "boot_paging bpd bpt boot_message page_tables_setup s = Inr p"
    and "init_paging kernel_start kernel_end p = Inr t"
    and "paging_run (t, {}) (u, held)"
  shows "paging_inv u \<and> held_ok u held \<and>
    (\<forall>va. mmu_translate u va = mmu_walk (phys_mem u) (cr3 u) va) \<and>
    (\<forall>pa<0x400000. mmu_translate u (P2V pa) = Some pa)"
proof -
  have "paging_inv t" by (rule init_paging_ok[OF assms(1-3)]) (use assms(4,5) in simp)
  then have "run_inv (u, held)"
    using run_inv_run[OF assms(6)] by (simp add: run_inv_def held_ok_def)
  then show ?thesis
    using inv_window[of u] inv_translate[of u] by (simp add: run_inv_def window_ok_def)
qed

theorem paging_run_safe_witness:
  "\<exists>u a. image_ok 0x100000 0x140000 0x101000 0x102000 \<and>
     init_paging 0x100000 0x140000 boot_state = Inr booted \<and>
     paging_run (booted, {}) (u, {a}) \<and> a \<noteq> 0 \<and> held_ok u {a} \<and>
     mmu_translate u 0xC0101000 = Some 0x101000"
proof -
  have fr: "(320 :: nat) < 1024" "320 \<notin> used booted" by (simp_all add: booted(4))
  obtain a u where k: "kmalloc_physical_page booted = Inr (a, u)" "fresh_page booted a u"
    using kmalloc_ok[OF booted(2) fr] by blast
  have run: "paging_run (booted, {}) (u, {a})"
    using paging_step.step_alloc[OF fr k(1), of "{}"] by (auto intro: paging_run.intros)
  from paging_run_safe[OF image_sample reset_short boot_state(1) booted(1) run]
  have "held_ok u {a}" "\<forall>pa<0x400000. mmu_translate u (P2V pa) = Some pa" by blast+
  from this(2)[rule_format, of "0x101000"] have "mmu_translate u 0xC0101000 = Some 0x101000"
    by (simp add: P2V_def)
  moreover have "a \<noteq> 0" using k(2) by (simp add: fresh_page_def)
  ultimately show ?thesis
    using run image_sample booted(1) \<open>held_ok u {a}\<close> by blast
qed

section \<open>Registers and the report\<close>

text \<open>
  Switching the directory: whatever the buffer held before, afterwards every translation is
  a walk of the new directory, whose physical address is in CR3.
\<close>

theorem switch_page_directory_flushes:
  assumes "is_paging_enabled s"
  shows "cr3 (switch_page_directory dir s) = V2P dir \<and>
    current_page_directory (switch_page_directory dir s) = dir \<and>
    mmu_translate (switch_page_directory dir s) va = mmu_walk (phys_mem s) (V2P dir) va"
  using assms
  by (simp add: switch_page_directory_def write_cr3_def mmu_translate_def is_paging_enabled_def)

theorem switch_page_directory_flushes_witness:
  "is_paging_enabled booted \<and> cr3 (switch_page_directory 0xC0101000 booted) = 0x101000 \<and>
   mmu_translate (switch_page_directory 0xC0101000 booted) 0xC00B8000 = Some 0xB8000"
proof -
  have e: "is_paging_enabled booted" using booted(2) by (simp add: paging_inv_def)
  have t: "tables_ok booted" using booted(2) by (simp add: paging_inv_def)
  have "mmu_walk (phys_mem booted) 0x101000 0xC00B8000 = Some 0xB8000"
    using tables_ok_walk[OF t, of "0xB8000"] by (simp add: booted(3) P2V_def)
  then show ?thesis
    using switch_page_directory_flushes[OF e, of "0xC0101000" "0xC00B8000"] e by (simp add: V2P_def)
qed

text \<open>
  \<^verbatim>\<open>enable_paging\<close> and \<^verbatim>\<open>disable_paging\<close> set and clear the paging bit of CR0 and no other;
  \<^verbatim>\<open>is_paging_enabled\<close> reads it back, and with paging off every address is physical.
\<close>

theorem paging_bit:
  "is_paging_enabled (enable_paging s) \<and> \<not> is_paging_enabled (disable_paging s) \<and>
   mmu_translate (disable_paging s) va = Some va \<and>
   (bit (cr0 (enable_paging s)) n \<longleftrightarrow> n = 31 \<or> bit (cr0 s) n) \<and>
   (bit (cr0 (disable_paging s)) n \<longleftrightarrow> n \<noteq> 31 \<and> bit (cr0 s) n)"
proof -
  have m: "(0x80000000 :: u32) = 2 ^ 31" by simp
  show ?thesis
    unfolding is_paging_enabled_def mmu_translate_def enable_paging_def disable_paging_def log_fields m
    using bit_word_masks[of 31 "cr0 s"] bit_word_masks(3)[of 31 "cr0 s OR 2 ^ 31"]
      bit_word_masks(3)[of 31 "cr0 s AND NOT (2 ^ 31)"]
    by auto
qed

lemma fold_count: "fold (\<lambda>x n. if P x then n + 1 else n) xs n = n + of_nat (length (filter P xs))"
  for n :: "'a::len word"
  by (induction xs arbitrary: n) auto

lemma fold_sum: "fold (\<lambda>x n. n + of_nat (c x)) xs n = n + of_nat (sum_list (map c xs))"
  for n :: "'a::len word"
  by (induction xs arbitrary: n) auto

lemma bits_by_word:
  "length (filter (\<lambda>f. bit (bm ! (f div 32)) (f mod 32)) [0..<n * 32]) =
     sum_list (map (\<lambda>i. length (filter (bit (bm ! i)) [0..<32])) [0..<n])"
  for bm :: "u32 list"
proof (induction n)
  case (Suc n)
  have "[0..<Suc n * 32] = [0..<n * 32] @ map ((+) (n * 32)) [0..<32]"
    using upt_add_eq_append[of 0 "n * 32" 32] map_add_upt[of "n * 32" 32]
    by (simp add: add.commute[of _ "n * 32"])
  moreover have "length (filter (\<lambda>f. bit (bm ! (f div 32)) (f mod 32)) (map ((+) (n * 32)) [0..<32])) =
      length (filter (bit (bm ! n)) [0..<32])"
    unfolding filter_map length_map comp_def by (intro arg_cong[of _ _ length] filter_cong) auto
  ultimately show ?case using Suc.IH by simp
qed simp

lemma count_used_frames_card: "count_used_frames (frame_bitmap s) = of_nat (card (used s))"
proof -
  let ?bm = "frame_bitmap s"
  have idx: "unat (of_nat i :: u32) = i" if "i < 512" for i
    using that by (intro unat_of_nat_below[of _ 512]) simp
  have inner: "for_range 0 32 (\<lambda>j n. if w AND push_bit (unat j) 1 \<noteq> 0 then n + 1 else n) n =
      n + of_nat (length (filter (bit w) [0..<32]))" for w :: u32 and n :: u32
  proof -
    have "w AND 2 ^ unat (of_nat j :: u32) \<noteq> 0 \<longleftrightarrow> bit w j" if "j < 32" for j
      using that idx[of j] by (simp add: bit_word_masks)
    then have "filter (\<lambda>j :: u32. w AND 2 ^ unat j \<noteq> 0) (map of_nat [0..<32]) =
        map of_nat (filter (bit w) [0..<32])"
      unfolding filter_map comp_def by (intro arg_cong[of _ _ "map of_nat"] filter_cong) auto
    then show ?thesis by (simp add: for_range_fold fold_count)
  qed
  have "count_used_frames ?bm =
      of_nat (sum_list (map (\<lambda>i :: u32. length (filter (bit (?bm ! unat i)) [0..<32])) (map of_nat [0..<512])))"
    unfolding count_used_frames_def inner for_range_fold[of 0 512] fold_sum by simp
  also have "map (\<lambda>i :: u32. length (filter (bit (?bm ! unat i)) [0..<32])) (map of_nat [0..<512]) =
      map (\<lambda>i. length (filter (bit (?bm ! i)) [0..<32])) [0..<512]"
    by (simp add: idx)
  also have "sum_list \<dots> = length (filter (\<lambda>f. bit (?bm ! (f div 32)) (f mod 32)) [0..<512 * 32])"
    by (rule bits_by_word[symmetric])
  also have "\<dots> = card (used s)"
    by (subst distinct_card[symmetric]) (auto simp: used_def intro!: arg_cong[of _ _ card])
  finally show ?thesis .
qed

text \<open>
  \<^verbatim>\<open>print_paging_info\<close> only prints, and what it reports is right: the number of used frames is
  the number of set bits of the bitmap, the free frames are the rest of 16384, and the sizes in
  KB, computed in 32 bits, are four times these numbers.
\<close>

theorem print_paging_info_counts:
  "only_logs s (print_paging_info s) \<and>
   (\<exists>n k l m. unat n = card (used s) \<and> unat k = 16384 - card (used s) \<and> length l = 4 \<and>
     klog (print_paging_info s) = klog s @ l @
       [Printf_call (''  Used physical frames: %u/%u (%u KB)'' @ NL) [Va_int n, Va_int 16384, Va_int (4 * n)],
        Printf_call (''  Free physical frames: %u/%u (%u KB)'' @ NL) [Va_int k, Va_int 16384, Va_int (4 * k)],
        m])"
proof -
  define n :: u32 where "n = of_nat (card (used s))"
  define k :: u32 where "k = of_nat (16384 - card (used s))"
  have c: "card (used s) \<le> 16384" using card_mono[OF _ used_bound[of s]] by simp
  have small: "unat (of_nat i :: u32) = i" "(of_nat i :: u32) * 4096 div 1024 = 4 * of_nat i"
    if "i \<le> 16384" for i :: nat
  proof -
    show u: "unat (of_nat i :: u32) = i" using that by (intro unat_of_nat_below[of _ 16385]) simp
    have "unat ((of_nat i :: u32) * 4096 div 1024) = unat (4 * of_nat i :: u32)"
      using that by (simp add: unat_div unat_word_ariths u)
    then show "(of_nat i :: u32) * 4096 div 1024 = 4 * of_nat i" by (simp only: word_unat_eq_iff)
  qed
  have k: "TOTAL_FRAMES - n = k" unfolding n_def k_def using c by simp
  have cnt: "count_used_frames (frame_bitmap s) = n" by (simp add: count_used_frames_card n_def)
  have kb: "n * 4096 div 1024 = 4 * n" "k * 4096 div 1024 = 4 * k"
    unfolding n_def k_def by (rule small(2), use c in simp)+
  have u: "unat n = card (used s)" "unat k = 16384 - card (used s)"
    unfolding n_def k_def by (rule small(1), use c in simp)+
  have "only_logs s (print_paging_info s)"
    by (simp add: print_paging_info_def Let_def only_logs_def log_debug_def log_printf_def)
  moreover have "\<exists>l m. length l = 4 \<and> klog (print_paging_info s) = klog s @ l @
       [Printf_call (''  Used physical frames: %u/%u (%u KB)'' @ NL) [Va_int n, Va_int 16384, Va_int (4 * n)],
        Printf_call (''  Free physical frames: %u/%u (%u KB)'' @ NL) [Va_int k, Va_int 16384, Va_int (4 * k)],
        m]"
    using cnt kb k
    by (simp add: print_paging_info_def Let_def log_debug_def log_printf_def) (force simp: numeral_eq_Suc)
  ultimately show ?thesis using u by blast
qed

end
