(* ===== verification/Vga_Memory.thy ===== *)
theory Vga_Memory
  imports Debug_Dump Paging_Run
begin

text \<open>
  The two memories under the screen: physical memory at 0xB8000, and, with paging on,
  the kernel window at 0xC00B8000, where every access of the terminal goes through the page tables.
  Both satisfy what the terminal and the layers above it ask of a screen.
\<close>

section \<open>The two memories\<close>

text \<open>Nothing outside the 4000 bytes of the screen differs from \<open>m0\<close>.\<close>

definition screen_only :: "mem \<Rightarrow> mem \<Rightarrow> bool" where
  "screen_only m0 m \<longleftrightarrow> (\<forall>a. \<not> in_region 0xB8000 4000 a \<longrightarrow> m a = m0 a)"

lemma screen_only_store: "screen_only m0 m \<Longrightarrow> k < 4000 \<Longrightarrow> screen_only m0 (m(0xB8000 + k := b))"
  by (auto simp: screen_only_def)

interpretation vga_flat: screen_memory flat_ld flat_st "\<lambda>m a. m a" "\<lambda>a b m. m(a := b)" "\<lambda>_ _. True"
  "0xB8000" "screen_only m0" for m0
  by unfold_locales (auto intro: screen_only_store)

text \<open>
  With paging on: the kernel window is mapped, the screen holds none of the entries that map it, and
  nothing but the bytes of the screen has changed since \<open>p0\<close>.
\<close>

definition vga_mapped :: "paging_state \<Rightarrow> paging_state \<Rightarrow> bool" where
  "vga_mapped p0 s \<longleftrightarrow> (\<forall>k<4000. window_byte s (0xC00B8000 + k)) \<and>
     screen_only (phys_mem p0) (phys_mem s) \<and> s = p0\<lparr>phys_mem := phys_mem s\<rparr>"

lemma vga_window_byte:
  assumes "run_inv (s, held)" "0xB8000 \<in> held" "k < 4000"
  shows "window_byte s (0xC00B8000 + k)"
proof -
  have inv: "paging_inv s" and h: "(0xB8000 :: u32) \<noteq> cr3 s" "present s 768 \<Longrightarrow> 0xB8000 \<noteq> table_of s 768"
    using assms(1,2) by (auto simp: run_inv_def held_ok_def)
  have "present s 768" using inv by (simp add: paging_inv_def tables_ok_768)
  moreover have "k < 4096" using assms(3) by (simp add: word_less_nat_alt)
  ultimately have "window_byte s (P2V 0xB8000 + k)"
    using inv_window[OF inv] inv_dir[OF inv] h by (intro window_byte_page) simp_all
  then show ?thesis by (simp add: P2V_def)
qed

lemma vga_mapped_start: "run_inv (s, held) \<Longrightarrow> 0xB8000 \<in> held \<Longrightarrow> vga_mapped s s"
  by (simp add: vga_mapped_def vga_window_byte screen_only_def)

text \<open>Writing to the screen keeps the paging invariant and what clients hold.\<close>

lemma screen_page:
  assumes "vga_mapped p q" "0xB8000 \<in> held" "a AND PAGE_FRAME \<notin> held"
  shows "phys_mem q a = phys_mem p a"
proof -
  have "(0xB8000 + k) AND PAGE_FRAME = 0xB8000" if "k < 4000" for k :: u32
    using that by (intro page_offset(1)) (simp_all add: word_less_nat_alt)
  from this[of "a - 0xB8000"] have "\<not> in_region 0xB8000 4000 a"
    using assms(2,3) by (auto simp: in_region_def)
  then show ?thesis using assms(1) by (simp add: vga_mapped_def screen_only_def)
qed

lemma vga_mapped_run:
  assumes "vga_mapped p0 s" "run_inv (p0, held)" "0xB8000 \<in> held"
  shows "run_inv (s, held)"
  using memory_held[OF assms(2) screen_page[OF assms(1,3)]] assms(1) by (simp add: vga_mapped_def)

lemma vga_mapped_kept:
  assumes "vga_mapped p0 s" "run_inv (p0, {0xB8000})"
  shows "run_inv (s, {0xB8000})" "screen_only (phys_mem p0) (phys_mem s)"
  using vga_mapped_run[OF assms] assms(1) by (simp_all add: vga_mapped_def)

interpretation vga_paged: screen_memory vm_ld vm_st "\<lambda>s a. phys_mem s (V2P a)"
  "\<lambda>a b s. s\<lparr>phys_mem := (phys_mem s)(V2P a := b)\<rparr>" window_byte "0xC00B8000" "vga_mapped p0" for p0
proof
  fix m :: paging_state and k :: u32 and b :: u8
  assume m: "vga_mapped p0 m" and k: "k < 4000"
  show w: "window_byte m (0xC00B8000 + k)" using m k by (simp add: vga_mapped_def)
  have v: "V2P (0xC00B8000 + k) = 0xB8000 + k" by (simp add: V2P_def)
  show "vga_mapped p0 (m\<lparr>phys_mem := (phys_mem m)(V2P (0xC00B8000 + k) := b)\<rparr>)"
    using m k screen_only_store[of "phys_mem p0" "phys_mem m" k b] kvm.ok_wr[OF w, of b]
    by (cases m; cases p0) (auto simp: vga_mapped_def v)
qed simp

lemma booted_vga: "run_inv (booted, {0xB8000})"
proof -
  have "table_of booted j \<noteq> 0xB8000" if "j < 1024" "present booted j" for j
    using booted_tables(1)[OF that(1)] booted_tables(2-4) that(2) by auto
  then show ?thesis using booted(2-4) by (auto simp: run_inv_def held_ok_def frame_no_def)
qed

end
