(* ===== verification/Tty_Props.thy ===== *)
theory Tty_Props
  imports Vga_Memory
begin

text \<open>
  The properties of the terminal, on the two memories it runs on.
\<close>

section \<open>Properties\<close>

text \<open>
  C13. The terminal on paged memory: with the screen's page apart from the page tables and the
  cursor on the screen, \<^verbatim>\<open>terminal_write\<close> does not fault; what is on the screen, the cursor and the
  serial line afterwards are what writing the characters one by one to a grid of 25 rows of 80
  columns gives, with scrolling, tabs, carriage returns and, on the line, a carriage return before
  each line feed. No byte of physical memory outside the screen changes, and the paging invariant
  holds as before.
\<close>

theorem terminal_write_paged:
  assumes "run_inv (vram s, {0xB8000})" and "terminal_buffer s = 0xC00B8000"
    and "terminal_row s < 25" and "terminal_column s < 80" and "serial_ok dev u s"
    and "unat sz \<le> length data"
  shows "\<exists>t. terminal_write vm_ld vm_st dev data sz s = Inr t \<and>
    term_view_of (\<lambda>s a. phys_mem s (V2P a)) u t =
      fold (view_putchar (terminal_serial_output s) (terminal_color s)) (take (unat sz) data)
        (term_view_of (\<lambda>s a. phys_mem s (V2P a)) u s) \<and>
    terminal_row t < 25 \<and> terminal_column t < 80 \<and>
    screen_only (phys_mem (vram s)) (phys_mem (vram t)) \<and> run_inv (vram t, {0xB8000})"
proof -
  have "vga_paged.term_ok (vram s) s"
    using assms(1-4) vga_mapped_start[OF assms(1)] by (simp add: vga_paged.term_ok_def)
  from vga_paged.write_refines[OF this assms(5,6)] show ?thesis
    using vga_mapped_kept[OF _ assms(1)] by (auto simp: vga_paged.term_ok_def)
qed

text \<open>A terminal on the booted system.\<close>

definition sample_term :: "paging_state tty_state" where
  "sample_term = \<lparr>io = [], terminal_row = 24, terminal_column = 79, terminal_color = 7,
     terminal_buffer = 0xC00B8000, terminal_serial_output = False, vram = booted\<rparr>"

theorem terminal_write_paged_witness:
  "\<exists>t. terminal_write vm_ld vm_st ideal_chip ''A'' 1 sample_term = Inr t \<and>
     terminal_row t < 25 \<and> terminal_column t < 80 \<and> run_inv (vram t, {0xB8000})"
proof -
  have "run_inv (vram sample_term, {0xB8000})" "terminal_buffer sample_term = 0xC00B8000"
    "terminal_row sample_term < 25" "terminal_column sample_term < 80"
    "serial_ok ideal_chip u sample_term" "unat (1 :: u32) \<le> length ''A''" for u
    by (simp_all add: sample_term_def booted_vga serial_ok_def)
  from terminal_write_paged[OF this] show ?thesis by blast
qed

lemma hex_samples:
  "hex_address 0xC00B8000 = Inr (''0xC00B8000'' @ replicate 10 (CHR 0x00))"
  "hex_address 0xB8000 = Inr (''0x000B8000'' @ replicate 10 (CHR 0x00))"
  by code_simp+

lemma literal_prefix: "CHR 0x00 \<notin> set xs \<Longrightarrow> i < length xs \<Longrightarrow> (xs @ ys) ! i \<noteq> CHR 0x00"
  by (auto simp: nth_append dest: nth_mem)

text \<open>
  C31. \<^verbatim>\<open>terminal_initialize\<close> picks the buffer by the paging bit of CR0 and, on the booted system or on
  physical memory, does not fault: it leaves a blank grey screen on which its three lines of report
  have been written from the top left corner, and touches no other memory.
\<close>

theorem terminal_initialize_correct:
  assumes "run_inv (vram s, {0xB8000})" and "serial_ok dev u s" and "serial_ok dev u s'"
    and "r AND 0x80000000 \<noteq> 0" and "r' AND 0x80000000 = 0"
  shows "(\<exists>t. terminal_initialize vm_ld vm_st dev r s = Inr t \<and> terminal_buffer t = 0xC00B8000 \<and>
      term_view_of (\<lambda>s a. phys_mem s (V2P a)) u t =
        fold (view_putchar (terminal_serial_output s) 7) (banner r ''0xC00B8000'')
          \<lparr>grid = replicate 2000 0x0720, vrow = 0, vcol = 0, wire = line (uart_after COM1_PORT u s)\<rparr> \<and>
      screen_only (phys_mem (vram s)) (phys_mem (vram t))) \<and>
    (\<exists>t'. terminal_initialize flat_ld flat_st dev r' s' = Inr t' \<and> terminal_buffer t' = 0xB8000 \<and>
      term_view_of (\<lambda>m a. m a) u t' =
        fold (view_putchar (terminal_serial_output s') 7) (banner r' ''0x000B8000'')
          \<lparr>grid = replicate 2000 0x0720, vrow = 0, vcol = 0, wire = line (uart_after COM1_PORT u s')\<rparr> \<and>
      screen_only (vram s') (vram t'))"
proof
  have blank: "vga_entry 0x20 7 = 0x0720" by (simp add: vga_entry_def)
  have nz: "(''0xC00B8000'' @ replicate 10 (CHR 0x00)) ! i \<noteq> CHR 0x00"
    "(''0x000B8000'' @ replicate 10 (CHR 0x00)) ! i \<noteq> CHR 0x00" if "i < 10" for i
    using that by (intro literal_prefix; simp)+
  show "\<exists>t. terminal_initialize vm_ld vm_st dev r s = Inr t \<and> terminal_buffer t = 0xC00B8000 \<and>
      term_view_of (\<lambda>s a. phys_mem s (V2P a)) u t =
        fold (view_putchar (terminal_serial_output s) 7) (banner r ''0xC00B8000'')
          \<lparr>grid = replicate 2000 0x0720, vrow = 0, vcol = 0, wire = line (uart_after COM1_PORT u s)\<rparr> \<and>
      screen_only (phys_mem (vram s)) (phys_mem (vram t))"
    using vga_paged.initialize_refines[of "vram s" s r dev u, OF _ _ assms(2) hex_samples(1) _ nz(1)]
      vga_mapped_start[OF assms(1)] vga_mapped_kept(2)[OF _ assms(1)] assms(4)
    by (auto simp: get_vga_buffer_def vga_is_paging_enabled_def blank
        vga_paged.wrote_def vga_paged.term_ok_def term_view_of_def)
  show "\<exists>t'. terminal_initialize flat_ld flat_st dev r' s' = Inr t' \<and> terminal_buffer t' = 0xB8000 \<and>
      term_view_of (\<lambda>m a. m a) u t' =
        fold (view_putchar (terminal_serial_output s') 7) (banner r' ''0x000B8000'')
          \<lparr>grid = replicate 2000 0x0720, vrow = 0, vcol = 0, wire = line (uart_after COM1_PORT u s')\<rparr> \<and>
      screen_only (vram s') (vram t')"
    using vga_flat.initialize_refines[of "vram s'" s' r' dev u, OF _ _ assms(3) hex_samples(2) _ nz(2)]
      assms(5)
    by (auto simp: screen_only_def get_vga_buffer_def vga_is_paging_enabled_def blank
        vga_flat.wrote_def vga_flat.term_ok_def term_view_of_def)
qed

definition sample_flat :: "mem tty_state" where
  "sample_flat = \<lparr>io = [], terminal_row = 0, terminal_column = 0, terminal_color = 0,
     terminal_buffer = 0, terminal_serial_output = False, vram = (\<lambda>_. 0)\<rparr>"

theorem terminal_initialize_correct_witness:
  "\<exists>t t'. terminal_initialize vm_ld vm_st ideal_chip 0x80000011 sample_term = Inr t \<and>
     terminal_buffer t = 0xC00B8000 \<and>
     terminal_initialize flat_ld flat_st ideal_chip 0x11 sample_flat = Inr t' \<and> terminal_buffer t' = 0xB8000"
proof -
  have "run_inv (vram sample_term, {0xB8000})" "serial_ok ideal_chip u sample_term"
    "serial_ok ideal_chip u sample_flat" "(0x80000011 :: u32) AND 0x80000000 \<noteq> 0"
    "(0x11 :: u32) AND 0x80000000 = 0" for u
    by (simp_all add: sample_term_def sample_flat_def booted_vga serial_ok_def)
  from terminal_initialize_correct[OF this] show ?thesis by blast
qed

end
