(* ===== verification/Stdio_Props.thy ===== *)
theory Stdio_Props
  imports Tty_Props
begin

text \<open>
  Formatted output on the paged screen, and the number conversions it is made of.
\<close>

section \<open>Reading signed numbers back\<close>

definition read_int :: "string \<Rightarrow> int" where
  "read_int str = (if str \<noteq> [] \<and> hd str = CHR ''-'' then - int (read_number digit_value 10 (tl str))
                   else int (read_number digit_value 10 str))"

lemma digit_not_minus: "d < 10 \<Longrightarrow> digit_upper d \<noteq> CHR ''-''"
proof
  assume d: "d < 10" "digit_upper d = CHR ''-''"
  have "(of_char (digit_upper d) :: nat) = 48 + d" using d(1) by (simp add: digit_upper_def)
  moreover have "of_char (CHR ''-'') = (45 :: nat)" by simp
  ultimately show False using d(2) by simp
qed

lemma read_int_string: "read_int (int_string n) = n"
proof (cases "n < 0")
  case True
  then show ?thesis by (simp add: read_int_def int_string_def decimal.read_string)
next
  case False
  let ?s = "number_string digit_upper 10 (nat n)"
  have "set ?s \<subseteq> digit_upper ` {..<10}" using rdigits_less[of 10 _ "nat n"]
    by (auto simp: number_string_def simp flip: digit_upper_0)
  then have "c \<noteq> CHR ''-''" if "c \<in> set ?s" for c
    using that digit_not_minus by (metis imageE lessThan_iff subset_iff)
  then have "\<not> (?s \<noteq> [] \<and> hd ?s = CHR ''-'')" using list.set_sel(1) by blast
  with False show ?thesis by (auto simp: read_int_def int_string_def decimal.read_string)
qed

section \<open>Properties\<close>

text \<open>A console on the booted system, with the serial flags of libc off.\<close>

definition sample_console :: "paging_state stdio_state" where
  "sample_console = \<lparr>io = [], terminal_row = 0, terminal_column = 0, terminal_color = 7,
     terminal_buffer = 0xC00B8000, terminal_serial_output = False, vram = booted,
     putchar_serial_output = False, serial_output_enabled = False\<rparr>"

lemma digit_samples: "digit_upper (Suc 0) = CHR ''1''" "digit_upper 15 = CHR ''F''"
  by code_simp+

text \<open>
  C14. \<^verbatim>\<open>printf\<close> with the screen mapped: if the format and its arguments denote a string (every
  conversion finds an argument of its kind, none of them the least integer under \<^verbatim>\<open>%d\<close>) of at most
  \<^verbatim>\<open>INT_MAX\<close> characters, it returns the length of that string, and screen, cursor and serial line
  are as after emitting the string one character at a time. The serial line gets every character
  once when the terminal mirrors, otherwise once for each of the two flags of libc that is set. No
  memory outside the screen changes.
\<close>

theorem printf_renders:
  assumes "run_inv (vram s, {0xB8000})" and "terminal_buffer s = 0xC00B8000"
    and "terminal_row s < 25" and "terminal_column s < 80" and "console_ok dev u s"
    and "render (cstr format) args = Some out" and "int (length out) \<le> INT_MAX"
  shows "\<exists>t. printf vm_ld vm_st dev format args s = Inr (int (length out), t) \<and>
    term_view_of (\<lambda>s a. phys_mem s (V2P a)) u t =
      fold (view_emit (terminal_serial_output s) (putchar_serial_output s) (serial_output_enabled s)
        (terminal_color s)) out (term_view_of (\<lambda>s a. phys_mem s (V2P a)) u s) \<and>
    screen_only (phys_mem (vram s)) (phys_mem (vram t)) \<and> run_inv (vram t, {0xB8000})"
proof -
  have "vga_paged.term_ok (vram s) s"
    using assms(1-4) vga_mapped_start[OF assms(1)] by (simp add: vga_paged.term_ok_def)
  from vga_paged.printf_loop_emits[OF this assms(5,6), of 0] assms(7) show ?thesis
    using vga_mapped_kept[OF _ assms(1)] by (auto simp: printf_def vga_paged.emit_ok_def vga_paged.term_ok_def)
qed

theorem printf_renders_witness:
  "\<exists>t. printf vm_ld vm_st ideal_chip ''%s=%x%%'' [Va_str (Some ''ax''), Va_int 31] sample_console =
     Inr (8, t) \<and> run_inv (vram t, {0xB8000})"
proof -
  have r: "render (cstr ''%s=%x%%'') [Va_str (Some ''ax''), Va_int 31] = Some ''ax=0x1F%''"
    by (simp add: cstr_def conversion_def number_string_def rdigits_step digit_samples)
  have "run_inv (vram sample_console, {0xB8000})" "terminal_buffer sample_console = 0xC00B8000"
    "terminal_row sample_console < 25" "terminal_column sample_console < 80"
    "console_ok ideal_chip u sample_console" for u
    by (simp_all add: sample_console_def booted_vga console_ok_def)
  from printf_renders[OF this r] show ?thesis by auto
qed

text \<open>
  C27. \<^verbatim>\<open>utoa\<close> in base 10 or 16 and \<^verbatim>\<open>itoa\<close> in base 10, on the 32-byte array of \<^verbatim>\<open>printf\<close>, stay inside the
  array, leave a terminated string behind and return its length, and reading that string back gives
  the number.
\<close>

theorem number_roundtrip:
  assumes "length str = 32" and "- (2 ^ 31) < n" and "n < 2 ^ 31"
  shows "(\<exists>l r. utoa str v 10 = Inr (l, r) \<and> l \<le> 10 \<and> r ! l = CHR 0x00 \<and>
      read_number digit_value 10 (take l r) = unat v) \<and>
    (\<exists>l r. utoa str v 16 = Inr (l, r) \<and> l \<le> 8 \<and> r ! l = CHR 0x00 \<and>
      read_number digit_value 16 (take l r) = unat v) \<and>
    (\<exists>l r. itoa str n 10 = Inr (l, r) \<and> l \<le> 11 \<and> r ! l = CHR 0x00 \<and> read_int (take l r) = n)"
proof (intro conjI)
  show "\<exists>l r. utoa str v 10 = Inr (l, r) \<and> l \<le> 10 \<and> r ! l = CHR 0x00 \<and>
      read_number digit_value 10 (take l r) = unat v"
    using utoa_ok[of 10 v str] decimal_u32[of v] assms(1) by (auto simp: converted_def decimal.read_string)
  show "\<exists>l r. utoa str v 16 = Inr (l, r) \<and> l \<le> 8 \<and> r ! l = CHR 0x00 \<and>
      read_number digit_value 16 (take l r) = unat v"
    using utoa_ok[of 16 v str] hex_u32[of v] assms(1) by (auto simp: converted_def hex_upper.read_string)
  show "\<exists>l r. itoa str n 10 = Inr (l, r) \<and> l \<le> 11 \<and> r ! l = CHR 0x00 \<and> read_int (take l r) = n"
    using itoa_ok[of n str] int_string_length[of n] assms read_int_string[of n] by (auto simp: converted_def)
qed

theorem number_roundtrip_witness:
  "\<exists>l r. itoa (replicate 32 (CHR 0x00)) (- 2147483647) 10 = Inr (l, r) \<and> l \<le> 11 \<and>
     read_int (take l r) = - 2147483647"
  using number_roundtrip[of "replicate 32 (CHR 0x00)" "- 2147483647" 0] by auto

text \<open>
  The least integer has no absolute value: \<^verbatim>\<open>itoa\<close> on it is a signed overflow, and so is \<^verbatim>\<open>printf\<close> of
  it under \<^verbatim>\<open>%d\<close>, whatever the state of the console.
\<close>

theorem printf_int_min:
  "itoa str (- (2 ^ 31)) 10 = Inl Signed_overflow \<and>
   printf ld st dev ''%d'' [Va_int 0x80000000] s = Inl Signed_overflow"
  by (simp add: itoa_def printf_def cstr_def conversion_def)

end
