(* ===== verification/Debug_Props.thy ===== *)
theory Debug_Props
  imports Tty_Props
begin

text \<open>
  The properties of the debug log: its formatter on any buffer, its lines and its hex dump on the
  paged screen.
\<close>

lemma write_at_frame:
  assumes "length xs \<le> n" "off + n \<le> length str"
  shows "length (write_at off xs str) = length str" "take off (write_at off xs str) = take off str"
    "drop (off + n) (write_at off xs str) = drop (off + n) str"
    "i < length xs \<Longrightarrow> write_at off xs str ! (off + i) = xs ! i"
    "i \<le> length xs \<Longrightarrow> take i (drop off (write_at off xs str)) = take i xs"
proof -
  have "drop (n - length xs) (drop (off + length xs) str) = drop (off + n) str"
    using assms(1) by (simp add: add.commute)
  then show "drop (off + n) (write_at off xs str) = drop (off + n) str"
    using assms by (simp add: write_at_def)
qed (use assms in \<open>auto simp: write_at_def nth_append\<close>)

section \<open>Properties\<close>

text \<open>
  C15. \<^verbatim>\<open>vsnprintf\<close> of the debug log never writes outside the bytes it was given: on a buffer of
  \<open>sz\<close> bytes inside an array, with arguments of the kinds the format asks for, it returns a length
  below \<open>sz\<close>, puts a terminator at that length and leaves the array before and behind the buffer as
  it was. The text before the terminator is the text the format denotes if that fits, and otherwise
  as much of it as there is room for. A size of 0 writes nothing, a size of 1 only the terminator.
\<close>

theorem vsnprintf_bounded:
  assumes "off + sz \<le> length str" and "sz \<le> 2 ^ 31" and "vpieces (cstr format) args = Some ps"
  shows "\<exists>n r. vsnprintf str off sz format args = Inr (int n, r) \<and> length r = length str \<and>
    take off r = take off str \<and> drop (off + sz) r = drop (off + sz) str \<and>
    (if sz = 0 then n = 0 \<and> r = str
     else n < sz \<and> r ! (off + n) = CHR 0x00 \<and> take n (drop off r) = fit (sz - 1) ps \<and>
       (if length (concat (map piece_text ps)) < sz then take n (drop off r) = concat (map piece_text ps) else True))"
proof -
  consider "sz = 0" | "sz = 1" | "2 \<le> sz" by linarith
  then show ?thesis
  proof cases
    case 1
    then show ?thesis by (simp add: vsnprintf_def)
  next
    case 2
    then show ?thesis using assms(1) by (auto simp: vsnprintf_def put_def)
  next
    case 3
    let ?out = "fit (sz - 1) ps"
    have l: "length ?out \<le> sz - 1" by (rule fit_length)
    have full: "length (concat (map piece_text ps)) < sz \<Longrightarrow> ?out = concat (map piece_text ps)"
      by (intro fit_all) simp
    have "length (?out @ [CHR 0x00]) \<le> sz" using l 3 by simp
    note frame = write_at_frame[OF this assms(1)]
    show ?thesis
      using 3 l full vsnprintf_ok[OF 3 assms] frame(1-3) frame(4)[of "length ?out"] frame(5)[of "length ?out"]
      by (intro exI[of _ "length ?out"] exI[of _ "write_at off (?out @ [CHR 0x00]) str"]) auto
  qed
qed

theorem vsnprintf_bounded_witness:
  "\<exists>n r. vsnprintf ''........'' 2 4 ''%u!'' [Va_int 12] = Inr (int n, r) \<and> n < 4 \<and> r ! (2 + n) = CHR 0x00 \<and>
     length r = 8"
proof -
  have "vpieces (cstr ''%u!'') [Va_int 12] = Some [Text (number_string digit_upper 10 12), Text ''!'']"
    by (simp add: cstr_def)
  from vsnprintf_bounded[OF _ _ this, of 2 4 "''........''"] show ?thesis by auto
qed

text \<open>A debug log on the booted system, with the screen as its only target.\<close>

definition sample_log :: "paging_state debug_state" where
  "sample_log = \<lparr>io = [], terminal_row = 24, terminal_column = 0, terminal_color = 7,
     terminal_buffer = 0xC00B8000, terminal_serial_output = False, vram = booted,
     putchar_serial_output = False, serial_output_enabled = False, debug_level = 3, debug_target = 1,
     debug_initialized = True, debug_buffer = replicate 1024 (CHR 0x00)\<rparr>"

text \<open>
  C16. A call of the debug log at a level above the current one does nothing. Any other, with
  arguments of the kinds the format asks for and the screen mapped, does not fault: prefix and
  message, cut so that the line with its carriage return and line feed fits the 1024 bytes of the
  buffer, go to the screen if the target has the VGA bit, and to the serial port if it has the
  serial bit and the terminal does not mirror. No memory outside the screen changes.
\<close>

theorem debug_line_correct:
  assumes "run_inv (vram s, {0xB8000})" and "terminal_buffer s = 0xC00B8000"
    and "terminal_row s < 25" and "terminal_column s < 80" and "log_ready dev u s"
    and "vpieces (cstr format) args = Some ps"
  shows "\<exists>t. debug_format_and_write vm_ld vm_st dev level format args s = Inr t \<and>
    term_view_of (\<lambda>s a. phys_mem s (V2P a)) u t =
      (if level > debug_level s then id
       else view_log (debug_target s) (terminal_serial_output s) (terminal_color s) (log_text level ps))
        (term_view_of (\<lambda>s a. phys_mem s (V2P a)) u s) \<and>
    length (log_text level ps) \<le> 1023 \<and> log_ready dev u t \<and>
    screen_only (phys_mem (vram s)) (phys_mem (vram t)) \<and> run_inv (vram t, {0xB8000})"
proof -
  have ok: "vga_paged.term_ok (vram s) s"
    using assms(1-4) vga_mapped_start[OF assms(1)] by (simp add: vga_paged.term_ok_def)
  have len: "length (log_text level ps) \<le> 1023"
  proof -
    have "length (log_text level ps) \<le> length (log_prefix level @ fit (1021 - length (log_prefix level)) ps @ [CHR 0x0D, CHR 0x0A])"
      by (simp only: log_text_def cstr_def length_takeWhile_le)
    then show ?thesis using log_prefix_length[of level] fit_length[of "1021 - length (log_prefix level)" ps] by simp
  qed
  show ?thesis
  proof (cases "level > debug_level s")
    case True
    then show ?thesis using ok len assms(1,5) by (simp add: debug_format_and_write_def screen_only_def)
  next
    case False
    then have "level \<le> debug_level s" by simp
    from vga_paged.debug_line_logs[OF ok assms(5,6) this] False len show ?thesis
      using vga_mapped_kept[OF _ assms(1)] by (auto simp: vga_paged.log_ok_def vga_paged.term_ok_def)
  qed
qed

theorem debug_line_correct_witness:
  "\<exists>t. debug_format_and_write vm_ld vm_st ideal_chip 3 ''page %u'' [Va_int 12] sample_log = Inr t \<and>
     run_inv (vram t, {0xB8000})"
proof -
  have "vpieces (cstr ''page %u'') [Va_int 12] =
      Some (map (\<lambda>c. Text [c]) ''page '' @ [Text (number_string digit_upper 10 12)])"
    by (simp add: cstr_def)
  moreover have "run_inv (vram sample_log, {0xB8000})" "terminal_buffer sample_log = 0xC00B8000"
    "terminal_row sample_log < 25" "terminal_column sample_log < 80" "log_ready ideal_chip u sample_log" for u
    by (simp_all add: sample_log_def booted_vga log_ready_def)
  ultimately show ?thesis using debug_line_correct[of sample_log ideal_chip] by blast
qed

text \<open>
  C38. A hex dump of memory in the kernel window and off the screen returns, without a fault, after
  one line for each 16 bytes. The formatter knows no field widths, so in every line the columns of
  the address and of the bytes are the literal text of their formats, \<^verbatim>\<open>%08x: \<close> and \<^verbatim>\<open>%02x \<close>; only the
  column of printable characters shows what is in memory.
\<close>

theorem debug_hex_dump_lines:
  assumes "run_inv (vram s, {0xB8000})" and "terminal_buffer s = 0xC00B8000"
    and "terminal_row s < 25" and "terminal_column s < 80" and "log_ready dev u s"
    and "unat sz + 16 \<le> 2 ^ 32"
    and "\<And>k. k < sz \<Longrightarrow> V2P (data + k) < 0x400000 \<and> \<not> in_region 0xB8000 4000 (V2P (data + k))"
  shows "\<exists>t. debug_hex_dump vm_ld vm_st dev data sz s = Inr t \<and>
    term_view_of (\<lambda>s a. phys_mem s (V2P a)) u t =
      dump_view (\<lambda>k. phys_mem (vram s) (V2P (data + k))) sz s [0..<(unat sz + 15) div 16]
        (term_view_of (\<lambda>s a. phys_mem s (V2P a)) u s) \<and>
    screen_only (phys_mem (vram s)) (phys_mem (vram t)) \<and> run_inv (vram t, {0xB8000})"
proof -
  have ok: "vga_paged.term_ok (vram s) s"
    using assms(1-4) vga_mapped_start[OF assms(1)] by (simp add: vga_paged.term_ok_def)
  have "vm_ld (data + k) m = Inr (phys_mem (vram s) (V2P (data + k)))"
    if "vga_mapped (vram s) m" "k < sz" for m k
    using that(1) assms(7)[OF that(2)] inv_window[of m]
      vga_mapped_kept[OF that(1) assms(1)]
    by (simp add: run_inv_def screen_only_def vm_ld_window)
  from vga_paged.dump_loop_logs[OF assms(6) this ok assms(5) le0 refl] show ?thesis
    using vga_mapped_kept[OF _ assms(1)]
    by (auto simp: debug_hex_dump_def vga_paged.log_ok_def vga_paged.term_ok_def)
qed

theorem debug_hex_dump_lines_witness:
  "\<exists>t. debug_hex_dump vm_ld vm_st ideal_chip 0xC0105000 128 sample_log = Inr t \<and> run_inv (vram t, {0xB8000})"
proof -
  have "V2P (0xC0105000 + k) < 0x400000 \<and> \<not> in_region 0xB8000 4000 (V2P (0xC0105000 + k))" if "k < 128" for k
  proof -
    have "V2P (0xC0105000 + k) = 0x105000 + k" by (simp add: V2P_def)
    moreover have "unat (0x105000 + k) = 0x105000 + unat k" "unat (0x4D000 + k) = 0x4D000 + unat k" "unat k < 128"
      using that by (simp_all add: word_less_nat_alt unat_plus_if')
    ultimately show ?thesis
      by (simp add: in_region_def word_less_nat_alt unat_sub_if')
  qed
  moreover have "run_inv (vram sample_log, {0xB8000})" "terminal_buffer sample_log = 0xC00B8000"
    "terminal_row sample_log < 25" "terminal_column sample_log < 80" "log_ready ideal_chip u sample_log"
    "unat (128 :: u32) + 16 \<le> 2 ^ 32" for u
    by (simp_all add: sample_log_def booted_vga log_ready_def)
  ultimately show ?thesis using debug_hex_dump_lines[of sample_log ideal_chip _ 128 "0xC0105000"] by blast
qed

end
