(* ===== verification/Panic.thy ===== *)
theory Panic
  imports Debug
begin

text \<open>
  The panic handlers of \<^verbatim>\<open>src/kernel/kernel/panic.c\<close>. They do not return: the state they end in is
  the one in which the processor halts for good. What the inline assembly reads from the registers
  is an argument.
\<close>

record cpu_regs =
  eax :: u32
  ebx :: u32
  ecx :: u32
  edx :: u32
  esi :: u32
  edi :: u32
  ebp :: u32
  esp :: u32
  eip :: u32
  eflags :: u32
  reg_cr0 :: u32
  reg_cr2 :: u32
  reg_cr3 :: u32
  reg_cr4 :: u32

record 'm machine_state = "'m debug_state" +
  interrupt_flag :: bool
  halted :: bool

definition dump_registers ::
  "(u32 \<Rightarrow> 'm \<Rightarrow> u8 res) \<Rightarrow> (u32 \<Rightarrow> u8 \<Rightarrow> 'm \<Rightarrow> 'm res) \<Rightarrow> device \<Rightarrow> cpu_regs \<Rightarrow>
     ('m, 'a) debug_state_scheme \<Rightarrow> ('m, 'a) debug_state_scheme res" where
  "dump_registers ld st dev r s =
     bindE (debug_error ld st dev ''Register dump:'' [] s) (\<lambda>s.
     bindE (debug_error ld st dev ''EAX: %x    EBX: %x    ECX: %x    EDX: %x''
       [Va_int (eax r), Va_int (ebx r), Va_int (ecx r), Va_int (edx r)] s) (\<lambda>s.
     bindE (debug_error ld st dev ''ESI: %x    EDI: %x    EBP: %x    ESP: %x''
       [Va_int (esi r), Va_int (edi r), Va_int (ebp r), Va_int (esp r)] s) (\<lambda>s.
     bindE (debug_error ld st dev ''EIP: %x    EFLAGS: %x'' [Va_int (eip r), Va_int (eflags r)] s) (\<lambda>s.
     debug_error ld st dev ''CR0: %x    CR2: %x    CR3: %x    CR4: %x''
       [Va_int (reg_cr0 r), Va_int (reg_cr2 r), Va_int (reg_cr3 r), Va_int (reg_cr4 r)] s))))"

text \<open>\<^verbatim>\<open>cli\<close>, the report on all targets, then \<^verbatim>\<open>hlt\<close> forever.\<close>

definition panic ::
  "(u32 \<Rightarrow> 'm \<Rightarrow> u8 res) \<Rightarrow> (u32 \<Rightarrow> u8 \<Rightarrow> 'm \<Rightarrow> 'm res) \<Rightarrow> device \<Rightarrow> cpu_regs \<Rightarrow> string \<Rightarrow>
     ('m, 'a) machine_state_scheme \<Rightarrow> ('m, 'a) machine_state_scheme res" where
  "panic ld st dev r message s =
     (let s = s\<lparr>interrupt_flag := False\<rparr>;
          s = debug_set_target DEBUG_TARGET_ALL s
      in bindE (debug_error ld st dev ''************************************************************'' [] s) (\<lambda>s.
         bindE (debug_error ld st dev ''*                      KERNEL PANIC                        *'' [] s) (\<lambda>s.
         bindE (debug_error ld st dev ''************************************************************'' [] s) (\<lambda>s.
         bindE (debug_error ld st dev ''PANIC: %s'' [Va_str (Some message)] s) (\<lambda>s.
         bindE (dump_registers ld st dev r s) (\<lambda>s.
         bindE (debug_error ld st dev ''System halted.'' [] s) (\<lambda>s.
         Inr (s\<lparr>halted := True\<rparr>))))))))"

definition panicf ::
  "(u32 \<Rightarrow> 'm \<Rightarrow> u8 res) \<Rightarrow> (u32 \<Rightarrow> u8 \<Rightarrow> 'm \<Rightarrow> 'm res) \<Rightarrow> device \<Rightarrow> cpu_regs \<Rightarrow> string \<Rightarrow> va_arg list \<Rightarrow>
     ('m, 'a) machine_state_scheme \<Rightarrow> ('m, 'a) machine_state_scheme res" where
  "panicf ld st dev r format args s =
     bindE (vsnprintf (replicate 256 (CHR 0x00)) 0 256 format args) (\<lambda>(_, buffer).
     panic ld st dev r buffer s)"

definition exception_names :: "string list" where
  "exception_names =
     [''Divide Error'', ''Debug Exception'', ''NMI Interrupt'', ''Breakpoint'', ''Overflow'',
      ''BOUND Range Exceeded'', ''Invalid Opcode'', ''Device Not Available'', ''Double Fault'',
      ''Coprocessor Segment Overrun'', ''Invalid TSS'', ''Segment Not Present'', ''Stack-Segment Fault'',
      ''General Protection'', ''Page Fault'', ''Reserved'', ''x87 FPU Floating-Point Error'',
      ''Alignment Check'', ''Machine Check'', ''SIMD Floating-Point Exception'', ''Virtualization Exception'',
      ''Control Protection Exception'',
      ''Reserved'', ''Reserved'', ''Reserved'', ''Reserved'', ''Reserved'',
      ''Reserved'', ''Reserved'', ''Reserved'', ''Reserved'', ''Reserved'']"

definition exception_handler ::
  "(u32 \<Rightarrow> 'm \<Rightarrow> u8 res) \<Rightarrow> (u32 \<Rightarrow> u8 \<Rightarrow> 'm \<Rightarrow> 'm res) \<Rightarrow> device \<Rightarrow> cpu_regs \<Rightarrow> u32 \<Rightarrow> u32 \<Rightarrow>
     ('m, 'a) machine_state_scheme \<Rightarrow> ('m, 'a) machine_state_scheme res" where
  "exception_handler ld st dev r exception_number error_code s =
     (if unat exception_number < length exception_names
      then panicf ld st dev r ''Exception %d (%s), Error Code: %x''
             [Va_int exception_number, Va_str (Some (exception_names ! unat exception_number)), Va_int error_code] s
      else panicf ld st dev r ''Unknown Exception %d, Error Code: %x''
             [Va_int exception_number, Va_int error_code] s)"

text \<open>
  \<^verbatim>\<open>abort\<close> as it is built into the kernel (\<^verbatim>\<open>__is_libk\<close> is not defined): a message and an endless
  loop with interrupts as they are. \<^verbatim>\<open>__stack_chk_fail\<close> is built without \<^verbatim>\<open>__is_redos_kernel\<close> and for a
  freestanding target, so that it only loops.
\<close>

definition abort ::
  "(u32 \<Rightarrow> 'm \<Rightarrow> u8 res) \<Rightarrow> (u32 \<Rightarrow> u8 \<Rightarrow> 'm \<Rightarrow> 'm res) \<Rightarrow> device \<Rightarrow>
     ('m, 'a) machine_state_scheme \<Rightarrow> ('m, 'a) machine_state_scheme res" where
  "abort ld st dev s =
     bindE (printf ld st dev (''abort()'' @ NL) [] s) (\<lambda>(_, s). Inr (s\<lparr>halted := True\<rparr>))"

definition stack_chk_fail :: "('m, 'a) machine_state_scheme \<Rightarrow> ('m, 'a) machine_state_scheme res" where
  "stack_chk_fail s = Inr (s\<lparr>halted := True\<rparr>)"

lemma machine_fields:
  assumes "debug_state.more t = debug_state.more s"
  shows "interrupt_flag t = interrupt_flag s" "halted t = halted s" "machine_state.more t = machine_state.more s"
  using assms by (cases s; cases t; simp)+

end
