(* ===== verification/Kernel_Paging.thy ===== *)
theory Kernel_Paging
  imports Panic Paging
begin

text \<open>
  The operations of \<^verbatim>\<open>src/kernel/kernel/paging.c\<close> that the kernel calls, on the state of the whole
  kernel: each output call is made where the code makes it, through the page tables as they are at
  that point. \<open>Paging\<close> has the same operations on the paging system alone, where an output call is
  only recorded.
\<close>

type_synonym 'a kernel_state_scheme = "(paging_state, 'a) machine_state_scheme"

definition say :: "device \<Rightarrow> string \<Rightarrow> va_arg list \<Rightarrow> 'a kernel_state_scheme \<Rightarrow> 'a kernel_state_scheme res" where
  "say dev format args s = bindE (printf vm_ld vm_st dev format args s) (\<lambda>(_, s). Inr s)"

section \<open>Frames\<close>

definition set_frame_io :: "device \<Rightarrow> u32 \<Rightarrow> 'a kernel_state_scheme \<Rightarrow> 'a kernel_state_scheme res" where
  "set_frame_io dev frame_addr s =
     (let frame = frame_addr div PAGE_SIZE;
          idx = frame div 32;
          off = frame mod 32
      in if idx \<ge> BITMAP_SIZE
         then debug_error vm_ld vm_st dev ''set_frame: Frame index %u out of bounds (max %u)''
                [Va_int idx, Va_int (BITMAP_SIZE - 1)] s
         else Inr (s\<lparr>vram := (vram s)\<lparr>frame_bitmap := (frame_bitmap (vram s))
                 [unat idx := frame_bitmap (vram s) ! unat idx OR push_bit (unat off) 1]\<rparr>\<rparr>))"

definition clear_frame_io :: "device \<Rightarrow> u32 \<Rightarrow> 'a kernel_state_scheme \<Rightarrow> 'a kernel_state_scheme res" where
  "clear_frame_io dev frame_addr s =
     (let frame = frame_addr div PAGE_SIZE;
          idx = frame div 32;
          off = frame mod 32
      in if idx \<ge> BITMAP_SIZE
         then debug_error vm_ld vm_st dev ''clear_frame: Frame index %u out of bounds (max %u)''
                [Va_int idx, Va_int (BITMAP_SIZE - 1)] s
         else Inr (s\<lparr>vram := (vram s)\<lparr>frame_bitmap := (frame_bitmap (vram s))
                 [unat idx := frame_bitmap (vram s) ! unat idx AND NOT (push_bit (unat off) 1)]\<rparr>\<rparr>))"

definition first_free_frame_io :: "device \<Rightarrow> 'a kernel_state_scheme \<Rightarrow> (u32 \<times> 'a kernel_state_scheme) res" where
  "first_free_frame_io dev s =
     (case find_range 0 BITMAP_SIZE (free_in_word (frame_bitmap (vram s))) of
        Some frame \<Rightarrow> Inr (frame, s)
      | None \<Rightarrow> bindE (debug_error vm_ld vm_st dev ''No free frames available!'' [] s) (\<lambda>s. Inr (- 1, s)))"

definition alloc_frame_io :: "device \<Rightarrow> 'a kernel_state_scheme \<Rightarrow> (u32 \<times> 'a kernel_state_scheme) res" where
  "alloc_frame_io dev s =
     bindE (first_free_frame_io dev s) (\<lambda>(frame, s).
     if frame = - 1 then Inr (0, s)
     else let frame_addr = frame * PAGE_SIZE
          in bindE (debug_debug vm_ld vm_st dev ''Allocated frame at physical address %x'' [Va_int frame_addr] s) (\<lambda>s.
             bindE (set_frame_io dev frame_addr s) (\<lambda>s.
             Inr (frame_addr, s))))"

definition free_frame_io :: "device \<Rightarrow> u32 \<Rightarrow> 'a kernel_state_scheme \<Rightarrow> 'a kernel_state_scheme res" where
  "free_frame_io dev frame_addr s =
     bindE (debug_debug vm_ld vm_st dev ''Freeing frame at physical address %x'' [Va_int frame_addr] s)
       (clear_frame_io dev frame_addr)"

section \<open>Page tables\<close>

definition get_page_table_io ::
  "device \<Rightarrow> u32 \<Rightarrow> bool \<Rightarrow> 'a kernel_state_scheme \<Rightarrow> (u32 \<times> 'a kernel_state_scheme) res" where
  "get_page_table_io dev virt_addr create s =
     (let pdindex = drop_bit 22 virt_addr;
          pde = cell (current_page_directory (vram s)) pdindex
      in bindE (ld32 vm_ld pde (vram s)) (\<lambda>v.
         if v AND PAGE_PRESENT \<noteq> 0
         then bindE (ld32 vm_ld pde (vram s)) (\<lambda>v.
              let page_table_addr = v AND PAGE_FRAME
              in bindE (debug_trace vm_ld vm_st dev ''Using existing page table at physical %x for address %x''
                   [Va_int page_table_addr, Va_int virt_addr] s) (\<lambda>s.
                 Inr (P2V page_table_addr, s)))
         else if create
         then bindE (alloc_frame_io dev s) (\<lambda>(page_table_addr, s).
              if page_table_addr = 0
              then bindE (debug_error vm_ld vm_st dev ''Failed to allocate page table for address %x''
                     [Va_int virt_addr] s) (\<lambda>s.
                   Inr (0, s))
              else bindE (memset vm_st (P2V page_table_addr) 0 PAGE_SIZE (vram s)) (\<lambda>(_, p).
                   bindE (st32 vm_st pde
                            (page_table_addr OR PAGE_PRESENT OR PAGE_WRITE) p) (\<lambda>p.
                   bindE (debug_trace vm_ld vm_st dev ''Created new page table at physical %x for address %x''
                     [Va_int page_table_addr, Va_int virt_addr] (s\<lparr>vram := p\<rparr>)) (\<lambda>s.
                   Inr (P2V page_table_addr, s)))))
         else Inr (0, s)))"

definition map_page_to_frame_io ::
  "device \<Rightarrow> u32 \<Rightarrow> u32 \<Rightarrow> u32 \<Rightarrow> 'a kernel_state_scheme \<Rightarrow> 'a kernel_state_scheme res" where
  "map_page_to_frame_io dev virt_addr phys_addr flags s =
     (let ptindex = drop_bit 12 virt_addr AND 0x3FF
      in bindE (debug_debug vm_ld vm_st dev ''Mapping virtual %x to physical %x with flags %x''
           [Va_int virt_addr, Va_int phys_addr, Va_int flags] s) (\<lambda>s.
         bindE (get_page_table_io dev virt_addr True s) (\<lambda>(table, s).
         if table = 0
         then debug_error vm_ld vm_st dev ''Failed to get page table for virtual address %x'' [Va_int virt_addr] s
         else bindE (st32 vm_st (cell table ptindex)
                       ((phys_addr AND PAGE_FRAME) OR (flags AND 0xFFF) OR PAGE_PRESENT) (vram s)) (\<lambda>p.
              debug_trace vm_ld vm_st dev ''Mapped virtual %x to physical %x (PD idx: %u, PT idx: %u)''
                [Va_int virt_addr, Va_int phys_addr, Va_int (drop_bit 22 virt_addr), Va_int ptindex]
                (s\<lparr>vram := flush_tlb_entry virt_addr p\<rparr>)))))"

definition unmap_page_io :: "device \<Rightarrow> u32 \<Rightarrow> 'a kernel_state_scheme \<Rightarrow> 'a kernel_state_scheme res" where
  "unmap_page_io dev virt_addr s =
     (let ptindex = drop_bit 12 virt_addr AND 0x3FF
      in bindE (debug_debug vm_ld vm_st dev ''Unmapping virtual address %x'' [Va_int virt_addr] s) (\<lambda>s.
         bindE (get_page_table_io dev virt_addr False s) (\<lambda>(table, s).
         if table = 0
         then debug_warning vm_ld vm_st dev ''Page table not found for virtual address %x'' [Va_int virt_addr] s
         else bindE (st32 vm_st (cell table ptindex) 0 (vram s)) (\<lambda>p.
              debug_trace vm_ld vm_st dev ''Unmapped virtual address %x (PD idx: %u, PT idx: %u)''
                [Va_int virt_addr, Va_int (drop_bit 22 virt_addr), Va_int ptindex]
                (s\<lparr>vram := flush_tlb_entry virt_addr p\<rparr>)))))"

definition kmalloc_physical_page_io :: "device \<Rightarrow> 'a kernel_state_scheme \<Rightarrow> (u32 \<times> 'a kernel_state_scheme) res" where
  "kmalloc_physical_page_io dev s =
     bindE (alloc_frame_io dev s) (\<lambda>(frame, s).
     if frame = 0 then Inr (0, s)
     else bindE (memset vm_st (P2V frame) 0 PAGE_SIZE (vram s)) (\<lambda>(_, p). Inr (frame, s\<lparr>vram := p\<rparr>)))"

definition kfree_physical_page_io :: "device \<Rightarrow> u32 \<Rightarrow> 'a kernel_state_scheme \<Rightarrow> 'a kernel_state_scheme res" where
  "kfree_physical_page_io dev addr s = (if addr = 0 then Inr s else free_frame_io dev addr s)"

section \<open>Initialisation and report\<close>

partial_function (option) mark_frames_io ::
  "device \<Rightarrow> u32 \<Rightarrow> u32 \<Rightarrow> 'a kernel_state_scheme \<Rightarrow> 'a kernel_state_scheme res option" where
  "mark_frames_io dev addr to s =
     (if addr < to
      then (case set_frame_io dev addr s of Inl e \<Rightarrow> Some (Inl e)
            | Inr s \<Rightarrow> mark_frames_io dev (addr + PAGE_SIZE) to s)
      else Some (Inr s))"

definition mark_range_io :: "device \<Rightarrow> u32 \<Rightarrow> u32 \<Rightarrow> 'a kernel_state_scheme \<Rightarrow> 'a kernel_state_scheme res" where
  "mark_range_io dev addr to s = (case mark_frames_io dev addr to s of None \<Rightarrow> Inl No_return | Some r \<Rightarrow> r)"

definition init_paging_io ::
  "device \<Rightarrow> u32 \<Rightarrow> u32 \<Rightarrow> 'a kernel_state_scheme \<Rightarrow> 'a kernel_state_scheme res" where
  "init_paging_io dev kernel_start kernel_end s =
     bindE (say dev (''Initializing paging system...'' @ NL) [] s) (\<lambda>s.
     let s = s\<lparr>vram := (vram s)\<lparr>frame_bitmap := replicate 512 0\<rparr>\<rparr>
     in bindE (mark_range_io dev 0 0x100000 s) (\<lambda>s.
     bindE (say dev (''Marking kernel physical memory as used: %x - %x'' @ NL)
              [Va_int kernel_start, Va_int kernel_end] s) (\<lambda>s.
     bindE (mark_range_io dev kernel_start kernel_end s) (\<lambda>s.
     let cr3_value = cr3 (vram s);
         s = s\<lparr>vram := (vram s)\<lparr>kernel_page_directory := P2V cr3_value\<rparr>\<rparr>;
         s = s\<lparr>vram := (vram s)\<lparr>current_page_directory := kernel_page_directory (vram s)\<rparr>\<rparr>
     in bindE (say dev (''Current page directory at physical: %x, virtual: %x'' @ NL)
              [Va_int cr3_value, Va_int (kernel_page_directory (vram s))] s) (\<lambda>s.
     bindE (st32 vm_st (cell (kernel_page_directory (vram s)) 1023)
              (V2P (kernel_page_directory (vram s)) OR PAGE_PRESENT OR PAGE_WRITE) (vram s)) (\<lambda>p.
     let s = s\<lparr>vram := write_cr3 cr3_value p\<rparr>
     in bindE (debug_info vm_ld vm_st dev ''Paging system initialized successfully'' [] s)
          (say dev (''Paging system initialized!'' @ NL) [])))))))"

definition print_paging_info_io :: "device \<Rightarrow> 'a kernel_state_scheme \<Rightarrow> 'a kernel_state_scheme res" where
  "print_paging_info_io dev s =
     bindE (say dev (''Paging Information:'' @ NL) [] s) (\<lambda>s.
     bindE (say dev (''  Paging enabled: %s'' @ NL)
       [Va_str (Some (if is_paging_enabled (vram s) then ''YES'' else ''NO''))] s) (\<lambda>s.
     let cr3_value = cr3 (vram s)
     in bindE (say dev (''  Page Directory (CR3): %x (Physical)'' @ NL) [Va_int cr3_value] s) (\<lambda>s.
     bindE (say dev (''  Page Directory Virtual: %x'' @ NL) [Va_int (current_page_directory (vram s))] s) (\<lambda>s.
     let used_frames = count_used_frames (frame_bitmap (vram s))
     in bindE (say dev (''  Used physical frames: %u/%u (%u KB)'' @ NL)
       [Va_int used_frames, Va_int TOTAL_FRAMES, Va_int (used_frames * PAGE_SIZE div 1024)] s) (\<lambda>s.
     bindE (say dev (''  Free physical frames: %u/%u (%u KB)'' @ NL)
       [Va_int (TOTAL_FRAMES - used_frames), Va_int TOTAL_FRAMES,
        Va_int ((TOTAL_FRAMES - used_frames) * PAGE_SIZE div 1024)] s) (\<lambda>s.
     debug_trace vm_ld vm_st dev ''Page directory at physical %x, virtual %x''
       [Va_int cr3_value, Va_int (current_page_directory (vram s))] s))))))"

end
