(* ===== verification/Kernel.thy ===== *)
theory Kernel
  imports Kernel_Paging
begin

text \<open>
  The kernel's main program, \<^verbatim>\<open>src/kernel/kernel/kernel.c\<close>, on the machine with paging: the state is
  that of the panic handlers with the paging system in the place of memory, so that console output
  goes through the page tables the program works on. The symbols of the linker and the registers a
  panic reads are arguments.
\<close>

section \<open>kernel.c\<close>

record link_symbols =
  kernel_virtual_start :: u32
  kernel_virtual_end :: u32
  kernel_physical_start :: u32
  kernel_physical_end :: u32
  kernel_main_address :: u32

definition is_higher_half_address :: "u32 \<Rightarrow> bool" where
  "is_higher_half_address addr \<longleftrightarrow> addr \<ge> KERNEL_VIRTUAL_BASE"

text \<open>\<^verbatim>\<open>&kernel_virtual_end - &kernel_virtual_start\<close> counts objects of four bytes.\<close>

definition print_kernel_memory_layout ::
  "device \<Rightarrow> link_symbols \<Rightarrow> 'a kernel_state_scheme \<Rightarrow> 'a kernel_state_scheme res" where
  "print_kernel_memory_layout dev l s =
     bindE (say dev (''Kernel Memory Layout:'' @ NL) [] s) (\<lambda>s.
     bindE (say dev (''  Virtual Start:  %x'' @ NL) [Va_int (kernel_virtual_start l)] s) (\<lambda>s.
     bindE (say dev (''  Virtual End:    %x'' @ NL) [Va_int (kernel_virtual_end l)] s) (\<lambda>s.
     bindE (say dev (''  Physical Start: %x'' @ NL) [Va_int (kernel_physical_start l)] s) (\<lambda>s.
     bindE (say dev (''  Physical End:   %x'' @ NL) [Va_int (kernel_physical_end l)] s) (\<lambda>s.
     say dev (''  Virtual Size:   %u KB'' @ NL)
       [Va_int (signed_drop_bit 2 (kernel_virtual_end l - kernel_virtual_start l) div 1024)] s)))))"

definition test_debugging_levels :: "device \<Rightarrow> 'a kernel_state_scheme \<Rightarrow> 'a kernel_state_scheme res" where
  "test_debugging_levels dev s =
     bindE (debug_error vm_ld vm_st dev ''This is an ERROR level message'' [] s) (\<lambda>s.
     bindE (debug_warning vm_ld vm_st dev ''This is a WARNING level message'' [] s) (\<lambda>s.
     bindE (debug_info vm_ld vm_st dev ''This is an INFO level message'' [] s) (\<lambda>s.
     bindE (debug_debug vm_ld vm_st dev ''This is a DEBUG level message'' [] s) (\<lambda>s.
     bindE (debug_trace vm_ld vm_st dev ''This is a TRACE level message'' [] s) (\<lambda>s.
     say dev (NL @ ''Testing printf redirection to serial port'' @ NL) [] s)))))"

text \<open>A store and a load of \<^verbatim>\<open>*test_ptr\<close>, through the page tables.\<close>

definition store_word :: "u32 \<Rightarrow> u32 \<Rightarrow> 'a kernel_state_scheme \<Rightarrow> 'a kernel_state_scheme res" where
  "store_word a v s = bindE (st32 vm_st a v (vram s)) (\<lambda>p. Inr (s\<lparr>vram := p\<rparr>))"

definition load_word :: "u32 \<Rightarrow> 'a kernel_state_scheme \<Rightarrow> u32 res" where
  "load_word a s = ld32 vm_ld a (vram s)"

definition test_memory_mapping :: "device \<Rightarrow> 'a kernel_state_scheme \<Rightarrow> 'a kernel_state_scheme res" where
  "test_memory_mapping dev s =
     bindE (debug_info vm_ld vm_st dev ''Testing virtual memory mapping'' [] s) (\<lambda>s.
     bindE (say dev (NL @ ''Testing virtual memory mapping:'' @ NL) [] s) (\<lambda>s.
     bindE (kmalloc_physical_page_io dev s) (\<lambda>(page1, s).
     bindE (kmalloc_physical_page_io dev s) (\<lambda>(page2, s).
     bindE (kmalloc_physical_page_io dev s) (\<lambda>(page3, s).
     bindE (say dev (''  Allocated page 1 at physical: %x, virtual: %x'' @ NL)
              [Va_int page1, Va_int (P2V page1)] s) (\<lambda>s.
     bindE (say dev (''  Allocated page 2 at physical: %x, virtual: %x'' @ NL)
              [Va_int page2, Va_int (P2V page2)] s) (\<lambda>s.
     bindE (say dev (''  Allocated page 3 at physical: %x, virtual: %x'' @ NL)
              [Va_int page3, Va_int (P2V page3)] s) (\<lambda>s.
     let test_virt_addr = 0xD0000000
     in bindE (say dev (''  Mapping virtual %x to physical %x'' @ NL)
              [Va_int test_virt_addr, Va_int page1] s) (\<lambda>s.
     bindE (map_page_to_frame_io dev test_virt_addr page1 (PAGE_PRESENT OR PAGE_WRITE) s) (\<lambda>s.
     bindE (debug_debug vm_ld vm_st dev ''Writing test pattern to mapped memory'' [] s) (\<lambda>s.
     bindE (say dev (''  Writing test pattern to mapped memory...'' @ NL) [] s) (\<lambda>s.
     bindE (store_word test_virt_addr 0xDEADBEEF s) (\<lambda>s.
     let s = s\<lparr>vram := flush_tlb_entry test_virt_addr (vram s)\<rparr>
     in bindE (load_word test_virt_addr s) (\<lambda>read_value.
     bindE (say dev (''  Reading back value: %x (expected 0xDEADBEEF)'' @ NL) [Va_int read_value] s) (\<lambda>s.
     bindE (if read_value \<noteq> 0xDEADBEEF
            then debug_error vm_ld vm_st dev ''Memory test failed! Expected 0xDEADBEEF, got %x'' [Va_int read_value] s
            else debug_info vm_ld vm_st dev ''Memory test passed successfully'' [] s) (\<lambda>s.
     bindE (debug_debug vm_ld vm_st dev ''Cleaning up test allocations'' [] s) (\<lambda>s.
     bindE (say dev (NL @ ''Cleaning up test allocations:'' @ NL) [] s) (\<lambda>s.
     bindE (say dev (''  Unmapping virtual address %x'' @ NL) [Va_int test_virt_addr] s) (\<lambda>s.
     bindE (unmap_page_io dev test_virt_addr s) (\<lambda>s.
     bindE (say dev (''  Freeing physical pages'' @ NL) [] s) (\<lambda>s.
     bindE (kfree_physical_page_io dev page1 s) (\<lambda>s.
     bindE (kfree_physical_page_io dev page2 s) (\<lambda>s.
     kfree_physical_page_io dev page3 s)))))))))))))))))))))))"

text \<open>\<^verbatim>\<open>kernel_main\<close> up to the check of its own address, and from the initialisation of paging on.\<close>

definition kernel_start :: "device \<Rightarrow> link_symbols \<Rightarrow> 'a kernel_state_scheme \<Rightarrow> 'a kernel_state_scheme res" where
  "kernel_start dev l s =
     bindE (debug_init vm_ld vm_st dev s) (\<lambda>s.
     let s = terminal_enable_serial True s;
         s = printf_enable_serial False s;
         s = putchar_enable_serial False s;
         s = debug_set_level DEBUG_LEVEL_DEBUG s;
         s = debug_set_target DEBUG_TARGET_ALL s
     in bindE (debug_info vm_ld vm_st dev ''RedOS kernel starting...'' [] s) (\<lambda>s.
     bindE (debug_info vm_ld vm_st dev ''Serial debugging enabled'' [] s) (\<lambda>s.
     bindE (test_debugging_levels dev s) (\<lambda>s.
     say dev (''Kernel Main function called at virtual address %x!'' @ NL)
       [Va_int (kernel_main_address l)] s))))"

definition kernel_continue :: "device \<Rightarrow> link_symbols \<Rightarrow> 'a kernel_state_scheme \<Rightarrow> 'a kernel_state_scheme res" where
  "kernel_continue dev l s =
     bindE (print_kernel_memory_layout dev l s) (\<lambda>s.
     bindE (init_paging_io dev (kernel_physical_start l) (kernel_physical_end l) s) (\<lambda>s.
     bindE (print_paging_info_io dev s) (\<lambda>s.
     bindE (test_memory_mapping dev s) (\<lambda>s.
     bindE (print_paging_info_io dev s) (\<lambda>s.
     bindE (debug_info vm_ld vm_st dev ''Memory dump of kernel start area'' [] s) (\<lambda>s.
     bindE (debug_hex_dump vm_ld vm_st dev (kernel_virtual_start l) 128 s) (\<lambda>s.
     bindE (debug_info vm_ld vm_st dev ''Testing debug output targets'' [] s) (\<lambda>s.
     bindE (debug_info vm_ld vm_st dev ''This message should only appear on VGA (not in serial log)'' []
              (debug_set_target DEBUG_TARGET_VGA s)) (\<lambda>s.
     bindE (debug_info vm_ld vm_st dev ''This message should only appear in serial log (not on VGA)'' []
              (debug_set_target DEBUG_TARGET_SERIAL s)) (\<lambda>s.
     bindE (debug_info vm_ld vm_st dev ''This message should appear in both VGA and serial log'' []
              (debug_set_target DEBUG_TARGET_ALL s)) (\<lambda>s.
     bindE (debug_info vm_ld vm_st dev ''RedOS successfully booted in higher half mode!'' [] s) (\<lambda>s.
     say dev (NL @ ''RedOS successfully booted in higher half mode!'' @ NL) [] s))))))))))))"

text \<open>A panic does not return, so that nothing follows it.\<close>

definition kernel_main ::
  "device \<Rightarrow> link_symbols \<Rightarrow> cpu_regs \<Rightarrow> 'a kernel_state_scheme \<Rightarrow> 'a kernel_state_scheme res" where
  "kernel_main dev l r s =
     bindE (kernel_start dev l s) (\<lambda>s.
     if is_higher_half_address (kernel_main_address l)
     then bindE (debug_info vm_ld vm_st dev ''Kernel is running in the higher half (0xC0000000+)'' [] s)
            (kernel_continue dev l)
     else bindE (debug_error vm_ld vm_st dev ''Kernel is NOT running in the higher half!'' [] s)
            (panic vm_ld vm_st dev r ''Kernel not in higher half''))"

end
