(* ===== verification/Multiboot.thy ===== *)
theory Multiboot
  imports Stdio Cells
begin

text \<open>
  The report on the boot information of \<^verbatim>\<open>src/kernel/kernel/multiboot.c\<close>: a list of tags in memory,
  with the layouts of \<^verbatim>\<open>src/kernel/include/multiboot2.h\<close>, that the code walks through and prints. Memory
  is read as it is when the code reads it, which is after whatever has been printed before.
\<close>

section \<open>Layouts\<close>

abbreviation (input) MULTIBOOT2_BOOTLOADER_MAGIC :: u32 where "MULTIBOOT2_BOOTLOADER_MAGIC \<equiv> 0x36d76289"
abbreviation (input) MULTIBOOT_TAG_TYPE_END :: u32 where "MULTIBOOT_TAG_TYPE_END \<equiv> 0"
abbreviation (input) MULTIBOOT_TAG_TYPE_CMDLINE :: u32 where "MULTIBOOT_TAG_TYPE_CMDLINE \<equiv> 1"
abbreviation (input) MULTIBOOT_TAG_TYPE_BOOT_LOADER_NAME :: u32 where "MULTIBOOT_TAG_TYPE_BOOT_LOADER_NAME \<equiv> 2"
abbreviation (input) MULTIBOOT_TAG_TYPE_MODULE :: u32 where "MULTIBOOT_TAG_TYPE_MODULE \<equiv> 3"
abbreviation (input) MULTIBOOT_TAG_TYPE_BASIC_MEMINFO :: u32 where "MULTIBOOT_TAG_TYPE_BASIC_MEMINFO \<equiv> 4"
abbreviation (input) MULTIBOOT_TAG_TYPE_BOOTDEV :: u32 where "MULTIBOOT_TAG_TYPE_BOOTDEV \<equiv> 5"
abbreviation (input) MULTIBOOT_TAG_TYPE_MMAP :: u32 where "MULTIBOOT_TAG_TYPE_MMAP \<equiv> 6"

text \<open>The fields of the structures that the code reads, and a read of each structure from memory.\<close>

record multiboot_tag =
  tag_type :: u32
  tag_size :: u32

definition load_tag :: "(u32 \<Rightarrow> 'm \<Rightarrow> u8 res) \<Rightarrow> u32 \<Rightarrow> 'm \<Rightarrow> multiboot_tag res" where
  "load_tag ld a m =
     bindE (ld32 ld a m) (\<lambda>t. bindE (ld32 ld (a + 4) m) (\<lambda>z. Inr \<lparr>tag_type = t, tag_size = z\<rparr>))"

record multiboot_tag_module =
  mod_start :: u32
  mod_end :: u32

definition load_module :: "(u32 \<Rightarrow> 'm \<Rightarrow> u8 res) \<Rightarrow> u32 \<Rightarrow> 'm \<Rightarrow> multiboot_tag_module res" where
  "load_module ld a m =
     bindE (ld32 ld (a + 8) m) (\<lambda>b. bindE (ld32 ld (a + 12) m) (\<lambda>e. Inr \<lparr>mod_start = b, mod_end = e\<rparr>))"

record multiboot_tag_basic_meminfo =
  mem_lower :: u32
  mem_upper :: u32

definition load_meminfo :: "(u32 \<Rightarrow> 'm \<Rightarrow> u8 res) \<Rightarrow> u32 \<Rightarrow> 'm \<Rightarrow> multiboot_tag_basic_meminfo res" where
  "load_meminfo ld a m =
     bindE (ld32 ld (a + 8) m) (\<lambda>l. bindE (ld32 ld (a + 12) m) (\<lambda>h. Inr \<lparr>mem_lower = l, mem_upper = h\<rparr>))"

record multiboot_tag_bootdev =
  biosdev :: u32
  slice :: u32
  part :: u32

definition load_bootdev :: "(u32 \<Rightarrow> 'm \<Rightarrow> u8 res) \<Rightarrow> u32 \<Rightarrow> 'm \<Rightarrow> multiboot_tag_bootdev res" where
  "load_bootdev ld a m =
     bindE (ld32 ld (a + 8) m) (\<lambda>d. bindE (ld32 ld (a + 12) m) (\<lambda>s. bindE (ld32 ld (a + 16) m) (\<lambda>p.
     Inr \<lparr>biosdev = d, slice = s, part = p\<rparr>)))"

record multiboot_mmap_entry =
  mmap_addr :: "64 word"
  mmap_len :: "64 word"
  mmap_type :: u32

definition ld64 :: "(u32 \<Rightarrow> 'm \<Rightarrow> u8 res) \<Rightarrow> u32 \<Rightarrow> 'm \<Rightarrow> 64 word res" where
  "ld64 ld a m =
     bindE (ld32 ld a m) (\<lambda>lo. bindE (ld32 ld (a + 4) m) (\<lambda>hi. Inr (ucast lo OR push_bit 32 (ucast hi))))"

definition load_mmap_entry :: "(u32 \<Rightarrow> 'm \<Rightarrow> u8 res) \<Rightarrow> u32 \<Rightarrow> 'm \<Rightarrow> multiboot_mmap_entry res" where
  "load_mmap_entry ld a m =
     bindE (ld64 ld a m) (\<lambda>b. bindE (ld64 ld (a + 8) m) (\<lambda>n. bindE (ld32 ld (a + 16) m) (\<lambda>t.
     Inr \<lparr>mmap_addr = b, mmap_len = n, mmap_type = t\<rparr>)))"

text \<open>The string behind a pointer that \<^verbatim>\<open>printf\<close> is given for \<^verbatim>\<open>%s\<close>: its length is taken first.\<close>

primrec load_chars :: "(u32 \<Rightarrow> 'm \<Rightarrow> u8 res) \<Rightarrow> 'm \<Rightarrow> nat \<Rightarrow> u32 \<Rightarrow> string res" where
  "load_chars ld m 0 a = Inr []"
| "load_chars ld m (Suc n) a =
     bindE (ld a m) (\<lambda>b. bindE (load_chars ld m n (a + 1)) (\<lambda>cs. Inr (char_of (unat b) # cs)))"

definition load_string :: "(u32 \<Rightarrow> 'm \<Rightarrow> u8 res) \<Rightarrow> u32 \<Rightarrow> 'm \<Rightarrow> string res" where
  "load_string ld a m = bindE (strlen ld a m) (\<lambda>len. load_chars ld m (unat len) a)"

text \<open>The other accesses to fields: what the loops test and step by, and the arrays at the end of a tag.\<close>

definition load_type :: "(u32 \<Rightarrow> 'm \<Rightarrow> u8 res) \<Rightarrow> u32 \<Rightarrow> 'm \<Rightarrow> u32 res" where
  [simp]: "load_type ld tag m = ld32 ld tag m"

definition load_size :: "(u32 \<Rightarrow> 'm \<Rightarrow> u8 res) \<Rightarrow> u32 \<Rightarrow> 'm \<Rightarrow> u32 res" where
  [simp]: "load_size ld tag m = ld32 ld (tag + 4) m"

definition tag_string :: "u32 \<Rightarrow> u32" where
  [simp]: "tag_string tag = tag + 8"

definition module_cmdline :: "u32 \<Rightarrow> u32" where
  [simp]: "module_cmdline tag = tag + 16"

definition load_entry_size :: "(u32 \<Rightarrow> 'm \<Rightarrow> u8 res) \<Rightarrow> u32 \<Rightarrow> 'm \<Rightarrow> u32 res" where
  [simp]: "load_entry_size ld tag m = ld32 ld (tag + 8) m"

definition mmap_entries :: "u32 \<Rightarrow> u32" where
  [simp]: "mmap_entries tag = tag + 16"

section \<open>The report\<close>

definition print_line ::
  "(u32 \<Rightarrow> 'm \<Rightarrow> u8 res) \<Rightarrow> (u32 \<Rightarrow> u8 \<Rightarrow> 'm \<Rightarrow> 'm res) \<Rightarrow> device \<Rightarrow> string \<Rightarrow> va_arg list \<Rightarrow>
     ('m, 'a) stdio_state_scheme \<Rightarrow> ('m, 'a) stdio_state_scheme res" where
  "print_line ld st dev format args s = bindE (printf ld st dev format args s) (\<lambda>(_, s). Inr s)"

definition print_region ::
  "(u32 \<Rightarrow> 'm \<Rightarrow> u8 res) \<Rightarrow> (u32 \<Rightarrow> u8 \<Rightarrow> 'm \<Rightarrow> 'm res) \<Rightarrow> device \<Rightarrow> u32 \<Rightarrow>
     ('m, 'a) stdio_state_scheme \<Rightarrow> ('m, 'a) stdio_state_scheme res" where
  "print_region ld st dev mmap s =
     bindE (load_mmap_entry ld mmap (vram s)) (\<lambda>e.
     print_line ld st dev (''  Region: base=%x%08x, length=%x%08x, type=%d'' @ NL)
       [Va_int (ucast (drop_bit 32 (mmap_addr e))), Va_int (ucast (mmap_addr e AND 0xFFFFFFFF)),
        Va_int (ucast (drop_bit 32 (mmap_len e))), Va_int (ucast (mmap_len e AND 0xFFFFFFFF)),
        Va_int (mmap_type e)] s)"

text \<open>The loop over the memory map, which ends only when the end of the tag has been passed.\<close>

partial_function (option) mmap_loop ::
  "(u32 \<Rightarrow> 'm \<Rightarrow> u8 res) \<Rightarrow> (u32 \<Rightarrow> u8 \<Rightarrow> 'm \<Rightarrow> 'm res) \<Rightarrow> device \<Rightarrow> u32 \<Rightarrow> u32 \<Rightarrow>
     ('m, 'a) stdio_state_scheme \<Rightarrow> ('m, 'a) stdio_state_scheme res option" where
  "mmap_loop ld st dev tag mmap s =
     (case load_tag ld tag (vram s) of Inl e \<Rightarrow> Some (Inl e)
      | Inr t \<Rightarrow>
          if mmap < tag + tag_size t
          then (case bindE (print_region ld st dev mmap s) (\<lambda>s.
                    bindE (load_entry_size ld tag (vram s)) (\<lambda>entry_size. Inr (entry_size, s))) of
                 Inl e \<Rightarrow> Some (Inl e)
               | Inr (entry_size, s) \<Rightarrow> mmap_loop ld st dev tag (mmap + entry_size) s)
          else Some (Inr s))"

text \<open>The \<^verbatim>\<open>switch\<close> over the type of a tag.\<close>

definition show_body ::
  "(u32 \<Rightarrow> 'm \<Rightarrow> u8 res) \<Rightarrow> (u32 \<Rightarrow> u8 \<Rightarrow> 'm \<Rightarrow> 'm res) \<Rightarrow> device \<Rightarrow> u32 \<Rightarrow>
     ('m, 'a) stdio_state_scheme \<Rightarrow> ('m, 'a) stdio_state_scheme res" where
  "show_body ld st dev tag s =
     bindE (load_tag ld tag (vram s)) (\<lambda>t.
     if tag_type t = MULTIBOOT_TAG_TYPE_CMDLINE
     then bindE (load_string ld (tag_string tag) (vram s)) (\<lambda>str.
          print_line ld st dev (''Command line = %s'' @ NL) [Va_str (Some str)] s)
     else if tag_type t = MULTIBOOT_TAG_TYPE_BOOT_LOADER_NAME
     then bindE (load_string ld (tag_string tag) (vram s)) (\<lambda>str.
          print_line ld st dev (''Boot loader name = %s'' @ NL) [Va_str (Some str)] s)
     else if tag_type t = MULTIBOOT_TAG_TYPE_MODULE
     then bindE (load_module ld tag (vram s)) (\<lambda>m.
          bindE (load_string ld (module_cmdline tag) (vram s)) (\<lambda>str.
          print_line ld st dev (''Module at %x-%x. Command line %s'' @ NL)
            [Va_int (mod_start m), Va_int (mod_end m), Va_str (Some str)] s))
     else if tag_type t = MULTIBOOT_TAG_TYPE_BASIC_MEMINFO
     then bindE (load_meminfo ld tag (vram s)) (\<lambda>m.
          print_line ld st dev (''mem_lower = %dKB, mem_upper = %dKB'' @ NL)
            [Va_int (mem_lower m), Va_int (mem_upper m)] s)
     else if tag_type t = MULTIBOOT_TAG_TYPE_BOOTDEV
     then bindE (load_bootdev ld tag (vram s)) (\<lambda>b.
          print_line ld st dev (''Boot device %x,%d,%d'' @ NL)
            [Va_int (biosdev b), Va_int (slice b), Va_int (part b)] s)
     else if tag_type t = MULTIBOOT_TAG_TYPE_MMAP
     then bindE (print_line ld st dev (''Memory map:'' @ NL) [] s) (\<lambda>s.
          case mmap_loop ld st dev tag (mmap_entries tag) s of None \<Rightarrow> Inl No_return | Some r \<Rightarrow> r)
     else Inr s)"

definition show_tag ::
  "(u32 \<Rightarrow> 'm \<Rightarrow> u8 res) \<Rightarrow> (u32 \<Rightarrow> u8 \<Rightarrow> 'm \<Rightarrow> 'm res) \<Rightarrow> device \<Rightarrow> u32 \<Rightarrow>
     ('m, 'a) stdio_state_scheme \<Rightarrow> ('m, 'a) stdio_state_scheme res" where
  "show_tag ld st dev tag s =
     bindE (load_tag ld tag (vram s)) (\<lambda>t.
     bindE (print_line ld st dev (''Tag %x, Size %x'' @ NL) [Va_int (tag_type t), Va_int (tag_size t)] s)
       (show_body ld st dev tag))"

text \<open>The loop over the tags: it steps by the size of a tag, rounded up to eight.\<close>

partial_function (option) tag_loop ::
  "(u32 \<Rightarrow> 'm \<Rightarrow> u8 res) \<Rightarrow> (u32 \<Rightarrow> u8 \<Rightarrow> 'm \<Rightarrow> 'm res) \<Rightarrow> device \<Rightarrow> u32 \<Rightarrow>
     ('m, 'a) stdio_state_scheme \<Rightarrow> (u32 \<times> ('m, 'a) stdio_state_scheme) res option" where
  "tag_loop ld st dev tag s =
     (case load_type ld tag (vram s) of Inl e \<Rightarrow> Some (Inl e)
      | Inr type \<Rightarrow>
          if type = MULTIBOOT_TAG_TYPE_END then Some (Inr (tag, s))
          else (case bindE (show_tag ld st dev tag s) (\<lambda>s.
                    bindE (load_size ld tag (vram s)) (\<lambda>sz. Inr (sz, s))) of
                 Inl e \<Rightarrow> Some (Inl e)
               | Inr (sz, s) \<Rightarrow> tag_loop ld st dev (tag + ((sz + 7) AND NOT 7)) s))"

definition validate_boot ::
  "(u32 \<Rightarrow> 'm \<Rightarrow> u8 res) \<Rightarrow> (u32 \<Rightarrow> u8 \<Rightarrow> 'm \<Rightarrow> 'm res) \<Rightarrow> device \<Rightarrow> u32 \<Rightarrow> u32 \<Rightarrow>
     ('m, 'a) stdio_state_scheme \<Rightarrow> ('m, 'a) stdio_state_scheme res" where
  "validate_boot ld st dev magic addr s =
     bindE (print_line ld st dev (''Validating multiboot information at virtual address %x'' @ NL) [Va_int addr] s) (\<lambda>s.
     if magic \<noteq> MULTIBOOT2_BOOTLOADER_MAGIC
     then print_line ld st dev (''Invalid magic number: %x (expected %x)'' @ NL)
            [Va_int magic, Va_int MULTIBOOT2_BOOTLOADER_MAGIC] s
     else if addr AND 7 \<noteq> 0
     then print_line ld st dev (''Unaligned multiboot info pointer: %x'' @ NL) [Va_int addr] s
     else bindE (if addr < 0xC0000000
                 then bindE (print_line ld st dev
                        (''Multiboot info pointer appears to be a physical address, converting...'' @ NL) [] s) (\<lambda>s.
                      let addr = addr + 0xC0000000
                      in bindE (print_line ld st dev (''Converted to virtual address: %x'' @ NL) [Va_int addr] s) (\<lambda>s.
                         Inr (addr, s)))
                 else Inr (addr, s)) (\<lambda>(addr, s).
          bindE (ld32 ld addr (vram s)) (\<lambda>sz.
          bindE (print_line ld st dev (''Multiboot info size: %d bytes'' @ NL) [Va_int sz] s) (\<lambda>s.
          bindE (case tag_loop ld st dev (addr + 8) s of None \<Rightarrow> Inl No_return | Some r \<Rightarrow> r) (\<lambda>(tag, s).
          bindE (load_size ld tag (vram s)) (\<lambda>tsz.
          let tag = tag + ((tsz + 7) AND NOT 7)
          in bindE (print_line ld st dev (''Total multiboot info size: %d bytes'' @ NL) [Va_int (tag - addr)] s)
               (print_line ld st dev (''Multiboot validation complete!'' @ NL) [])))))))"

end
