(* ===== verification/Gdt.thy ===== *)
theory Gdt
  imports Kernel_Log
begin

text \<open>
  The global descriptor table of \<^verbatim>\<open>src/kernel/kernel/gdt.c\<close> and \<^verbatim>\<open>gdt.h\<close>: the packed entries the
  code writes, the way the processor reads them, and the reload of the segment registers.
\<close>

section \<open>Entries\<close>

record gdt_entry =
  limit_low :: u16
  base_low :: u16
  base_middle :: u8
  access :: u8
  granularity :: u8
  base_high :: u8

record gdt_ptr =
  gp_limit :: u16
  gp_base :: u32

abbreviation (input) GDT_KERNEL_CODE_SEGMENT_SELECTOR :: u32 where "GDT_KERNEL_CODE_SEGMENT_SELECTOR \<equiv> 0x08"
abbreviation (input) GDT_KERNEL_DATA_SEGMENT_SELECTOR :: u32 where "GDT_KERNEL_DATA_SEGMENT_SELECTOR \<equiv> 0x10"
abbreviation (input) GDT_CODE_SEGMENT_PL0 :: u8 where "GDT_CODE_SEGMENT_PL0 \<equiv> 0x9A OR 0x00"
abbreviation (input) GDT_DATA_SEGMENT_PL0 :: u8 where "GDT_DATA_SEGMENT_PL0 \<equiv> 0x92 OR 0x00"

text \<open>The table and its pointer, the table register and the six segment registers.\<close>

record gdt_state = log_state +
  gdt :: "gdt_entry list"
  gp :: gdt_ptr
  gdtr :: gdt_ptr
  cs :: u16
  ds :: u16
  es :: u16
  fs :: u16
  gs :: u16
  ss :: u16

definition gdt_set_entry ::
  "int \<Rightarrow> u32 \<Rightarrow> u32 \<Rightarrow> u8 \<Rightarrow> u8 \<Rightarrow> 'a gdt_state_scheme \<Rightarrow> 'a gdt_state_scheme res" where
  "gdt_set_entry num base limit acc gran s =
     (if num < 0 \<or> int (length (gdt s)) \<le> num then Inl Out_of_bounds
      else Inr (s\<lparr>gdt := (gdt s)[nat num :=
        (gdt s ! nat num)\<lparr>base_low := ucast (base AND 0xFFFF),
          base_middle := ucast (drop_bit 16 base AND 0xFF),
          base_high := ucast (drop_bit 24 base AND 0xFF),
          limit_low := ucast (limit AND 0xFFFF),
          granularity := ucast (drop_bit 16 limit AND 0x0F) OR (gran AND 0xF0),
          access := acc\<rparr>]\<rparr>))"

section \<open>What the processor reads\<close>

text \<open>The eight bytes of a packed entry as one little-endian number.\<close>

definition packed :: "gdt_entry \<Rightarrow> u64" where
  "packed e = ucast (limit_low e) OR push_bit 16 (ucast (base_low e)) OR
     push_bit 32 (ucast (base_middle e)) OR push_bit 40 (ucast (access e)) OR
     push_bit 48 (ucast (granularity e)) OR push_bit 56 (ucast (base_high e))"

text \<open>
  A segment descriptor: base in bits 16 to 39 and 56 to 63, limit in bits 0 to 15 and 48 to 51
  (in units of 4 KiB when bit 55 is set), access byte in bits 40 to 47.
\<close>

definition desc_base :: "u64 \<Rightarrow> u32" where
  "desc_base d = ucast (take_bit 24 (drop_bit 16 d) OR push_bit 24 (drop_bit 56 d))"

definition desc_raw_limit :: "u64 \<Rightarrow> u32" where
  "desc_raw_limit d = ucast (take_bit 16 d OR push_bit 16 (take_bit 4 (drop_bit 48 d)))"

definition desc_limit :: "u64 \<Rightarrow> u32" where
  "desc_limit d = (if bit d 55 then push_bit 12 (desc_raw_limit d) OR 0xFFF else desc_raw_limit d)"

definition desc_access :: "u64 \<Rightarrow> u8" where
  "desc_access d = ucast (drop_bit 40 d)"

text \<open>The descriptor a selector names, when the table register points at the table (at \<open>gdt_addr\<close>).\<close>

definition descriptor :: "u32 \<Rightarrow> 'a gdt_state_scheme \<Rightarrow> u16 \<Rightarrow> u64 option" where
  "descriptor gdt_addr s sel =
     (let i = unat (drop_bit 3 sel)
      in if gp_base (gdtr s) = gdt_addr \<and> 8 * i + 7 \<le> unat (gp_limit (gdtr s)) \<and> i < length (gdt s)
         then Some (packed (gdt s ! i)) else None)"

text \<open>
  Loading a data segment register takes a present, writable data segment; a far jump takes a
  present code segment. Anything else raises a general protection fault.
\<close>

definition data_segment :: "u64 \<Rightarrow> bool" where
  "data_segment d \<longleftrightarrow> desc_access d AND 0x9A = 0x92"

definition code_segment :: "u64 \<Rightarrow> bool" where
  "code_segment d \<longleftrightarrow> desc_access d AND 0x98 = 0x98"

definition load_segment :: "u32 \<Rightarrow> (u64 \<Rightarrow> bool) \<Rightarrow> u16 \<Rightarrow> 'a gdt_state_scheme \<Rightarrow> unit res" where
  "load_segment gdt_addr ok sel s =
     (case descriptor gdt_addr s sel of
        None \<Rightarrow> Inl (General_protection sel)
      | Some d \<Rightarrow> if ok d then Inr () else Inl (General_protection sel))"

definition check_register :: "string \<Rightarrow> u16 \<Rightarrow> u32 \<Rightarrow> 'a gdt_state_scheme \<Rightarrow> 'a gdt_state_scheme" where
  "check_register name v expected s =
     log_printf (name @ '' selector value: %x, expected value: %x'' @ NL) [Va_int (ucast v), Va_int expected] s"

text \<open>The addresses \<^verbatim>\<open>&gdt\<close> and \<^verbatim>\<open>&gp\<close> that the linker assigns are arguments.\<close>

definition setup_gdt ::
  "u32 \<Rightarrow> u32 \<Rightarrow> 'a gdt_state_scheme \<Rightarrow> 'a gdt_state_scheme res" where
  "setup_gdt gdt_addr gp_addr s =
     (let s = log_printf (''Setting up GDT for higher half kernel...'' @ NL) [] s;
          s = s\<lparr>gp := \<lparr>gp_limit = 8 * 3 - 1, gp_base = gdt_addr\<rparr>\<rparr>
      in bindE (gdt_set_entry 0 0 0 0 0 s) (\<lambda>s.
      bindE (gdt_set_entry 1 0 0xFFFFFFFF GDT_CODE_SEGMENT_PL0 0xCF s) (\<lambda>s.
      bindE (gdt_set_entry 2 0 0xFFFFFFFF GDT_DATA_SEGMENT_PL0 0xCF s) (\<lambda>s.
      let s = log_printf (''GDT location: %x'' @ NL) [Va_int gp_addr] s;
          s = s\<lparr>gdtr := gp s\<rparr>;
          ax = ucast GDT_KERNEL_DATA_SEGMENT_SELECTOR
      in bindE (load_segment gdt_addr data_segment ax s) (\<lambda>_.
      let s = s\<lparr>ds := ax, es := ax, fs := ax, gs := ax, ss := ax\<rparr>
      in bindE (load_segment gdt_addr code_segment (ucast GDT_KERNEL_CODE_SEGMENT_SELECTOR) s) (\<lambda>_.
      let s = s\<lparr>cs := ucast GDT_KERNEL_CODE_SEGMENT_SELECTOR\<rparr>;
          s = log_printf (''GDT loaded successfully. Running self test...'' @ NL) [] s;
          s = check_register ''CS'' (cs s) GDT_KERNEL_CODE_SEGMENT_SELECTOR s;
          s = check_register ''GS'' (gs s) GDT_KERNEL_DATA_SEGMENT_SELECTOR s;
          s = check_register ''DS'' (ds s) GDT_KERNEL_DATA_SEGMENT_SELECTOR s;
          s = check_register ''ES'' (es s) GDT_KERNEL_DATA_SEGMENT_SELECTOR s;
          s = check_register ''FS'' (fs s) GDT_KERNEL_DATA_SEGMENT_SELECTOR s;
          s = check_register ''SS'' (ss s) GDT_KERNEL_DATA_SEGMENT_SELECTOR s
      in Inr (log_printf (''GDT setup and test complete!'' @ NL) [] s)))))))"

section \<open>Encoding and decoding\<close>

lemma bit_packed:
  "bit (packed e) n \<longleftrightarrow>
     (if n < 16 then bit (limit_low e) n else if n < 32 then bit (base_low e) (n - 16)
      else if n < 40 then bit (base_middle e) (n - 32) else if n < 48 then bit (access e) (n - 40)
      else if n < 56 then bit (granularity e) (n - 48) else n < 64 \<and> bit (base_high e) (n - 56))"
  by (auto simp: packed_def bit_or_iff bit_push_bit_iff bit_unsigned_iff
      dest: bit_imp_le_length)

lemma mask_bits:
  "bit (0xFFFF :: int) n \<longleftrightarrow> n < 16" "bit (0xFF :: int) n \<longleftrightarrow> n < 8" "bit (0x0F :: int) n \<longleftrightarrow> n < 4"
  "bit (0xF0 :: int) n \<longleftrightarrow> 4 \<le> n \<and> n < 8"
proof -
  have "(0xFFFF :: int) = mask 16" "(0xFF :: int) = mask 8" "(0x0F :: int) = mask 4"
    "(0xF0 :: int) = push_bit 4 (mask 4)" by (simp_all add: mask_eq_exp_minus_1)
  then show "bit (0xFFFF :: int) n \<longleftrightarrow> n < 16" "bit (0xFF :: int) n \<longleftrightarrow> n < 8"
    "bit (0x0F :: int) n \<longleftrightarrow> n < 4" "bit (0xF0 :: int) n \<longleftrightarrow> 4 \<le> n \<and> n < 8"
    by (auto simp only: bit_mask_iff bit_push_bit_iff possible_bit_def) auto
qed

definition encode_entry :: "u32 \<Rightarrow> u32 \<Rightarrow> u8 \<Rightarrow> u8 \<Rightarrow> gdt_entry" where
  "encode_entry base limit acc gran =
     \<lparr>limit_low = ucast (limit AND 0xFFFF), base_low = ucast (base AND 0xFFFF),
      base_middle = ucast (drop_bit 16 base AND 0xFF), access = acc,
      granularity = ucast (drop_bit 16 limit AND 0x0F) OR (gran AND 0xF0),
      base_high = ucast (drop_bit 24 base AND 0xFF)\<rparr>"

lemma gdt_set_entry_eq:
  assumes "0 \<le> num" "num < int (length (gdt s))"
  shows "gdt_set_entry num base limit acc gran s =
    Inr (s\<lparr>gdt := (gdt s)[nat num := encode_entry base limit acc gran]\<rparr>)"
  using assms by (cases "gdt s ! nat num") (simp add: gdt_set_entry_def encode_entry_def)

lemmas entry_bits = encode_entry_def bit_packed bit_or_iff bit_and_iff bit_push_bit_iff bit_take_bit_iff
  bit_drop_bit_eq bit_unsigned_iff mask_bits

lemma decode_entry:
  "desc_base (packed (encode_entry base limit acc gran)) = base"
  "desc_raw_limit (packed (encode_entry base limit acc gran)) = limit AND 0xFFFFF"
  "desc_access (packed (encode_entry base limit acc gran)) = acc"
  "k < 4 \<Longrightarrow> bit (packed (encode_entry base limit acc gran)) (52 + k) \<longleftrightarrow> bit gran (4 + k)"
proof -
  show "desc_base (packed (encode_entry base limit acc gran)) = base"
    by (rule bit_word_eqI) (auto simp: desc_base_def entry_bits)
  have m: "(0xFFFFF :: u32) = mask 20" by (simp add: mask_eq_exp_minus_1)
  show "desc_raw_limit (packed (encode_entry base limit acc gran)) = limit AND 0xFFFFF"
    unfolding m by (rule bit_word_eqI) (auto simp: desc_raw_limit_def entry_bits bit_mask_iff)
  show "desc_access (packed (encode_entry base limit acc gran)) = acc"
    by (rule bit_word_eqI) (auto simp: desc_access_def entry_bits)
  show "k < 4 \<Longrightarrow> bit (packed (encode_entry base limit acc gran)) (52 + k) \<longleftrightarrow> bit gran (4 + k)"
    by (auto simp: entry_bits dest: bit_imp_le_length)
qed

section \<open>Properties\<close>

text \<open>
  C25. Encoding and decoding agree: for an index of the table, \<^verbatim>\<open>gdt_set_entry\<close> stores an entry
  whose eight bytes the processor reads as exactly the base, the low 20 bits of the limit, the
  access byte and the upper four flag bits it was given, and leaves every other entry alone; any
  other index is an access outside the array.
\<close>

theorem gdt_set_entry_roundtrip:
  "if 0 \<le> num \<and> num < int (length (gdt s))
   then \<exists>t. gdt_set_entry num base limit acc gran s = Inr t \<and>
     desc_base (packed (gdt t ! nat num)) = base \<and>
     desc_raw_limit (packed (gdt t ! nat num)) = limit AND 0xFFFFF \<and>
     desc_access (packed (gdt t ! nat num)) = acc \<and>
     drop_bit 4 (granularity (gdt t ! nat num)) = drop_bit 4 gran \<and>
     (\<forall>i. i \<noteq> nat num \<longrightarrow> gdt t ! i = gdt s ! i) \<and> length (gdt t) = length (gdt s)
   else gdt_set_entry num base limit acc gran s = Inl Out_of_bounds"
proof (cases "0 \<le> num \<and> num < int (length (gdt s))")
  case True
  have "drop_bit 4 (granularity (encode_entry base limit acc gran)) = drop_bit 4 gran"
    by (rule bit_word_eqI) (auto simp: entry_bits dest: bit_imp_le_length)
  with True show ?thesis by (simp add: gdt_set_entry_eq decode_entry nat_less_iff)
next
  case False
  then show ?thesis by (auto simp: gdt_set_entry_def)
qed

text \<open>A table before it is set up.\<close>

definition gdt_reset :: gdt_state where
  "gdt_reset = \<lparr>klog = [], gdt = replicate 3 (encode_entry 0 0 0 0), gp = \<lparr>gp_limit = 0, gp_base = 0\<rparr>,
     gdtr = \<lparr>gp_limit = 0, gp_base = 0\<rparr>, cs = 0, ds = 0, es = 0, fs = 0, gs = 0, ss = 0\<rparr>"

theorem gdt_set_entry_roundtrip_witness:
  "\<exists>t. gdt_set_entry 1 0x12345678 0xFFFFFFFF 0x9A 0xCF gdt_reset = Inr t \<and>
     desc_base (packed (gdt t ! 1)) = 0x12345678 \<and> desc_access (packed (gdt t ! 1)) = 0x9A"
  using gdt_set_entry_roundtrip[of 1 gdt_reset "0x12345678" "0xFFFFFFFF" "0x9A" "0xCF"]
  by (auto simp: gdt_reset_def)

text \<open>A descriptor that covers the whole address space at privilege level 0.\<close>

definition flat_segment :: "u64 \<Rightarrow> bool" where
  "flat_segment d \<longleftrightarrow> desc_base d = 0 \<and> desc_limit d = 0xFFFFFFFF \<and> desc_access d AND 0x60 = 0"

lemma flat_entry:
  assumes "acc AND 0x60 = 0"
  shows "flat_segment (packed (encode_entry 0 0xFFFFFFFF acc 0xCF))"
proof -
  have "bit (packed (encode_entry 0 0xFFFFFFFF acc 0xCF)) 55"
    using decode_entry(4)[of 3 0 "0xFFFFFFFF" acc "0xCF"] by simp
  then show ?thesis using assms by (simp add: flat_segment_def desc_limit_def decode_entry)
qed

text \<open>What it prints, and the state it leaves.\<close>

definition gdt_report :: "u32 \<Rightarrow> out_call list" where
  "gdt_report gp_addr =
     [Printf_call (''Setting up GDT for higher half kernel...'' @ NL) [], Printf_call (''GDT location: %x'' @ NL) [Va_int gp_addr],
      Printf_call (''GDT loaded successfully. Running self test...'' @ NL) []] @
     map (\<lambda>(name, v). Printf_call (name @ '' selector value: %x, expected value: %x'' @ NL) [Va_int v, Va_int v])
       [(''CS'', 8), (''GS'', 16), (''DS'', 16), (''ES'', 16), (''FS'', 16), (''SS'', 16)] @
     [Printf_call (''GDT setup and test complete!'' @ NL) []]"

lemma setup_gdt_result:
  assumes "length (gdt s) = 3"
  defines "flat \<equiv> [encode_entry 0 0 0 0, encode_entry 0 0xFFFFFFFF 0x9A 0xCF, encode_entry 0 0xFFFFFFFF 0x92 0xCF]"
  shows "\<exists>t. setup_gdt gdt_addr gp_addr s = Inr t \<and> gdtr t = \<lparr>gp_limit = 23, gp_base = gdt_addr\<rparr> \<and>
    gdt t = flat \<and> cs t = 8 \<and> ds t = 16 \<and> es t = 16 \<and> fs t = 16 \<and> gs t = 16 \<and> ss t = 16 \<and>
    klog t = klog s @ gdt_report gp_addr"
proof -
  have l: "(gdt s)[0 := flat ! 0, Suc 0 := flat ! 1, 2 := flat ! 2] = flat"
    using assms by (auto simp: length_Suc_conv numeral_3_eq_3 numeral_2_eq_2)
  have "code_segment (packed (flat ! 1))" "data_segment (packed (flat ! 2))"
    by (simp_all add: flat_def code_segment_def data_segment_def decode_entry)
  then show ?thesis
    using assms(1) l
    by (auto simp: setup_gdt_def Let_def gdt_set_entry_eq load_segment_def descriptor_def
        check_register_def log_printf_def gdt_report_def flat_def)
qed



end
