(* ===== verification/Boot.thy ===== *)
theory Boot
  imports Kernel Multiboot Gdt Paging_Boot
begin

text \<open>
  The bootstrap of \<^verbatim>\<open>src/kernel/arch/i386/boot.S\<close> as a whole: from the entry point, in physical mode, over
  the jump to the higher half and the calls into the C code, to the final halt. The addresses the
  linker assigns are arguments, and so is \<^verbatim>\<open>_init\<close>, most of which the compiler supplies.
\<close>

section \<open>The machine\<close>

text \<open>The console and paging of the kernel, and the descriptor table with the segment registers.\<close>

record boot_machine = "paging_state machine_state" +
  segments :: gdt_state

record boot_symbols = link_symbols +
  boot_page_directory :: u32
  boot_page_table1 :: u32
  boot_message :: u32
  page_tables_setup :: u32
  higher_half_message :: u32
  gdt_address :: u32
  gp_address :: u32

section \<open>Physical mode\<close>

text \<open>
  The string stores of \<^verbatim>\<open>setup_page_tables\<close> leave \<^verbatim>\<open>%edi\<close> behind the last word stored, and nothing restores
  it: the pointer that the entry has saved there is lost. \<^verbatim>\<open>%esi\<close> keeps the magic number. Here
  \<open>magic\<close> and \<open>info\<close> are what the boot loader passes in \<^verbatim>\<open>%eax\<close> and \<^verbatim>\<open>%ebx\<close>.
\<close>

definition multiboot_entry :: "boot_symbols \<Rightarrow> u32 \<Rightarrow> u32 \<Rightarrow> paging_state \<Rightarrow> (u32 \<times> u32 \<times> paging_state) res" where
  "multiboot_entry l magic info p =
     (let di = info; si = magic
      in bindE (boot_paging (boot_page_directory l) (boot_page_table1 l) (boot_message l) (page_tables_setup l) p) (\<lambda>p.
         let di = boot_page_table1 l + 4 * 1024
         in Inr (si, di, p)))"

section \<open>The higher half\<close>

text \<open>
  \<^verbatim>\<open>early_virt_print_string\<close>, with paging on: the bytes from \<^verbatim>\<open>%ebx\<close> on are read, and the screen is written,
  through the page tables.
\<close>

partial_function (option) early_virt_print :: "u32 \<Rightarrow> u32 \<Rightarrow> u32 \<Rightarrow> paging_state \<Rightarrow> paging_state res option" where
  "early_virt_print bx cx dx p =
     (case vm_ld (bx + cx) p of Inl e \<Rightarrow> Some (Inl e)
      | Inr al \<Rightarrow>
          if al = 0 then Some (Inr p)
          else (case bindE (vm_st dx al p) (vm_st (dx + 1) 0x0E) of Inl e \<Rightarrow> Some (Inl e)
                | Inr p \<Rightarrow> early_virt_print bx (cx + 1) (dx + 2) p))"

definition early_virt_print_string :: "u32 \<Rightarrow> paging_state \<Rightarrow> paging_state res" where
  "early_virt_print_string bx p =
     (case early_virt_print bx 0 (0xB8000 + KERNEL_VIRTUAL_BASE) p of None \<Rightarrow> Inl No_return | Some r \<Rightarrow> r)"

text \<open>
  \<^verbatim>\<open>setup_gdt\<close> on the whole machine, each call of \<^verbatim>\<open>printf\<close> made where the code makes it; \<open>Gdt\<close> has it on
  the segments alone, with the calls recorded.
\<close>

definition check_register_io :: "device \<Rightarrow> string \<Rightarrow> u16 \<Rightarrow> u32 \<Rightarrow> boot_machine \<Rightarrow> boot_machine res" where
  "check_register_io dev name v expected =
     say dev (name @ '' selector value: %x, expected value: %x'' @ NL) [Va_int (ucast v), Va_int expected]"

definition setup_gdt_io :: "device \<Rightarrow> u32 \<Rightarrow> u32 \<Rightarrow> boot_machine \<Rightarrow> boot_machine res" where
  "setup_gdt_io dev gdt_addr gp_addr s =
     bindE (say dev (''Setting up GDT for higher half kernel...'' @ NL) [] s) (\<lambda>s.
     let g = (segments s)\<lparr>gp := \<lparr>gp_limit = 8 * 3 - 1, gp_base = gdt_addr\<rparr>\<rparr>
     in bindE (gdt_set_entry 0 0 0 0 0 g) (\<lambda>g.
     bindE (gdt_set_entry 1 0 0xFFFFFFFF GDT_CODE_SEGMENT_PL0 0xCF g) (\<lambda>g.
     bindE (gdt_set_entry 2 0 0xFFFFFFFF GDT_DATA_SEGMENT_PL0 0xCF g) (\<lambda>g.
     bindE (say dev (''GDT location: %x'' @ NL) [Va_int gp_addr] (s\<lparr>segments := g\<rparr>)) (\<lambda>s.
     let g = (segments s)\<lparr>gdtr := gp (segments s)\<rparr>;
         ax = ucast GDT_KERNEL_DATA_SEGMENT_SELECTOR
     in bindE (load_segment gdt_addr data_segment ax g) (\<lambda>_.
     let g = g\<lparr>ds := ax, es := ax, fs := ax, gs := ax, ss := ax\<rparr>
     in bindE (load_segment gdt_addr code_segment (ucast GDT_KERNEL_CODE_SEGMENT_SELECTOR) g) (\<lambda>_.
     let s = s\<lparr>segments := g\<lparr>cs := ucast GDT_KERNEL_CODE_SEGMENT_SELECTOR\<rparr>\<rparr>
     in bindE (say dev (''GDT loaded successfully. Running self test...'' @ NL) [] s) (\<lambda>s.
     bindE (check_register_io dev ''CS'' (cs (segments s)) GDT_KERNEL_CODE_SEGMENT_SELECTOR s) (\<lambda>s.
     bindE (check_register_io dev ''GS'' (gs (segments s)) GDT_KERNEL_DATA_SEGMENT_SELECTOR s) (\<lambda>s.
     bindE (check_register_io dev ''DS'' (ds (segments s)) GDT_KERNEL_DATA_SEGMENT_SELECTOR s) (\<lambda>s.
     bindE (check_register_io dev ''ES'' (es (segments s)) GDT_KERNEL_DATA_SEGMENT_SELECTOR s) (\<lambda>s.
     bindE (check_register_io dev ''FS'' (fs (segments s)) GDT_KERNEL_DATA_SEGMENT_SELECTOR s) (\<lambda>s.
     bindE (check_register_io dev ''SS'' (ss (segments s)) GDT_KERNEL_DATA_SEGMENT_SELECTOR s)
       (say dev (''GDT setup and test complete!'' @ NL) []))))))))))))))"

text \<open>
  From \<^verbatim>\<open>higher_half\<close> on: \<^verbatim>\<open>popf\<close> of a zero clears the interrupt flag. When \<^verbatim>\<open>kernel_main\<close> has panicked it
  does not return.
\<close>

definition higher_half ::
  "device \<Rightarrow> boot_symbols \<Rightarrow> cpu_regs \<Rightarrow> (boot_machine \<Rightarrow> boot_machine res) \<Rightarrow> u32 \<Rightarrow> u32 \<Rightarrow>
     boot_machine \<Rightarrow> boot_machine res" where
  "higher_half dev l r init si di s =
     bindE (early_virt_print_string (higher_half_message l) (vram s)) (\<lambda>p.
     let s = s\<lparr>vram := p, interrupt_flag := False\<rparr>
     in bindE (validate_boot vm_ld vm_st dev si di s) (\<lambda>s.
     bindE (setup_gdt_io dev (gdt_address l) (gp_address l) s) (\<lambda>s.
     bindE (init s) (\<lambda>s.
     bindE (terminal_initialize vm_ld vm_st dev (cr0 (vram s)) s) (\<lambda>s.
     bindE (kernel_main dev (link_symbols.truncate l) r s) (\<lambda>s.
     if halted s then Inr s
     else bindE (say dev ''System halted.'' [] s) (\<lambda>s. Inr (s\<lparr>halted := True\<rparr>))))))))"

definition boot ::
  "device \<Rightarrow> boot_symbols \<Rightarrow> cpu_regs \<Rightarrow> (boot_machine \<Rightarrow> boot_machine res) \<Rightarrow> u32 \<Rightarrow> u32 \<Rightarrow>
     boot_machine \<Rightarrow> boot_machine res" where
  "boot dev l r init magic info s =
     bindE (multiboot_entry l magic info (vram s)) (\<lambda>(si, di, p).
     higher_half dev l r init si di (s\<lparr>vram := p\<rparr>))"

end
