(* ===== verification/Kernel_Calls.thy ===== *)
theory Kernel_Calls
  imports Kernel Stdio_Screen Debug_Format
begin

text \<open>
  What the proofs about the kernel's calls need of single operations: that the arguments of an
  output call fit its format, and that the operations of \<open>Kernel_Paging\<close> change the paging system as
  those of \<open>Paging\<close> do, except for the record of output.
\<close>

section \<open>Arguments that fit their formats\<close>

text \<open>A conversion of a number makes at most twelve characters of two.\<close>

primrec va_short :: "va_arg \<Rightarrow> bool" where
  "va_short (Va_int v) \<longleftrightarrow> True"
| "va_short (Va_str p) \<longleftrightarrow> (case p of None \<Rightarrow> True | Some str \<Rightarrow> length str \<le> 12)"

lemma conv_short:
  assumes "conv_string f a = Some out" "va_short a"
  shows "length out \<le> 12"
proof (cases a)
  case (Va_int v)
  have "length (int_string (sint v)) \<le> 11"
    using sint_ge[of v] sint_lt[of v] by (intro int_string_length) simp_all
  moreover have "out \<in> {[char_of (unat v)], int_string (sint v), number_string digit_upper 10 (unat v), ''(nil)'',
      ''0x'' @ number_string digit_upper 16 (unat v)}"
    using assms(1) unfolding Va_int conv_string.simps
    by (simp only: option.inject option.distinct insert_iff split: if_split_asm) blast+
  ultimately show ?thesis using decimal_u32[of v] hex_u32[of v] by auto
next
  case (Va_str p)
  then show ?thesis
    using assms le_trans[OF length_takeWhile_le] by (auto simp: cstr_def split: if_splits option.splits)
qed

lemma render_short:
  "render format args = Some out \<Longrightarrow> \<forall>a\<in>set args. va_short a \<Longrightarrow> length out \<le> 12 * length format"
proof (induction format args arbitrary: out rule: render.induct)
  case (3 c f format args)
  then show ?case using conv_short by (fastforce split: if_splits list.splits option.splits)
qed simp_all

lemma printf_args_ok:
  assumes "render (cstr format) args \<noteq> None" "\<forall>a\<in>set args. va_short a" "12 * length format \<le> 2147483647"
  obtains out where "render (cstr format) args = Some out" "int (length out) \<le> INT_MAX"
proof -
  obtain out where out: "render (cstr format) args = Some out" using assms(1) by blast
  have "length (cstr format) \<le> length format" by (simp add: cstr_def length_takeWhile_le)
  with render_short[OF out assms(2)] assms(3) show thesis by (intro that[OF out]) simp
qed

section \<open>The record of output plays no part in the accesses\<close>

lemma translate_klog [simp]: "mmu_translate (p\<lparr>klog := l\<rparr>) va = mmu_translate p va"
  by (simp add: mmu_translate_def split: option.splits)

lemma vm_st_klog: "vm_st a b p = Inr q \<Longrightarrow> vm_st a b (p\<lparr>klog := l\<rparr>) = Inr (q\<lparr>klog := l\<rparr>)"
  by (auto simp: vm_st_def split: option.splits)

lemma st32_klog:
  assumes "st32 vm_st a v p = Inr q"
  shows "st32 vm_st a v (p\<lparr>klog := l\<rparr>) = Inr (q\<lparr>klog := l\<rparr>)"
proof -
  obtain p1 p2 p3 where "vm_st a (ucast v) p = Inr p1" "vm_st (a + 1) (ucast (drop_bit 8 v)) p1 = Inr p2"
    "vm_st (a + 2) (ucast (drop_bit 16 v)) p2 = Inr p3" "vm_st (a + 3) (ucast (drop_bit 24 v)) p3 = Inr q"
    using assms unfolding st32_def bindE_Inr_iff by blast
  from this[THEN vm_st_klog[where l = l]] show ?thesis by (simp add: st32_def)
qed

lemma for_rangeE_klog:
  assumes "for_rangeE i n f p = Inr q" and "\<And>i p q. f i p = Inr q \<Longrightarrow> f i (p\<lparr>klog := l\<rparr>) = Inr (q\<lparr>klog := l\<rparr>)"
  shows "for_rangeE i n f (p\<lparr>klog := l\<rparr>) = Inr (q\<lparr>klog := l\<rparr>)"
  using assms
proof (induction i n f p rule: for_rangeE.induct)
  case (1 i n f p)
  show ?case
  proof (cases "i < n")
    case True
    with "1.prems"(1) obtain q' where q': "f i p = Inr q'" "for_rangeE (i + 1) n f q' = Inr q"
      by (subst (asm) for_rangeE.simps) (auto simp: bindE_Inr_iff)
    from "1.IH"[OF True q' "1.prems"(2)] True "1.prems"(2)[OF q'(1)] show ?thesis
      by (subst for_rangeE.simps) simp
  next
    case False
    with "1.prems"(1) show ?thesis by (simp add: for_rangeE.simps)
  qed
qed

lemma memset_klog: "memset vm_st a v n p = Inr (r, q) \<Longrightarrow> memset vm_st a v n (p\<lparr>klog := l\<rparr>) = Inr (r, q\<lparr>klog := l\<rparr>)"
  unfolding memset_def by (auto simp: bindE_Inr_iff intro!: for_rangeE_klog vm_st_klog)

section \<open>Frames\<close>

lemma set_frame_silent:
  assumes "unat a div 4096 < 16384"
  shows "set_frame_io dev a s = Inr (s\<lparr>vram := set_frame a (vram s)\<rparr>)"
    and "(set_frame a p)\<lparr>klog := l\<rparr> = set_frame a (p\<lparr>klog := l\<rparr>)"
  using assms frame_index(3)[of a] by (simp_all add: set_frame_io_def set_frame_def Let_def)

lemma clear_frame_silent:
  assumes "unat a div 4096 < 16384"
  shows "clear_frame_io dev a s = Inr (s\<lparr>vram := clear_frame a (vram s)\<rparr>)"
    and "(clear_frame a p)\<lparr>klog := l\<rparr> = clear_frame a (p\<lparr>klog := l\<rparr>)"
  using assms frame_index(3)[of a] by (simp_all add: clear_frame_io_def clear_frame_def Let_def)

lemma alloc_frame_found:
  assumes "alloc_frame p = (a, p1)" "a \<noteq> 0"
  obtains fr where "find_range 0 BITMAP_SIZE (free_in_word (frame_bitmap p)) = Some fr" "fr \<noteq> - 1" "a = fr * PAGE_SIZE"
    "p1 = set_frame a (log_debug DEBUG_LEVEL_DEBUG ''Allocated frame at physical address %x'' [Va_int a] p)"
  using assms by (auto simp: alloc_frame_def first_free_frame_def Let_def split: option.splits if_splits)

text \<open>Marking a range inside the bitmap prints nothing.\<close>

lemma mark_frames_silent:
  "unat to \<le> 0x4000000 \<Longrightarrow>
     mark_frames_io dev from to s = map_option (\<lambda>p. Inr (s\<lparr>vram := p\<rparr>)) (mark_frames from to (vram s))"
proof (induction "unat to - unat from" arbitrary: "from" s rule: less_induct)
  case less
  show ?case
  proof (cases "from < to")
    case True
    then have lt: "unat from < unat to" by (simp add: word_less_nat_alt)
    then have u: "unat (from + PAGE_SIZE) = unat from + 4096" using less.prems by (simp add: unat_word_ariths)
    have "unat from div 4096 < 16384" using lt less.prems by simp
    note set = set_frame_silent(1)[OF this, of dev s]
    have "mark_frames_io dev (from + PAGE_SIZE) to (s\<lparr>vram := set_frame from (vram s)\<rparr>) =
        map_option (\<lambda>p. Inr (s\<lparr>vram := p\<rparr>)) (mark_frames (from + PAGE_SIZE) to (set_frame from (vram s)))"
      using less.hyps[of "from + PAGE_SIZE" "s\<lparr>vram := set_frame from (vram s)\<rparr>"] lt u less.prems by simp
    with True set show ?thesis by (subst mark_frames_io.simps, subst mark_frames.simps) simp
  next
    case False
    then show ?thesis by (subst mark_frames_io.simps, subst mark_frames.simps) simp
  qed
qed

end
