(* ===== verification/Console.thy ===== *)
theory Console
  imports Tty_Props
begin

text \<open>
  Sequences of output calls on the paged screen. Each debug or \<^verbatim>\<open>printf\<close> call shows one line or string
  and keeps the rest of the state, so that a sequence of calls shows the sequence of their texts; the
  rules here let a proof go through a sequence one call at a time.
\<close>

section \<open>Debug calls\<close>

definition log_line :: "int \<Rightarrow> string \<Rightarrow> va_arg list \<Rightarrow> string" where
  "log_line level format args = (case vpieces (cstr format) args of None \<Rightarrow> [] | Some ps \<Rightarrow> log_text level ps)"

text \<open>What a debug call shows when it is made in state \<open>s\<close>.\<close>

definition show_line ::
  "('m, 'a) debug_state_scheme \<Rightarrow> int \<Rightarrow> string \<Rightarrow> va_arg list \<Rightarrow> term_view \<Rightarrow> term_view" where
  "show_line s level format args v =
     (if level \<le> debug_level s
      then view_log (debug_target s) (terminal_serial_output s) (terminal_color s) (log_line level format args) v
      else v)"

text \<open>The state after calls that showed \<open>F\<close>, seen from the state \<open>s0\<close> before them.\<close>

definition shown ::
  "device \<Rightarrow> uart \<Rightarrow> (paging_state, 'a) debug_state_scheme \<Rightarrow> (term_view \<Rightarrow> term_view) \<Rightarrow>
     (paging_state, 'a) debug_state_scheme \<Rightarrow> bool" where
  "shown dev u s0 F s \<longleftrightarrow> vga_paged.log_ok (vram s0) dev u F s0 s"

text \<open>What a console on the booted system has: the screen mapped, the cursor on it, a live line.\<close>

definition console_inv :: "device \<Rightarrow> uart \<Rightarrow> (paging_state, 'a) debug_state_scheme \<Rightarrow> bool" where
  "console_inv dev u s \<longleftrightarrow> run_inv (vram s, {0xB8000}) \<and> terminal_buffer s = 0xC00B8000 \<and>
     terminal_row s < 25 \<and> terminal_column s < 80 \<and> log_ready dev u s"

lemma shown_start: "console_inv dev u s \<Longrightarrow> shown dev u s (\<lambda>v. v) s"
  using vga_mapped_start[of "vram s" "{0xB8000}"]
  by (simp add: shown_def console_inv_def vga_paged.log_ok_def vga_paged.term_ok_def)

lemma shown_inv: "shown dev u s0 F s \<Longrightarrow> run_inv (vram s0, {0xB8000}) \<Longrightarrow> console_inv dev u s"
  using vga_mapped_kept(1)[of "vram s0" "vram s"]
  by (simp add: shown_def console_inv_def vga_paged.log_ok_def vga_paged.term_ok_def)

lemma shown_view:
  "shown dev u s0 F s \<Longrightarrow> term_view_of (\<lambda>s a. phys_mem s (V2P a)) u s = F (term_view_of (\<lambda>s a. phys_mem s (V2P a)) u s0)"
  by (simp add: shown_def vga_paged.log_ok_def)

lemma shown_memory: "shown dev u s0 F s \<Longrightarrow> vga_mapped (vram s0) (vram s)"
  by (simp add: shown_def vga_paged.log_ok_def vga_paged.term_ok_def)

lemma shown_fields:
  assumes "shown dev u s0 F s"
  shows "debug_level s = debug_level s0" "debug_target s = debug_target s0" "terminal_color s = terminal_color s0"
    "terminal_serial_output s = terminal_serial_output s0" "putchar_serial_output s = putchar_serial_output s0"
    "serial_output_enabled s = serial_output_enabled s0" "debug_initialized s = debug_initialized s0"
    "debug_state.more s = debug_state.more s0"
  using assms by (simp_all add: shown_def vga_paged.log_ok_def)

text \<open>One debug call of a sequence.\<close>

lemma debug_call:
  assumes s: "shown dev u s0 F s" and p: "vpieces (cstr format) args \<noteq> None"
  shows "\<exists>t. debug_format_and_write vm_ld vm_st dev level format args s = Inr t \<and>
    shown dev u s0 (\<lambda>v. show_line s0 level format args (F v)) t"
proof -
  obtain ps where ps: "vpieces (cstr format) args = Some ps" using p by blast
  have ok: "vga_paged.term_ok (vram s0) s" "log_ready dev u s"
    using s by (simp_all add: shown_def vga_paged.log_ok_def)
  show ?thesis
  proof (cases "level \<le> debug_level s")
    case False
    then show ?thesis using s shown_fields[OF s] by (simp add: debug_format_and_write_def show_line_def)
  next
    case True
    from vga_paged.debug_line_logs[OF ok ps True] obtain t where
      t: "debug_format_and_write vm_ld vm_st dev level format args s = Inr t"
        "vga_paged.log_ok (vram s0) dev u (view_log (debug_target s) (terminal_serial_output s) (terminal_color s)
          (log_text level ps)) s t" by blast
    have "shown dev u s0 (\<lambda>v. show_line s0 level format args (F v)) t"
      using vga_paged.log_ok_trans[OF s[unfolded shown_def] t(2)] True shown_fields[OF s]
      by (simp add: shown_def show_line_def log_line_def ps)
    with t(1) show ?thesis by blast
  qed
qed

text \<open>The same as a rule that goes through a sequence.\<close>

lemma debug_step:
  assumes "shown dev u s0 F s" and "vpieces (cstr format) args \<noteq> None"
    and "\<And>t. shown dev u s0 (\<lambda>v. show_line s0 level format args (F v)) t \<Longrightarrow> \<exists>t'. k t = Inr t' \<and> R t'"
  shows "\<exists>t'. bindE (debug_format_and_write vm_ld vm_st dev level format args s) k = Inr t' \<and> R t'"
proof -
  obtain t where "debug_format_and_write vm_ld vm_st dev level format args s = Inr t"
    "shown dev u s0 (\<lambda>v. show_line s0 level format args (F v)) t"
    using debug_call[OF assms(1,2)] by blast
  with assms(3)[of t] show ?thesis by simp
qed

text \<open>A list of calls at one level.\<close>

primrec debug_calls ::
  "(u32 \<Rightarrow> 'm \<Rightarrow> u8 res) \<Rightarrow> (u32 \<Rightarrow> u8 \<Rightarrow> 'm \<Rightarrow> 'm res) \<Rightarrow> device \<Rightarrow> int \<Rightarrow> (string \<times> va_arg list) list \<Rightarrow>
     ('m, 'a) debug_state_scheme \<Rightarrow> ('m, 'a) debug_state_scheme res" where
  "debug_calls ld st dev level [] s = Inr s"
| "debug_calls ld st dev level (c # cs) s =
     bindE (debug_format_and_write ld st dev level (fst c) (snd c) s) (debug_calls ld st dev level cs)"

lemma debug_calls_shown:
  assumes "shown dev u s0 F s" and "\<forall>(f, a)\<in>set cs. vpieces (cstr f) a \<noteq> None"
  shows "\<exists>t. debug_calls vm_ld vm_st dev level cs s = Inr t \<and>
    shown dev u s0 (\<lambda>v. fold (\<lambda>(f, a). show_line s0 level f a) cs (F v)) t"
  using assms
proof (induction cs arbitrary: F s)
  case (Cons c cs)
  have cs: "\<forall>(f, a)\<in>set cs. vpieces (cstr f) a \<noteq> None" and c: "vpieces (cstr (fst c)) (snd c) \<noteq> None"
    using Cons.prems(2) by (auto simp: case_prod_beta)
  show ?case
    unfolding debug_calls.simps
    by (rule debug_step[OF Cons.prems(1) c]) (use Cons.IH[OF _ cs] in \<open>simp add: case_prod_beta\<close>)
qed simp

end
