(* ===== verification/Kernel_Run.thy ===== *)
theory Kernel_Run
  imports Kernel_Calls Console
begin

text \<open>
  Reasoning about sequences of kernel calls: while the terminal mirrors to the serial line, every
  output call appends to what has been sent. The rules are stated over the part of the paging state
  a sequence relies on, which writing to the screen must not disturb.
\<close>

section \<open>What has been sent\<close>

definition serial_text :: "string \<Rightarrow> u8 list" where
  "serial_text str = concat (map crlf str)"

text \<open>The texts of a list occur in what was sent, in this order.\<close>

fun appear :: "string list \<Rightarrow> u8 list \<Rightarrow> bool" where
  "appear [] y \<longleftrightarrow> True"
| "appear (x # xs) y \<longleftrightarrow> (\<exists>a b. y = a @ serial_text x @ b \<and> appear xs b)"

lemma appear_grow: "appear xs y \<Longrightarrow> appear xs (y @ z)"
proof (induction xs arbitrary: y)
  case (Cons x xs)
  then obtain a b where "y = a @ serial_text x @ b" "appear xs b" by auto
  then have "y @ z = a @ serial_text x @ (b @ z)" "appear xs (b @ z)" using Cons.IH by simp_all
  then show ?case unfolding appear.simps by blast
qed simp

lemma appear_snoc: "appear xs y \<Longrightarrow> appear (xs @ [x]) (y @ serial_text x)"
proof (induction xs arbitrary: y)
  case Nil
  show ?case by (auto intro: exI[of _ y])
next
  case (Cons w xs)
  then obtain a b where "y = a @ serial_text w @ b" "appear xs b" by auto
  then have "y @ serial_text x = a @ serial_text w @ (b @ serial_text x)"
    "appear (xs @ [x]) (b @ serial_text x)" using Cons.IH by simp_all
  then show ?case unfolding append.simps appear.simps by blast
qed

lemma wire_show [simp]: "wire (view_show color c v) = wire v"
  by (simp add: view_show_def view_advance_def view_next_row_def)

lemma wire_putchars: "wire (fold (view_putchar True color) str v) = wire v @ serial_text str"
  by (induction str arbitrary: v) (simp_all add: view_putchar_def serial_text_def Let_def)

lemma view_emit_mirror: "view_emit True p q color = view_putchar True color"
  by (simp add: fun_eq_iff view_emit_def Let_def)

section \<open>A speaking console\<close>

definition speaking :: "device \<Rightarrow> uart \<Rightarrow> (paging_state, 'a) debug_state_scheme \<Rightarrow> bool" where
  "speaking dev u s \<longleftrightarrow> terminal_buffer s = 0xC00B8000 \<and> terminal_row s < 25 \<and> terminal_column s < 80 \<and>
     log_ready dev u s \<and> terminal_serial_output s"

text \<open>Since \<open>s0\<close> the texts \<open>xs\<close> have been sent among others, and no setting has changed.\<close>

definition heard ::
  "uart \<Rightarrow> (paging_state, 'a) debug_state_scheme \<Rightarrow> string list \<Rightarrow> (paging_state, 'a) debug_state_scheme \<Rightarrow> bool" where
  "heard u s0 xs s \<longleftrightarrow>
     (\<exists>y. line (uart_after COM1_PORT u s) = line (uart_after COM1_PORT u s0) @ y \<and> appear xs y) \<and>
     terminal_serial_output s = terminal_serial_output s0 \<and> debug_level s = debug_level s0 \<and>
     debug_target s = debug_target s0 \<and> debug_state.more s = debug_state.more s0"

definition returns :: "'s res \<Rightarrow> ('s \<Rightarrow> bool) \<Rightarrow> bool" where
  "returns m Q \<longleftrightarrow> (\<exists>t. m = Inr t \<and> Q t)"

lemma returns_Inr [simp]: "returns (Inr t) Q \<longleftrightarrow> Q t"
  by (simp add: returns_def)

lemma returns_bind: "returns m Q \<Longrightarrow> (\<And>t. Q t \<Longrightarrow> returns (k t) R) \<Longrightarrow> returns (bindE m k) R"
  by (auto simp: returns_def)

lemma returns_mono: "returns m Q \<Longrightarrow> (\<And>t. Q t \<Longrightarrow> R t) \<Longrightarrow> returns m R"
  by (auto simp: returns_def)

text \<open>The state of a sequence of calls that relies on \<open>P\<close> of the paging state.\<close>

definition kernel_at ::
  "(paging_state \<Rightarrow> bool) \<Rightarrow> device \<Rightarrow> uart \<Rightarrow> 'a kernel_state_scheme \<Rightarrow> string list \<Rightarrow> 'a kernel_state_scheme \<Rightarrow> bool" where
  "kernel_at P dev u s0 xs s \<longleftrightarrow> P (vram s) \<and> speaking dev u s \<and> heard u s0 xs s"

lemma kernel_at_vram: "kernel_at B dev u s0 xs s \<Longrightarrow> P q \<Longrightarrow> kernel_at P dev u s0 xs (s\<lparr>vram := q\<rparr>)"
  unfolding kernel_at_def speaking_def heard_def log_ready_def uart_after_def by simp metis

lemma kernel_at_mono: "kernel_at P dev u s0 xs s \<Longrightarrow> Q (vram s) \<Longrightarrow> kernel_at Q dev u s0 xs s"
  by (simp add: kernel_at_def)

lemma kernel_at_holds: "kernel_at P dev u s0 xs s \<Longrightarrow> P (vram s)"
  by (simp add: kernel_at_def)

lemma kernel_at_target:
  "kernel_at P dev u s0 xs s \<Longrightarrow> kernel_at P dev u (s0\<lparr>debug_target := x\<rparr>) xs (debug_set_target x s)"
  unfolding kernel_at_def speaking_def heard_def log_ready_def uart_after_def debug_set_target_def by auto

lemma kernel_at_interrupts:
  assumes "kernel_at P dev u s0 xs s"
  shows "kernel_at P dev u (s0\<lparr>interrupt_flag := b\<rparr>) xs (s\<lparr>interrupt_flag := b\<rparr>)"
proof -
  have "debug_state.more (s\<lparr>interrupt_flag := b\<rparr>) = debug_state.more (s0\<lparr>interrupt_flag := b\<rparr>)"
    if "debug_state.more s = debug_state.more s0"
    using that by (cases s; cases s0) simp
  then show ?thesis
    using assms unfolding kernel_at_def speaking_def heard_def log_ready_def uart_after_def by auto
qed

text \<open>The mirror makes one text of what a call shows, of the lines of a dump too.\<close>

lemma view_log_mirror:
  "view_log target True color str = fold (view_putchar True color) (if target AND 1 \<noteq> 0 then str else [])"
  by (simp add: fun_eq_iff view_log_def)

lemma fold_texts: "fold (\<lambda>k. fold f (g k)) ks = fold f (concat (map g ks))"
  by (induction ks) simp_all

lemma dump_view_mirror:
  assumes "terminal_serial_output s"
  shows "\<exists>str. dump_view b sz s ks = fold (view_putchar True (terminal_color s)) str"
  unfolding dump_view_def using assms by (simp add: view_log_mirror fold_texts) blast

locale console_run =
  fixes P :: "paging_state \<Rightarrow> bool"
  assumes screen: "P p \<Longrightarrow> vga_mapped p p"
    and stable: "P p \<Longrightarrow> vga_mapped p q \<Longrightarrow> P q"
begin

lemma at_term_ok: "kernel_at P dev u s0 xs s \<Longrightarrow> vga_paged.term_ok (vram s) s \<and> log_ready dev u s"
  using screen by (simp add: kernel_at_def speaking_def vga_paged.term_ok_def)

text \<open>Output that shows the text \<open>str\<close> on the mirrored console.\<close>

lemma at_shown:
  assumes s: "kernel_at P dev u s0 xs s" and t: "vga_paged.term_ok (vram s) t" "log_ready dev u t"
    and v: "vga_paged.view u t = fold (view_putchar True (terminal_color s)) str (vga_paged.view u s)"
    and f: "terminal_serial_output t = terminal_serial_output s" "debug_level t = debug_level s"
      "debug_target t = debug_target s" "debug_state.more t = debug_state.more s"
  shows "kernel_at P dev u s0 xs t" "kernel_at P dev u s0 (xs @ [str]) t"
proof -
  have "wire (vga_paged.view u t) = wire (vga_paged.view u s) @ serial_text str"
    by (simp only: v wire_putchars)
  then have w: "line (uart_after COM1_PORT u t) = line (uart_after COM1_PORT u s) @ serial_text str"
    by (simp add: vga_paged.view_def)
  have p: "P (vram t)" using t(1) s stable by (auto simp: kernel_at_def vga_paged.term_ok_def)
  obtain y where "line (uart_after COM1_PORT u s) = line (uart_after COM1_PORT u s0) @ y" "appear xs y"
    using s by (auto simp: kernel_at_def heard_def)
  then have "heard u s0 xs t" "heard u s0 (xs @ [str]) t"
    using s f w appear_grow[of xs y "serial_text str"] appear_snoc[of xs y str]
    by (auto simp: kernel_at_def heard_def)
  then show "kernel_at P dev u s0 xs t" "kernel_at P dev u s0 (xs @ [str]) t"
    using p s t f by (auto simp: kernel_at_def speaking_def vga_paged.term_ok_def)
qed

text \<open>A debug call: it keeps the sequence going, and what it prints is heard if its level allows.\<close>

lemma at_debug:
  assumes s: "kernel_at P dev u s0 xs s" and p: "vpieces (cstr format) args \<noteq> None"
  shows "returns (debug_format_and_write vm_ld vm_st dev level format args s) (\<lambda>t. kernel_at P dev u s0 xs t \<and>
    (level \<le> debug_level s0 \<and> debug_target s0 AND 1 \<noteq> 0 \<longrightarrow> kernel_at P dev u s0 (xs @ [log_line level format args]) t))"
proof (cases "level \<le> debug_level s")
  case False
  then show ?thesis using s by (simp add: debug_format_and_write_def kernel_at_def heard_def)
next
  case True
  obtain ps where ps: "vpieces (cstr format) args = Some ps" using p by blast
  have m: "terminal_serial_output s" "debug_target s = debug_target s0"
    using s by (simp_all add: kernel_at_def speaking_def heard_def)
  note ok = at_term_ok[OF s]
  obtain t where t: "debug_format_and_write vm_ld vm_st dev level format args s = Inr t"
    "vga_paged.log_ok (vram s) dev u (view_log (debug_target s) (terminal_serial_output s) (terminal_color s)
      (log_text level ps)) s t"
    using vga_paged.debug_line_logs[OF conjunct1[OF ok] conjunct2[OF ok] ps True] by blast
  have "log_line level format args = log_text level ps" by (simp add: log_line_def ps)
  moreover have "vga_paged.view u t = fold (view_putchar True (terminal_color s))
      (if debug_target s0 AND 1 \<noteq> 0 then log_text level ps else []) (vga_paged.view u s)"
    using t(2) m by (simp add: vga_paged.log_ok_def view_log_mirror)
  ultimately show ?thesis
    using at_shown[OF s, of t "if debug_target s0 AND 1 \<noteq> 0 then log_text level ps else []"] t
    by (cases "debug_target s0 AND 1 = 0") (simp_all add: vga_paged.log_ok_def)
qed

lemma at_printf:
  assumes s: "kernel_at P dev u s0 xs s" and r: "render (cstr format) args = Some out" "int (length out) \<le> INT_MAX"
  shows "returns (say dev format args s) (\<lambda>t. kernel_at P dev u s0 xs t \<and> kernel_at P dev u s0 (xs @ [out]) t)"
proof -
  note ok = at_term_ok[OF s]
  have m: "terminal_serial_output s" using s by (simp_all add: kernel_at_def speaking_def)
  have c: "console_ok dev u s" using ok by (simp add: console_ok_def log_ready_def)
  obtain t where t: "printf vm_ld vm_st dev format args s = Inr (int (length out), t)"
    "vga_paged.emit_ok (vram s) dev u out s t"
    using vga_paged.printf_loop_emits[OF conjunct1[OF ok] c r(1), of 0] r(2) by (auto simp: printf_def)
  have more: "tty_state.more t = tty_state.more s" using t(2) by (simp add: vga_paged.emit_ok_def)
  then have f: "putchar_serial_output t = putchar_serial_output s" "serial_output_enabled t = serial_output_enabled s"
    "debug_level t = debug_level s" "debug_target t = debug_target s" "debug_buffer t = debug_buffer s"
    "debug_state.more t = debug_state.more s"
    by (cases s; cases t; simp)+
  have "log_ready dev u t"
    using t(2) ok m f by (simp add: vga_paged.emit_ok_def console_ok_def log_ready_def)
  then have "kernel_at P dev u s0 xs t" "kernel_at P dev u s0 (xs @ [out]) t"
    using t(2) m f by (auto intro!: at_shown[OF s] simp: vga_paged.emit_ok_def view_emit_mirror)
  then show ?thesis by (simp add: say_def t(1))
qed

text \<open>The same calls in front of the rest of a sequence; \<open>at_debug_tell\<close> keeps what was said.\<close>

lemma at_debug_last:
  assumes "kernel_at P dev u s0 xs s" "vpieces (cstr format) args \<noteq> None"
  shows "returns (debug_format_and_write vm_ld vm_st dev level format args s) (kernel_at P dev u s0 xs)"
  by (rule returns_mono[OF at_debug[OF assms]]) blast

lemma at_debug_step:
  assumes "kernel_at P dev u s0 xs s" "vpieces (cstr format) args \<noteq> None"
    and "\<And>t. kernel_at P dev u s0 xs t \<Longrightarrow> returns (k t) R"
  shows "returns (bindE (debug_format_and_write vm_ld vm_st dev level format args s) k) R"
  by (rule returns_bind[OF at_debug[OF assms(1,2)]]) (use assms(3) in blast)

lemma at_debug_tell:
  assumes "kernel_at P dev u s0 xs s" "vpieces (cstr format) args \<noteq> None" "level \<le> debug_level s0" "debug_target s0 AND 1 \<noteq> 0"
    and "\<And>t. kernel_at P dev u s0 (xs @ [log_line level format args]) t \<Longrightarrow> returns (k t) R"
  shows "returns (bindE (debug_format_and_write vm_ld vm_st dev level format args s) k) R"
  by (rule returns_bind[OF at_debug[OF assms(1,2)]]) (use assms(3-5) in blast)

lemma at_say:
  assumes "kernel_at P dev u s0 xs s"
    and "render (cstr format) args \<noteq> None" "\<forall>a\<in>set args. va_short a" "12 * length format \<le> 2147483647"
  shows "returns (say dev format args s) (kernel_at P dev u s0 xs)"
proof -
  obtain out where "render (cstr format) args = Some out" "int (length out) \<le> INT_MAX"
    using printf_args_ok[OF assms(2-4)] by blast
  from at_printf[OF assms(1) this] show ?thesis by (rule returns_mono) blast
qed

lemma at_say_step:
  assumes "kernel_at P dev u s0 xs s"
    and "render (cstr format) args \<noteq> None" "\<forall>a\<in>set args. va_short a" "12 * length format \<le> 2147483647"
    and "\<And>t. kernel_at P dev u s0 xs t \<Longrightarrow> returns (k t) R"
  shows "returns (bindE (say dev format args s) k) R"
  by (rule returns_bind[OF at_say[OF assms(1-4)] assms(5)])

lemma at_dump:
  assumes s: "kernel_at P dev u s0 xs s" and sz: "unat sz + 16 \<le> 2 ^ 32"
    and rd: "\<And>q k. vga_mapped (vram s) q \<Longrightarrow> k < sz \<Longrightarrow> vm_ld (data + k) q = Inr (b k)"
  shows "returns (debug_hex_dump vm_ld vm_st dev data sz s) (kernel_at P dev u s0 xs)"
proof -
  note ok = at_term_ok[OF s]
  have m: "terminal_serial_output s" using s by (simp add: kernel_at_def speaking_def)
  obtain t where t: "debug_hex_dump vm_ld vm_st dev data sz s = Inr t"
    "vga_paged.log_ok (vram s) dev u (dump_view b sz s [0..<(unat sz + 15) div 16]) s t"
    using vga_paged.dump_loop_logs[OF sz rd conjunct1[OF ok] conjunct2[OF ok] le0 refl]
    by (auto simp: debug_hex_dump_def)
  obtain str where "dump_view b sz s [0..<(unat sz + 15) div 16] = fold (view_putchar True (terminal_color s)) str"
    using dump_view_mirror[OF m] by blast
  with at_shown(1)[OF s, of t str] t show ?thesis by (simp add: vga_paged.log_ok_def)
qed

text \<open>A panic ends with interrupts off and the processor halted, its message sent.\<close>

lemma at_panic:
  assumes s: "kernel_at P dev u s0 xs s" and lev: "1 \<le> debug_level s0"
  shows "returns (panic vm_ld vm_st dev r message s) (\<lambda>t. halted t \<and> \<not> interrupt_flag t \<and> P (vram t) \<and>
    (\<exists>y. line (uart_after COM1_PORT u t) = line (uart_after COM1_PORT u s0) @ y \<and>
      appear (xs @ [log_line 1 ''PANIC: %s'' [Va_str (Some message)]]) y))"
proof -
  let ?s0 = "s0\<lparr>interrupt_flag := False, debug_target := 0xFF\<rparr>"
  have s': "kernel_at P dev u ?s0 xs (debug_set_target 0xFF (s\<lparr>interrupt_flag := False\<rparr>))"
    using kernel_at_target[OF kernel_at_interrupts[OF s]] by simp
  have l: "1 \<le> debug_level ?s0" "debug_target ?s0 AND 1 \<noteq> 0" using lev by simp_all
  have fin: "returns (Inr (t\<lparr>halted := True\<rparr>)) (\<lambda>t. halted t \<and> \<not> interrupt_flag t \<and> P (vram t) \<and>
      (\<exists>y. line (uart_after COM1_PORT u t) = line (uart_after COM1_PORT u s0) @ y \<and> appear ys y))"
    if "kernel_at P dev u ?s0 ys t" for t ys
    using that machine_fields(1)[of t ?s0] by (simp add: kernel_at_def heard_def uart_after_def)
  show ?thesis
    unfolding panic_def dump_registers_def debug_error_def Let_def bindE_assoc
    apply (rule at_debug_step[OF s'], simp add: cstr_def)
    apply (rule at_debug_step, assumption, simp add: cstr_def)
    apply (rule at_debug_step, assumption, simp add: cstr_def)
    apply (rule at_debug_tell, assumption, simp add: cstr_def, rule l, rule l)
    apply (rule at_debug_step, assumption, simp add: cstr_def)
    apply (rule at_debug_step, assumption, simp add: cstr_def)
    apply (rule at_debug_step, assumption, simp add: cstr_def)
    apply (rule at_debug_step, assumption, simp add: cstr_def)
    apply (rule at_debug_step, assumption, simp add: cstr_def)
    apply (rule at_debug_step, assumption, simp add: cstr_def)
    apply (erule fin)
    done
qed

lemma at_store:
  assumes "kernel_at B dev u s0 xs s" and "st32 vm_st a v (vram s) = Inr q" and "P q"
  shows "returns (store_word a v s) (kernel_at P dev u s0 xs)"
  using assms kernel_at_vram[where P = P, OF assms(1,3)] by (simp add: store_word_def)

end

section \<open>The running system\<close>

text \<open>
  What a sequence relies on once paging is set up: the invariant with the pages held, the frames in
  use, the translations, and an address that can be mapped.
\<close>

definition space :: "u32 set \<Rightarrow> nat set \<Rightarrow> (u32 \<Rightarrow> u32 option) \<Rightarrow> u32 \<Rightarrow> paging_state \<Rightarrow> bool" where
  "space held U T va p \<longleftrightarrow> run_inv (p, held) \<and> 0xB8000 \<in> held \<and> used p = U \<and> mmu_translate p = T \<and> mappable p va"

lemma space_memory:
  assumes p: "space held U T va p" and m: "\<And>a. a AND PAGE_FRAME \<notin> held \<Longrightarrow> m a = phys_mem p a"
  shows "space held U T va (p\<lparr>phys_mem := m\<rparr>)"
proof -
  have inv: "run_inv (p, held)" using p by (simp add: space_def)
  have "present (p\<lparr>phys_mem := m\<rparr>) j = present p j" "table_of (p\<lparr>phys_mem := m\<rparr>) j = table_of p j" if "j < 1024" for j
    using held_entries(1)[OF inv m that] by (simp_all add: present_def table_of_def)
  from this[OF pd_index_less[of va]] this(2)[of 768] have "mappable (p\<lparr>phys_mem := m\<rparr>) va = mappable p va"
    by (simp add: mappable_def)
  then show ?thesis
    using p memory_held[OF inv m] held_translate[OF inv m] by (simp add: space_def used_def)
qed

lemma space_klog [simp]: "space held U T va (p\<lparr>klog := l\<rparr>) = space held U T va p"
proof -
  have o: "only_logs p (p\<lparr>klog := l\<rparr>)" by (simp add: only_logs_def)
  have "present (p\<lparr>klog := l\<rparr>) = present p" "table_of (p\<lparr>klog := l\<rparr>) = table_of p"
    using entries_cong[of "p\<lparr>klog := l\<rparr>" p] by simp_all
  moreover have "mmu_translate (p\<lparr>klog := l\<rparr>) = mmu_translate p"
    by (intro ext) (simp add: mmu_translate_def split: option.splits)
  ultimately show ?thesis
    using only_logs_inv(1)[OF o] only_logs_inv(2)[OF o, of held] by (simp add: space_def run_inv_def used_def mappable_def)
qed

interpretation running: console_run "space held U T va" for held U T va
proof
  fix p q
  assume p: "space held U T va p"
  then show "vga_mapped p p" using vga_mapped_start[of p held] by (simp add: space_def)
  assume q: "vga_mapped p q"
  have "0xB8000 \<in> held" using p by (simp add: space_def)
  from space_memory[OF p screen_page[OF q this]] q show "space held U T va q" by (simp add: vga_mapped_def)
qed

end
