(* ===== verification/Kernel_Mapping.thy ===== *)
theory Kernel_Mapping
  imports Kernel_Run
begin

text \<open>
  The memory test of the kernel on the running system: each paging operation as a step from one
  description of the address space to the next, and the test as their composition.
\<close>

section \<open>Words in a held page\<close>

lemma page_bytes:
  assumes "va AND 0xFFF = (0 :: u32)" "k < 4096"
  shows "drop_bit 12 (va + k) = drop_bit 12 va"
proof -
  have "drop_bit 12 x = drop_bit 12 (x AND PAGE_FRAME)" for x :: u32
  proof (rule bit_word_eqI)
    fix n
    show "bit (drop_bit 12 x) n \<longleftrightarrow> bit (drop_bit 12 (x AND PAGE_FRAME)) n"
      using bit_imp_le_length[of x "12 + n"] by (auto simp: page_masks(1) bit_simps)
  qed
  note f = this
  show ?thesis by (subst f) (simp only: page_offset(1)[OF assms])
qed

lemma held_word:
  assumes inv: "run_inv (p, held)" and a: "a \<in> held" "a AND 0xFFF = 0" "va AND 0xFFF = 0"
    and t: "mmu_translate p va = Some a"
  shows "st32 vm_st va v p = Inr (p\<lparr>phys_mem := write32 a v (phys_mem p)\<rparr>)"
    and "ld32 vm_ld va p = Inr (read32 (phys_mem p) a)"
    and "c AND PAGE_FRAME \<notin> held \<Longrightarrow> write32 a v (phys_mem p) c = phys_mem p c"
proof -
  have pi: "paging_inv p" using inv by (simp add: run_inv_def)
  have tr: "mmu_translate p (va + k) = Some (a + k)" if "k < 4" for k
  proof -
    have k: "k < 4096" using that by (simp add: word_less_nat_alt)
    show ?thesis
      using walk_same_page[of p va a "va + k"] t page_bytes[OF a(3) k] page_offset(2)[OF a(3) k]
        page_aligned_frame[OF a(2)] by (simp add: inv_translate[OF pi])
  qed
  have pg: "(a + k) AND PAGE_FRAME = a" if "k < 4" for k
    using that by (intro page_offset(1)[OF a(2)]) (simp add: word_less_nat_alt)
  note four = tr[of 0] tr[of 1] tr[of 2] tr[of 3] pg[of 0] pg[of 1] pg[of 2] pg[of 3]
  have keep: "mmu_translate (p\<lparr>phys_mem := m\<rparr>) = mmu_translate p"
    if "\<And>c. c AND PAGE_FRAME \<notin> held \<Longrightarrow> m c = phys_mem p c" for m
    by (rule held_translate[OF inv that])
  have ne: "c \<noteq> a + k" if "c AND PAGE_FRAME \<notin> held" "k < 4" for c k using pg[OF that(2)] that(1) a(1) by auto
  have "mmu_translate (p\<lparr>phys_mem := (phys_mem p)(a := x)\<rparr>) = mmu_translate p"
    "mmu_translate (p\<lparr>phys_mem := (phys_mem p)(a := x, a + 1 := y)\<rparr>) = mmu_translate p"
    "mmu_translate (p\<lparr>phys_mem := (phys_mem p)(a := x, a + 1 := y, a + 2 := z)\<rparr>) = mmu_translate p" for x y z
    using ne[of _ 0] ne[of _ 1] ne[of _ 2] by (auto intro!: keep)
  then show "st32 vm_st va v p = Inr (p\<lparr>phys_mem := write32 a v (phys_mem p)\<rparr>)"
    using four by (simp add: st32_def vm_st_def write32_def)
  show "ld32 vm_ld va p = Inr (read32 (phys_mem p) a)"
    using four by (simp add: ld32_def vm_ld_def read32_def)
  show "c AND PAGE_FRAME \<notin> held \<Longrightarrow> write32 a v (phys_mem p) c = phys_mem p c"
    using ne[of c] by (intro write32_other) auto
qed

section \<open>What stays known across an output call\<close>

text \<open>
  Between two steps of one operation its output is written to the screen, so that what the first step
  found out must still hold for the second: the directory entry of the address, the bitmap and
  the directory in use.
\<close>

definition known ::
  "u32 set \<Rightarrow> nat set \<Rightarrow> (u32 \<Rightarrow> u32 option) \<Rightarrow> u32 \<Rightarrow> u32 \<times> u32 list \<times> u32 \<Rightarrow> paging_state \<Rightarrow> bool" where
  "known held U T va k p \<longleftrightarrow> space held U T va p \<and>
     (pd_entry p (drop_bit 22 va), frame_bitmap p, current_page_directory p) = k"

interpretation known: console_run "known held U T va k" for held U T va k
proof
  fix p q
  assume p: "known held U T va k p"
  then have sp: "space held U T va p" by (simp add: known_def)
  then show "vga_mapped p p" by (rule running.screen)
  assume q: "vga_mapped p q"
  have "q = p\<lparr>phys_mem := phys_mem q\<rparr>" using q by (simp add: vga_mapped_def)
  moreover have "pd_entry (p\<lparr>phys_mem := phys_mem q\<rparr>) (drop_bit 22 va) = pd_entry p (drop_bit 22 va)"
  proof -
    have h: "run_inv (p, held)" "0xB8000 \<in> held" using sp by (simp_all add: space_def)
    show ?thesis by (rule held_entries(1)[OF h(1) screen_page[OF q h(2)] pd_index_less])
  qed
  moreover have "frame_bitmap (p\<lparr>phys_mem := phys_mem q\<rparr>) = frame_bitmap p"
    "current_page_directory (p\<lparr>phys_mem := phys_mem q\<rparr>) = current_page_directory p" by simp_all
  ultimately have "pd_entry q (drop_bit 22 va) = pd_entry p (drop_bit 22 va)" "frame_bitmap q = frame_bitmap p"
    "current_page_directory q = current_page_directory p" by metis+
  with p running.stable[OF sp q] show "known held U T va k q" by (simp add: known_def)
qed

lemma at_known:
  assumes "kernel_at (space held U T va) dev u s0 xs s"
  shows "kernel_at (known held U T va (pd_entry (vram s) (drop_bit 22 va), frame_bitmap (vram s),
    current_page_directory (vram s))) dev u s0 xs s"
  using assms by (simp add: kernel_at_def known_def)

lemma at_unknown: "kernel_at (known held U T va k) dev u s0 xs s \<Longrightarrow> kernel_at (space held U T va) dev u s0 xs s"
  by (simp add: kernel_at_def known_def)

lemma space_inv:
  assumes "space held U T va p"
  shows "paging_inv p" "held_ok p held" "run_inv (p, held)" "bitmap_ok p" "used p = U" "mmu_translate p = T" "mappable p va"
  using assms unfolding space_def run_inv_def paging_inv_def by auto

section \<open>Steps\<close>

text \<open>
  An allocation: from a state \<open>q\<close> that is known, a frame of the window is marked. The rest of the
  operation that asked for it goes on from there as it does in \<open>Paging\<close>.
\<close>

definition allocated ::
  "u32 set \<Rightarrow> nat set \<Rightarrow> (u32 \<Rightarrow> u32 option) \<Rightarrow> u32 \<Rightarrow> u32 \<times> u32 list \<times> u32 \<Rightarrow> u32 \<Rightarrow> paging_state \<Rightarrow> bool" where
  "allocated held U T va k a p \<longleftrightarrow> (\<exists>q p1. known held U T va k q \<and> alloc_frame q = (a, p1) \<and> p = p1\<lparr>klog := klog q\<rparr>)"

lemma at_alloc:
  assumes s: "kernel_at (known held U T va k) dev u s0 xs s" and f: "f < 1024" "f \<notin> U"
  shows "returns (alloc_frame_io dev s) (\<lambda>(a, t). a \<noteq> 0 \<and> a < 0x400000 \<and> kernel_at (allocated held U T va k a) dev u s0 xs t)"
proof -
  let ?p = "vram s"
  have p: "known held U T va k ?p" using s by (rule kernel_at_holds)
  then have sp: "space held U T va ?p" by (simp add: known_def)
  obtain a p1 where al: "alloc_frame ?p = (a, p1)" "a \<noteq> 0" "a < 0x400000"
    using alloc_in_window[OF space_inv(1)[OF sp] f(1)] f(2) space_inv(5)[OF sp] by blast
  obtain fr where fr: "find_range 0 BITMAP_SIZE (free_in_word (frame_bitmap ?p)) = Some fr" "fr \<noteq> - 1" "a = fr * PAGE_SIZE"
    using alloc_frame_found[OF al(1,2)] by blast
  have "unat a < 0x400000" using al(3) by (simp add: word_less_nat_alt)
  then have r: "unat a div 4096 < 16384" by simp
  let ?l = "\<lambda>q. log_debug DEBUG_LEVEL_DEBUG ''Allocated frame at physical address %x'' [Va_int a] q"
  have found: "kernel_at (allocated held U T va k a) dev u s0 xs (t\<lparr>vram := set_frame a (vram t)\<rparr>)"
    if t: "kernel_at (known held U T va k) dev u s0 xs t" for t
  proof (rule kernel_at_vram[OF t])
    have q: "known held U T va k (vram t)" using t by (rule kernel_at_holds)
    then have "frame_bitmap (vram t) = frame_bitmap ?p" using p by (auto simp: known_def)
    then have "alloc_frame (vram t) = (a, set_frame a (?l (vram t)))"
      using fr by (simp add: alloc_frame_def first_free_frame_def Let_def)
    moreover have "set_frame a (vram t) = (set_frame a (?l (vram t)))\<lparr>klog := klog (vram t)\<rparr>"
      by (simp add: set_frame_silent(2)[OF r]) (simp add: log_debug_def)
    ultimately show "allocated held U T va k a (set_frame a (vram t))" using q unfolding allocated_def by blast
  qed
  show ?thesis
    unfolding alloc_frame_io_def first_free_frame_io_def debug_debug_def
    apply (simp add: fr(1,2) Let_def flip: fr(3))
    apply (rule known.at_debug_step[OF s])
     apply (simp add: cstr_def)
    apply (simp add: set_frame_silent(1)[OF r] al(2,3) found)
    done
qed


lemma space_relog: "space held U T va p \<Longrightarrow> space held U T va (p\<lparr>klog := l\<rparr>)"
  by simp

lemma at_kmalloc:
  assumes s: "kernel_at (space held U T va) dev u s0 xs s" and f: "f < 1024" "f \<notin> U"
  shows "returns (kmalloc_physical_page_io dev s) (\<lambda>(a, t). a \<notin> held \<and> frame_no a \<notin> U \<and> a AND 0xFFF = 0 \<and>
    kernel_at (space (insert a held) (insert (frame_no a) U) T va) dev u s0 xs t)"
proof -
  let ?k = "(pd_entry (vram s) (drop_bit 22 va), frame_bitmap (vram s), current_page_directory (vram s))"
  have fin: "returns (bindE (memset vm_st (P2V a) 0 PAGE_SIZE (vram t)) (\<lambda>(_, p). Inr (a, t\<lparr>vram := p\<rparr>)))
      (\<lambda>(a, t). a \<notin> held \<and> frame_no a \<notin> U \<and> a AND 0xFFF = 0 \<and>
        kernel_at (space (insert a held) (insert (frame_no a) U) T va) dev u s0 xs t)"
    if t: "kernel_at (allocated held U T va ?k a) dev u s0 xs t" "a \<noteq> 0" for a t
  proof -
    obtain q p1 where q: "known held U T va ?k q" "alloc_frame q = (a, p1)" "vram t = p1\<lparr>klog := klog q\<rparr>"
      using kernel_at_holds[OF t(1)] by (auto simp: allocated_def)
    then have sp: "space held U T va q" by (simp add: known_def)
    note inv = space_inv[OF sp]
    obtain a' r where k: "kmalloc_physical_page q = Inr (a', r)" "fresh_page q a' r" "paging_inv r"
      using kmalloc_ok[of q f] inv(1,5) f by auto
    then obtain x where m: "a' = a" "memset vm_st (P2V a) 0 PAGE_SIZE p1 = Inr (x, r)"
      using q(2) t(2) by (auto simp: kmalloc_physical_page_def bindE_Inr_iff)
    note k = k[unfolded m(1)]
    have a: "frame_no a \<notin> U" "a AND 0xFFF = 0" using k(2) inv(5) by (auto simp: fresh_page_def)
    then have "a \<notin> held" using inv(2,5) by (auto simp: held_ok_def)
    have "present r j = present q j \<and> table_of r j = table_of q j" if "j < 1024" for j
      using k(2) that by (simp add: fresh_page_def present_def table_of_def)
    then have "mappable r va = mappable q va" using pd_index_less[of va] by (simp add: mappable_def)
    then have "space (insert a held) (insert (frame_no a) U) T va r"
      using sp kmalloc_held[OF inv(3) f(1) _ k(1)] f(2) inv(5) k(2) by (simp add: space_def fresh_page_def)
    then have "kernel_at (space (insert a held) (insert (frame_no a) U) T va) dev u s0 xs (t\<lparr>vram := r\<lparr>klog := klog q\<rparr>\<rparr>)"
      by (intro kernel_at_vram[OF t(1)] space_relog)
    with a \<open>a \<notin> held\<close> show ?thesis by (simp add: q(3) memset_klog[OF m(2)])
  qed
  show ?thesis unfolding kmalloc_physical_page_io_def
    by (rule returns_bind[OF at_alloc[OF at_known[OF s] f]]) (use fin in \<open>auto split: prod.splits\<close>)
qed

text \<open>The page table of an address, found or created.\<close>

lemma space_directory:
  "space held U T va p \<Longrightarrow> ld32 vm_ld (cell (current_page_directory p) (drop_bit 22 va)) p = Inr (pd_entry p (drop_bit 22 va))"
  by (rule ld_directory[OF space_inv(1) pd_index_less])

lemma at_table_found:
  assumes s: "kernel_at (known held U T va k) dev u s0 xs s" and pr: "fst k AND PAGE_PRESENT \<noteq> 0"
  shows "returns (get_page_table_io dev va create s) (\<lambda>(tb, t). tb = P2V (fst k AND PAGE_FRAME) \<and>
    kernel_at (known held U T va k) dev u s0 xs t)"
proof -
  have k: "known held U T va k (vram s)" using s by (rule kernel_at_holds)
  then have ld: "ld32 vm_ld (cell (current_page_directory (vram s)) (drop_bit 22 va)) (vram s) = Inr (fst k)"
    using space_directory by (auto simp: known_def)
  show ?thesis
    unfolding get_page_table_io_def debug_trace_def Let_def ld bindE_simps if_P[OF pr]
    by (rule known.at_debug_step[OF s]) (simp_all add: cstr_def)
qed

lemma at_table_missing:
  assumes s: "kernel_at (known held U T va k) dev u s0 xs s" and ab: "fst k AND PAGE_PRESENT = 0"
  shows "returns (get_page_table_io dev va False s) (\<lambda>(tb, t). tb = 0 \<and> t = s)"
proof -
  have k: "known held U T va k (vram s)" using s by (rule kernel_at_holds)
  then have ld: "ld32 vm_ld (cell (current_page_directory (vram s)) (drop_bit 22 va)) (vram s) = Inr (fst k)"
    using space_directory by (auto simp: known_def)
  show ?thesis unfolding get_page_table_io_def Let_def ld bindE_simps using ab by simp
qed

lemma log_relog: "log_debug l f x p = p\<lparr>klog := klog (log_debug l f x p)\<rparr>"
  by (simp add: log_debug_def)

text \<open>A new table is entered: the part of \<^verbatim>\<open>get_page_table\<close> behind the allocation.\<close>

lemma new_table_space:
  assumes al: "allocated held U T va k a p" and ab: "fst k AND PAGE_PRESENT = 0" and a: "a \<noteq> 0" "a < 0x400000"
    and f: "f < 1024" "f \<notin> U"
  obtains p2 p3 k' U' T' where "memset vm_st (P2V a) 0 PAGE_SIZE p = Inr (P2V a, p2)"
    "st32 vm_st (cell (snd (snd k)) (drop_bit 22 va)) (a OR PAGE_PRESENT OR PAGE_WRITE) p2 = Inr p3"
    "known held U' T' va k' p3" "fst k' AND PAGE_PRESENT \<noteq> 0" "fst k' AND PAGE_FRAME = a"
    "U \<subseteq> U'" "\<exists>g. U' \<subseteq> insert g U" "\<forall>vb. drop_bit 22 vb \<noteq> 1023 \<longrightarrow> T' vb = T vb"
proof -
  let ?j = "drop_bit 22 va"
  obtain q p1 where q: "known held U T va k q" "alloc_frame q = (a, p1)" "p = p1\<lparr>klog := klog q\<rparr>"
    using al by (auto simp: allocated_def)
  then have sp: "space held U T va q" and kq: "pd_entry q ?j = fst k" "current_page_directory q = snd (snd k)"
    by (auto simp: known_def)
  note inv = space_inv[OF sp]
  have np: "\<not> present q ?j" using ab by (simp add: present_def kq)
  let ?n = "new_table ?j a p1"
  let ?w = "log_debug DEBUG_LEVEL_TRACE ''Created new page table at physical %x for address %x'' [Va_int a, Va_int va] ?n"
  have g: "get_page_table va True q = Inr (P2V a, ?w)" by (rule get_page_table_create[OF inv(1) np q(2) a])
  have "\<exists>p2 p3. memset vm_st (P2V a) 0 PAGE_SIZE p1 = Inr (P2V a, p2) \<and>
      st32 vm_st (cell (snd (snd k)) ?j) (a OR PAGE_PRESENT OR PAGE_WRITE) p2 = Inr p3 \<and>
      log_debug DEBUG_LEVEL_TRACE ''Created new page table at physical %x for address %x'' [Va_int a, Va_int va] p3 = ?w"
    using g space_directory[OF sp] ab a(1) q(2)
    by (auto simp: get_page_table_def Let_def kq bindE_Inr_iff memset_def)
  then obtain p2 p3 where p: "memset vm_st (P2V a) 0 PAGE_SIZE p1 = Inr (P2V a, p2)"
      "st32 vm_st (cell (snd (snd k)) ?j) (a OR PAGE_PRESENT OR PAGE_WRITE) p2 = Inr p3"
      "log_debug DEBUG_LEVEL_TRACE ''Created new page table at physical %x for address %x'' [Va_int a, Va_int va] p3 = ?w"
    by blast
  have "table_available q va" using f inv(5) by (auto simp: table_available_def)
  from get_page_table_ok[OF inv(1,7) this] obtain t where
    t: "get_page_table va True q = Inr (P2V (table_of t ?j), t)" "paging_inv t" "entry_ok t ?j (drop_bit 12 va AND 0x3FF)"
      "cr3 t = cr3 q" "\<forall>vb. drop_bit 22 vb \<noteq> 1023 \<longrightarrow> mmu_walk (phys_mem t) (cr3 q) vb = mmu_walk (phys_mem q) (cr3 q) vb"
      "tables_grow q t" by blast
  have e: "P2V (table_of t ?j) = P2V a \<and> t = ?w" using g unfolding t(1) sum.inject prod.inject .
  then have w: "t = ?w" "table_of t ?j = a" using V2P_P2V(1) by metis+
  have keep: "mmu_translate t vb = T vb" if "drop_bit 22 vb \<noteq> 1023" for vb
    using t(4,5) that by (simp add: inv_translate[OF t(2)] inv_translate[OF inv(1)] flip: inv(6))
  have "space held (used t) (mmu_translate t) va t"
    using sp t(2) held_ok_grow[OF inv(2) t(6)] mappable_grow[OF inv(1) t(6) inv(7)]
    by (simp add: space_def run_inv_def)
  moreover have "t = p3\<lparr>klog := klog t\<rparr>" unfolding w(1)
    using log_relog[of 5 "''Created new page table at physical %x for address %x''" "[Va_int a, Va_int va]" p3]
    unfolding p(3) .
  moreover have "pd_entry (p3\<lparr>klog := l\<rparr>) = pd_entry p3" for l by (simp add: pd_entry_def fun_eq_iff)
  ultimately have sp3: "space held (used t) (mmu_translate t) va (p3\<lparr>klog := klog q\<rparr>)"
    and e3: "pd_entry (p3\<lparr>klog := klog q\<rparr>) = pd_entry t" by (metis space_klog)+
  let ?k' = "(pd_entry t ?j, frame_bitmap (p3\<lparr>klog := klog q\<rparr>), current_page_directory (p3\<lparr>klog := klog q\<rparr>))"
  show thesis
  proof (rule that)
    show "memset vm_st (P2V a) 0 PAGE_SIZE p = Inr (P2V a, p2\<lparr>klog := klog q\<rparr>)"
      unfolding q(3) by (rule memset_klog[OF p(1)])
    show "st32 vm_st (cell (snd (snd k)) ?j) (a OR PAGE_PRESENT OR PAGE_WRITE) (p2\<lparr>klog := klog q\<rparr>) =
        Inr (p3\<lparr>klog := klog q\<rparr>)" by (rule st32_klog[OF p(2)])
    show "known held (used t) (mmu_translate t) va ?k' (p3\<lparr>klog := klog q\<rparr>)"
      using sp3 e3 by (simp add: known_def)
    show "fst ?k' AND PAGE_PRESENT \<noteq> 0" "fst ?k' AND PAGE_FRAME = a"
      using t(3) w(2) by (simp_all add: entry_ok_def present_def table_of_def)
    show "U \<subseteq> used t" "\<exists>g. used t \<subseteq> insert g U" using t(6) inv(5) by (auto simp: tables_grow_def)
  qed (use keep in blast)
qed

lemma at_table:
  assumes s: "kernel_at (space held U T va) dev u s0 xs s" and f: "f < 1024" "f \<notin> U"
  shows "returns (get_page_table_io dev va True s) (\<lambda>(tb, t). \<exists>U' T' k. fst k AND PAGE_PRESENT \<noteq> 0 \<and>
    tb = P2V (fst k AND PAGE_FRAME) \<and> U \<subseteq> U' \<and> (\<exists>g. U' \<subseteq> insert g U) \<and>
    (\<forall>vb. drop_bit 22 vb \<noteq> 1023 \<longrightarrow> T' vb = T vb) \<and> kernel_at (known held U' T' va k) dev u s0 xs t)"
proof -
  let ?j = "drop_bit 22 va" and ?p = "vram s"
  let ?k = "(pd_entry ?p ?j, frame_bitmap ?p, current_page_directory ?p)"
  have sp: "space held U T va ?p" using s by (rule kernel_at_holds)
  show ?thesis
  proof (cases "fst ?k AND PAGE_PRESENT = 0")
    case False
    show ?thesis
      by (rule returns_mono[OF at_table_found[OF at_known[OF s] False]])
        (use False in \<open>auto intro!: exI[of _ U] exI[of _ T] exI[of _ ?k]\<close>)
  next
    case True
    let ?rest = "\<lambda>(a, s). if a = 0
      then bindE (debug_error vm_ld vm_st dev ''Failed to allocate page table for address %x'' [Va_int va] s) (\<lambda>s. Inr (0, s))
      else bindE (memset vm_st (P2V a) 0 PAGE_SIZE (vram s)) (\<lambda>(_, p).
        bindE (st32 vm_st (cell (current_page_directory ?p) ?j) (a OR PAGE_PRESENT OR PAGE_WRITE) p) (\<lambda>p.
        bindE (debug_trace vm_ld vm_st dev ''Created new page table at physical %x for address %x''
          [Va_int a, Va_int va] (s\<lparr>vram := p\<rparr>)) (\<lambda>s. Inr (P2V a, s))))"
    have eq: "get_page_table_io dev va True s = bindE (alloc_frame_io dev s) ?rest"
      using True by (simp add: get_page_table_io_def Let_def space_directory[OF sp])
    have "returns (?rest (a, t)) (\<lambda>(tb, t). \<exists>U' T' k. fst k AND PAGE_PRESENT \<noteq> 0 \<and>
        tb = P2V (fst k AND PAGE_FRAME) \<and> U \<subseteq> U' \<and> (\<exists>g. U' \<subseteq> insert g U) \<and>
        (\<forall>vb. drop_bit 22 vb \<noteq> 1023 \<longrightarrow> T' vb = T vb) \<and> kernel_at (known held U' T' va k) dev u s0 xs t)"
      if a: "a \<noteq> 0" "a < 0x400000" and t: "kernel_at (allocated held U T va ?k a) dev u s0 xs t" for a t
    proof -
      obtain p2 p3 k' U' T' where n: "memset vm_st (P2V a) 0 PAGE_SIZE (vram t) = Inr (P2V a, p2)"
        "st32 vm_st (cell (snd (snd ?k)) ?j) (a OR PAGE_PRESENT OR PAGE_WRITE) p2 = Inr p3"
        "known held U' T' va k' p3" "fst k' AND PAGE_PRESENT \<noteq> 0" "fst k' AND PAGE_FRAME = a"
        "U \<subseteq> U'" "\<exists>g. U' \<subseteq> insert g U" "\<forall>vb. drop_bit 22 vb \<noteq> 1023 \<longrightarrow> T' vb = T vb"
        by (rule new_table_space[OF kernel_at_holds[OF t] True a f])
      have "kernel_at (known held U' T' va k') dev u s0 xs (t\<lparr>vram := p3\<rparr>)" by (rule kernel_at_vram[where P = "known held U' T' va k'", OF t n(3)])
      from known.at_debug_last[OF this, of "''Created new page table at physical %x for address %x''" "[Va_int a, Va_int va]" 5]
      have d: "returns (debug_trace vm_ld vm_st dev ''Created new page table at physical %x for address %x''
          [Va_int a, Va_int va] (t\<lparr>vram := p3\<rparr>)) (kernel_at (known held U' T' va k') dev u s0 xs)"
        by (simp add: debug_trace_def cstr_def)
      have fin: "\<exists>U' T' k. fst k AND PAGE_PRESENT \<noteq> 0 \<and> P2V a = P2V (fst k AND PAGE_FRAME) \<and> U \<subseteq> U' \<and>
          (\<exists>g. U' \<subseteq> insert g U) \<and> (\<forall>vb. drop_bit 22 vb \<noteq> 1023 \<longrightarrow> T' vb = T vb) \<and>
          kernel_at (known held U' T' va k) dev u s0 xs w"
        if "kernel_at (known held U' T' va k') dev u s0 xs w" for w
        by (rule exI[of _ U'], rule exI[of _ T'], rule exI[of _ k']) (use n(4-8) that in simp)
      show ?thesis
        unfolding prod.case if_not_P[OF a(1)] n(1) bindE_simps n(2)[unfolded snd_conv]
        by (rule returns_bind[OF d]) (unfold returns_Inr prod.case, rule fin)
    qed
    then show ?thesis unfolding eq
      by (intro returns_bind[OF at_alloc[OF at_known[OF s] f]]) (auto split: prod.splits)
  qed
qed

text \<open>The tail of \<^verbatim>\<open>map_page_to_frame\<close> and \<^verbatim>\<open>unmap_page\<close>: the store in the table, and the flush.\<close>

lemma entry_stored:
  fixes v :: u32
  assumes k: "known held U T va k p" and pr: "fst k AND PAGE_PRESENT \<noteq> 0"
  obtains q T' where "st32 vm_st (cell (P2V (fst k AND PAGE_FRAME)) (drop_bit 12 va AND 0x3FF)) v p = Inr q"
    "P2V (fst k AND PAGE_FRAME) \<noteq> 0" "space held U T' va (flush_tlb_entry va q)"
    "\<forall>vb. T' vb = (if drop_bit 12 vb = drop_bit 12 va
       then (if v AND PAGE_PRESENT = 0 then None else Some ((v AND PAGE_FRAME) + (vb AND 0xFFF))) else T vb)"
proof -
  let ?j = "drop_bit 22 va" and ?i = "drop_bit 12 va AND 0x3FF"
  have sp: "space held U T va p" and e: "pd_entry p ?j = fst k" using k by (auto simp: known_def)
  note inv = space_inv[OF sp]
  have tab: "table_of p ?j = fst k AND PAGE_FRAME" by (simp add: table_of_def e)
  have en: "entry_ok p ?j ?i"
    using inv(7) pr pt_index_less[of va] by (simp add: entry_ok_def mappable_def present_def e)
  let ?q = "set_entry ?j ?i v p"
  note sf = store_and_flush(1)[OF inv(1) en] store_and_flush(3,4)[OF inv(1) en, of v] and sg = store_flush_grow[OF inv(1) en, of p va v]
  have "space held U (mmu_translate (flush_tlb_entry va ?q)) va (flush_tlb_entry va ?q)"
    using sp sf(2) sg held_ok_grow[OF inv(2), of "flush_tlb_entry va ?q"]
      mappable_grow[OF inv(1) _ inv(7), of "flush_tlb_entry va ?q"] by (simp add: space_def run_inv_def)
  from that[OF _ _ this] show thesis
    using sf(1,3) st_table[OF inv(1) en, of v] inv(6) by (simp add: tab)
qed

lemma at_map:
  assumes s: "kernel_at (space held U T va) dev u s0 xs s" and f: "f < 1024" "f \<notin> U"
  shows "returns (map_page_to_frame_io dev va pa flags s) (\<lambda>t. \<exists>U' T'. U \<subseteq> U' \<and> (\<exists>g. U' \<subseteq> insert g U) \<and>
    T' va = Some ((pa AND PAGE_FRAME) + (va AND 0xFFF)) \<and>
    (\<forall>vb. drop_bit 22 vb \<noteq> 1023 \<and> drop_bit 12 vb \<noteq> drop_bit 12 va \<longrightarrow> T' vb = T vb) \<and>
    kernel_at (space held U' T' va) dev u s0 xs t)"
proof -
  let ?v = "(pa AND PAGE_FRAME) OR (flags AND 0xFFF) OR PAGE_PRESENT"
  let ?R = "\<lambda>t. \<exists>U' T'. U \<subseteq> U' \<and> (\<exists>g. U' \<subseteq> insert g U) \<and> T' va = Some ((pa AND PAGE_FRAME) + (va AND 0xFFF)) \<and>
    (\<forall>vb. drop_bit 22 vb \<noteq> 1023 \<and> drop_bit 12 vb \<noteq> drop_bit 12 va \<longrightarrow> T' vb = T vb) \<and>
    kernel_at (space held U' T' va) dev u s0 xs t"
  have tail: "returns (if tb = 0 then debug_error vm_ld vm_st dev ''Failed to get page table for virtual address %x'' [Va_int va] t
      else bindE (st32 vm_st (cell tb (drop_bit 12 va AND 0x3FF)) ?v (vram t)) (\<lambda>p.
        debug_trace vm_ld vm_st dev ''Mapped virtual %x to physical %x (PD idx: %u, PT idx: %u)''
          [Va_int va, Va_int pa, Va_int (drop_bit 22 va), Va_int (drop_bit 12 va AND 0x3FF)]
          (t\<lparr>vram := flush_tlb_entry va p\<rparr>))) ?R"
    if t: "kernel_at (known held U' T' va k) dev u s0 xs t" and k: "fst k AND PAGE_PRESENT \<noteq> 0"
      and tb: "tb = P2V (fst k AND PAGE_FRAME)" and U: "U \<subseteq> U'" "\<exists>g. U' \<subseteq> insert g U"
      and T: "\<forall>vb. drop_bit 22 vb \<noteq> 1023 \<longrightarrow> T' vb = T vb" for tb t U' T' k
  proof -
    obtain q T2 where q: "st32 vm_st (cell tb (drop_bit 12 va AND 0x3FF)) ?v (vram t) = Inr q" "tb \<noteq> 0"
      "space held U' T2 va (flush_tlb_entry va q)"
      "\<forall>vb. T2 vb = (if drop_bit 12 vb = drop_bit 12 va
         then (if ?v AND PAGE_PRESENT = 0 then None else Some ((?v AND PAGE_FRAME) + (vb AND 0xFFF))) else T' vb)"
      by (rule entry_stored[OF kernel_at_holds[OF t] k, of ?v]) (simp_all add: tb)
    have T2: "T2 va = Some ((pa AND PAGE_FRAME) + (va AND 0xFFF))"
      "\<forall>vb. drop_bit 22 vb \<noteq> 1023 \<and> drop_bit 12 vb \<noteq> drop_bit 12 va \<longrightarrow> T2 vb = T vb"
      using q(4) entry_frame[of pa flags] T by simp_all
    show ?thesis
      unfolding if_not_P[OF q(2)] q(1) bindE_simps debug_trace_def
      by (rule returns_mono[OF running.at_debug_last[OF kernel_at_vram[where P = "space held U' T2 va", OF t q(3)]]])
        (use U T2 in \<open>auto simp: cstr_def\<close>)
  qed
  show ?thesis
    unfolding map_page_to_frame_io_def debug_debug_def Let_def
    apply (rule running.at_debug_step[OF s])
     apply (simp add: cstr_def)
    apply (rule returns_bind[OF at_table[OF _ f]], assumption)
    apply (unfold case_prod_beta, elim exE conjE)
    apply (rule tail, assumption, assumption, assumption, assumption, blast, assumption)
    done
qed

lemma at_unmap:
  assumes s: "kernel_at (space held U T va) dev u s0 xs s"
  shows "returns (unmap_page_io dev va s) (\<lambda>t. \<exists>T'. T' va = None \<and>
    (\<forall>vb. drop_bit 12 vb \<noteq> drop_bit 12 va \<longrightarrow> T' vb = T vb) \<and> kernel_at (space held U T' va) dev u s0 xs t)"
proof -
  let ?k = "(pd_entry (vram s) (drop_bit 22 va), frame_bitmap (vram s), current_page_directory (vram s))"
  let ?R = "\<lambda>t. \<exists>T'. T' va = None \<and> (\<forall>vb. drop_bit 12 vb \<noteq> drop_bit 12 va \<longrightarrow> T' vb = T vb) \<and>
    kernel_at (space held U T' va) dev u s0 xs t"
  have "returns (bindE (get_page_table_io dev va False t) (\<lambda>(table, s).
      if table = 0
      then debug_warning vm_ld vm_st dev ''Page table not found for virtual address %x'' [Va_int va] s
      else bindE (st32 vm_st (cell table (drop_bit 12 va AND 0x3FF)) 0 (vram s)) (\<lambda>p.
           debug_trace vm_ld vm_st dev ''Unmapped virtual address %x (PD idx: %u, PT idx: %u)''
             [Va_int va, Va_int (drop_bit 22 va), Va_int (drop_bit 12 va AND 0x3FF)]
             (s\<lparr>vram := flush_tlb_entry va p\<rparr>)))) ?R"
    if t: "kernel_at (known held U T va ?k) dev u s0 xs t" for t
  proof (cases "fst ?k AND PAGE_PRESENT = 0")
    case True
    have sp: "space held U T va (vram t)" and e: "pd_entry (vram t) (drop_bit 22 va) = fst ?k"
      using kernel_at_holds[OF t] by (simp_all add: known_def)
    have "mmu_translate (vram t) va = None"
      unfolding inv_translate[OF space_inv(1)[OF sp]] walk_entries using True e by simp
    then have none: "T va = None" by (simp add: space_inv(6)[OF sp])
    show ?thesis
      apply (rule returns_bind[OF at_table_missing[OF t True]])
      apply (unfold case_prod_beta, elim conjE)
      apply (simp only: refl if_True debug_warning_def)
      apply (rule returns_mono[OF running.at_debug_last[OF at_unknown[OF t]]])
       apply (simp add: cstr_def)
      using none by blast
  next
    case False
    have "returns (if tb = 0
        then debug_warning vm_ld vm_st dev ''Page table not found for virtual address %x'' [Va_int va] w
        else bindE (st32 vm_st (cell tb (drop_bit 12 va AND 0x3FF)) 0 (vram w)) (\<lambda>p.
           debug_trace vm_ld vm_st dev ''Unmapped virtual address %x (PD idx: %u, PT idx: %u)''
             [Va_int va, Va_int (drop_bit 22 va), Va_int (drop_bit 12 va AND 0x3FF)]
             (w\<lparr>vram := flush_tlb_entry va p\<rparr>))) ?R"
      if tb: "tb = P2V (fst ?k AND PAGE_FRAME)" and w: "kernel_at (known held U T va ?k) dev u s0 xs w" for tb w
    proof -
      obtain q T2 where q: "st32 vm_st (cell tb (drop_bit 12 va AND 0x3FF)) 0 (vram w) = Inr q" "tb \<noteq> 0"
        "space held U T2 va (flush_tlb_entry va q)"
        "\<forall>vb. T2 vb = (if drop_bit 12 vb = drop_bit 12 va
           then (if (0 :: u32) AND PAGE_PRESENT = 0 then None else Some ((0 AND PAGE_FRAME) + (vb AND 0xFFF))) else T vb)"
        by (rule entry_stored[OF kernel_at_holds[OF w] False, of 0]) (simp_all add: tb)
      show ?thesis
        unfolding if_not_P[OF q(2)] q(1) bindE_simps debug_trace_def
        by (rule returns_mono[OF running.at_debug_last[OF kernel_at_vram[where P = "space held U T2 va", OF w q(3)]]])
          (use q(4) in \<open>auto intro!: exI[of _ T2] simp: cstr_def\<close>)
    qed
    then show ?thesis
      by (intro returns_bind[OF at_table_found[OF t False]]) auto
  qed
  then show ?thesis
    unfolding unmap_page_io_def debug_debug_def Let_def
    by (intro known.at_debug_step[OF at_known[OF s]]) (simp_all add: cstr_def)
qed

lemma at_free:
  assumes s: "kernel_at (space held U T va) dev u s0 xs s" and a: "a \<in> held" "a \<noteq> 0xB8000"
  shows "returns (kfree_physical_page_io dev a s) (kernel_at (space (held - {a}) (U - {frame_no a}) T va) dev u s0 xs)"
proof -
  have "space held U T va (vram s)" using s by (rule kernel_at_holds)
  then have "a \<noteq> 0" and u: "frame_no a \<in> used (vram s)" using a(1) space_inv(2) by (auto simp: held_ok_def)
  have r: "unat a div 4096 < 16384" using u used_bound[of "vram s"] by (auto simp: frame_no_def)
  have freed: "space (held - {a}) (U - {frame_no a}) T va (clear_frame a p)" if p: "space held U T va p" for p
  proof -
    let ?q = "kfree_physical_page a p"
    note inv = space_inv[OF p]
    have q: "?q = free_frame a p" using \<open>a \<noteq> 0\<close> by (simp add: kfree_physical_page_def)
    have "used ?q = U - {frame_no a}" using bitmap.free_frames[OF inv(4)] inv(5) by (simp add: q frame_no_def)
    moreover have "present ?q = present p" "table_of ?q = table_of p" using entries_cong[of ?q p] by (simp_all add: q)
    moreover have "mmu_translate ?q = mmu_translate p"
      by (intro ext) (simp add: mmu_translate_def q split: option.splits)
    ultimately have "space (held - {a}) (U - {frame_no a}) T va ?q"
      using p inv(5-7) kfree_held[OF inv(3) a(1)] a(2) by (simp add: space_def mappable_def)
    moreover have "clear_frame a p = ?q\<lparr>klog := klog p\<rparr>"
      by (simp add: q free_frame_def clear_frame_silent(2)[OF r]) (simp add: log_debug_def)
    ultimately show ?thesis by simp
  qed
  show ?thesis
    unfolding kfree_physical_page_io_def free_frame_io_def debug_debug_def if_not_P[OF \<open>a \<noteq> 0\<close>]
    apply (rule running.at_debug_step[OF s])
     apply (simp add: cstr_def)
    apply (simp only: clear_frame_silent(1)[OF r] returns_Inr)
    apply (frule kernel_at_holds)
    apply (erule kernel_at_vram)
    apply (erule freed)
    done
qed

text \<open>Store a word in a held page, flush its translation, read it back.\<close>

lemma space_flush:
  assumes p: "space held U T va p"
  shows "space held U T va (flush_tlb_entry vb p)"
proof -
  have "run_inv (flush_tlb_entry vb p, held)"
    using p step_inv[OF paging_step.step_evict[of p held vb]] by (simp add: space_def)
  moreover from this have "mmu_translate (flush_tlb_entry vb p) = mmu_translate p"
    using p inv_translate[of p] inv_translate[of "flush_tlb_entry vb p"]
    by (simp add: space_def run_inv_def fun_eq_iff)
  ultimately show ?thesis using p by (simp add: space_def mappable_def)
qed

lemma at_pattern:
  assumes s: "kernel_at (space held U T va) dev u s0 xs s"
    and a: "a \<in> held" "a AND 0xFFF = 0" "va AND 0xFFF = 0" "T va = Some a"
  shows "returns (store_word va v s) (\<lambda>t. kernel_at (space held U T va) dev u s0 xs (t\<lparr>vram := flush_tlb_entry va (vram t)\<rparr>) \<and>
    load_word va (t\<lparr>vram := flush_tlb_entry va (vram t)\<rparr>) = Inr v)"
proof -
  have p: "space held U T va (vram s)" using s by (rule kernel_at_holds)
  then have inv: "run_inv (vram s, held)" and t: "mmu_translate (vram s) va = Some a" using a(4) by (simp_all add: space_def)
  note w = held_word[OF inv a(1-3) t]
  let ?q = "(vram s)\<lparr>phys_mem := write32 a v (phys_mem (vram s))\<rparr>"
  let ?r = "flush_tlb_entry va ?q"
  have "space held U T va ?q" by (rule space_memory[OF p w(3)])
  then have r: "space held U T va ?r" by (rule space_flush)
  then have "run_inv (?r, held)" "mmu_translate ?r va = Some a" using a(4) by (simp_all add: space_def)
  from held_word(2)[OF this(1) a(1-3) this(2)] have "ld32 vm_ld va ?r = Inr v"
    by (simp add: flush_tlb_entry_def)
  moreover have "kernel_at (space held U T va) dev u s0 xs (s\<lparr>vram := ?r\<rparr>)"
    by (rule kernel_at_vram[where P = "space held U T va", OF s r])
  ultimately show ?thesis by (simp add: store_word_def w(1) load_word_def)
qed

section \<open>The memory test\<close>

text \<open>The same steps in front of the rest of a sequence.\<close>

lemma free_left:
  assumes "Suc n \<le> card ({..<1024} - U)"
  obtains f :: nat where "f < 1024" "f \<notin> U"
proof -
  have "{..<1024} - U \<noteq> {}" using assms by (metis card.empty not_less_eq_eq zero_le)
  then show thesis using that by auto
qed

lemma kmalloc_step:
  assumes s: "kernel_at (space held U T va) dev u s0 xs s" and n: "Suc n \<le> card ({..<1024} - U)"
    and k: "\<And>a t. a \<notin> held \<Longrightarrow> frame_no a \<notin> U \<Longrightarrow> a AND 0xFFF = 0 \<Longrightarrow> n \<le> card ({..<1024} - insert (frame_no a) U) \<Longrightarrow>
      kernel_at (space (insert a held) (insert (frame_no a) U) T va) dev u s0 xs t \<Longrightarrow> returns (k (a, t)) R"
  shows "returns (bindE (kmalloc_physical_page_io dev s) k) R"
proof -
  obtain f where f: "f < 1024" "f \<notin> U" using free_left[OF n] by blast
  have "card ({..<1024} - U) - 1 \<le> card ({..<1024} - insert x U)" for x
    using card_Diff_singleton_if[of "{..<1024} - U" x] Diff_insert[of "{..<1024}" x U] by simp
  moreover have "n \<le> card ({..<1024} - U) - 1" using n by simp
  ultimately have c: "n \<le> card ({..<1024} - insert x U)" for x by (rule order_trans[rotated])
  show ?thesis
    by (rule returns_bind[OF at_kmalloc[OF s f]]) (use k c in auto)
qed

lemma map_step:
  assumes s: "kernel_at (space held U T va) dev u s0 xs s" and n: "Suc 0 \<le> card ({..<1024} - U)"
    and k: "\<And>U' T' t g. U \<subseteq> U' \<Longrightarrow> U' \<subseteq> insert g U \<Longrightarrow> T' va = Some ((pa AND PAGE_FRAME) + (va AND 0xFFF)) \<Longrightarrow>
      \<forall>vb. drop_bit 22 vb \<noteq> 1023 \<and> drop_bit 12 vb \<noteq> drop_bit 12 va \<longrightarrow> T' vb = T vb \<Longrightarrow>
      kernel_at (space held U' T' va) dev u s0 xs t \<Longrightarrow> returns (k t) R"
  shows "returns (bindE (map_page_to_frame_io dev va pa flags s) k) R"
proof -
  obtain f where f: "f < 1024" "f \<notin> U" using free_left[OF n] by blast
  show ?thesis
    by (rule returns_bind[OF at_map[OF s f]]) (use k in blast)
qed

lemma unmap_step:
  assumes s: "kernel_at (space held U T va) dev u s0 xs s"
    and k: "\<And>T' t. T' va = None \<Longrightarrow> \<forall>vb. drop_bit 12 vb \<noteq> drop_bit 12 va \<longrightarrow> T' vb = T vb \<Longrightarrow>
      kernel_at (space held U T' va) dev u s0 xs t \<Longrightarrow> returns (k t) R"
  shows "returns (bindE (unmap_page_io dev va s) k) R"
  by (rule returns_bind[OF at_unmap[OF s]]) (use k in blast)

lemma free_step:
  assumes "kernel_at (space held U T va) dev u s0 xs s" "a \<in> held" "a \<noteq> 0xB8000"
    and "\<And>t. kernel_at (space (held - {a}) (U - {frame_no a}) T va) dev u s0 xs t \<Longrightarrow> returns (k t) R"
  shows "returns (bindE (kfree_physical_page_io dev a s) k) R"
  by (rule returns_bind[OF at_free[OF assms(1-3)] assms(4)])

lemma pattern_step:
  assumes "kernel_at (space held U T va) dev u s0 xs s"
    and "T va = Some a" "a \<in> held" "a AND 0xFFF = 0" "va AND 0xFFF = 0"
    and k: "\<And>w. kernel_at (space held U T va) dev u s0 xs w \<Longrightarrow> load_word va w = Inr v \<Longrightarrow> returns (k w) R"
  shows "returns (bindE (store_word va v s) (\<lambda>t. k (t\<lparr>vram := flush_tlb_entry va (vram t)\<rparr>))) R"
  by (rule returns_bind[OF at_pattern[OF assms(1,3-5,2)]]) (use k in blast)

lemma cleaned_up:
  assumes "kernel_at (space (insert c (insert b (insert a held)) - {a} - {b} - {c}) (U1 - {fa} - {fb} - {fc}) T2 va) dev u s0 xs t"
    and "a \<notin> held" "b \<notin> insert a held" "c \<notin> insert b (insert a held)"
    and "fa \<notin> U" "fb \<notin> insert fa U" "fc \<notin> insert fb (insert fa U)"
    and "insert fc (insert fb (insert fa U)) \<subseteq> U1" "U1 \<subseteq> insert g (insert fc (insert fb (insert fa U)))"
    and "\<forall>vb. drop_bit 22 vb \<noteq> 1023 \<and> drop_bit 12 vb \<noteq> drop_bit 12 va \<longrightarrow> T1 vb = T vb"
    and "T2 va = None" "\<forall>vb. drop_bit 12 vb \<noteq> drop_bit 12 va \<longrightarrow> T2 vb = T1 vb"
  shows "\<exists>U' T' g. U \<subseteq> U' \<and> U' \<subseteq> insert g U \<and> T' va = None \<and>
    (\<forall>vb. drop_bit 22 vb \<noteq> 1023 \<and> drop_bit 12 vb \<noteq> drop_bit 12 va \<longrightarrow> T' vb = T vb) \<and>
    kernel_at (space held U' T' va) dev u s0 xs t"
proof (intro exI conjI)
  have "insert c (insert b (insert a held)) - {a} - {b} - {c} = held" using assms(2-4) by auto
  with assms(1) show "kernel_at (space held (U1 - {fa} - {fb} - {fc}) T2 va) dev u s0 xs t" by simp
  show "U \<subseteq> U1 - {fa} - {fb} - {fc}" "U1 - {fa} - {fb} - {fc} \<subseteq> insert g U" using assms(5-9) by auto
qed (use assms(10-12) in auto)

lemmas fmt = cstr_def conversion_def

lemma memory_test_ok:
  assumes s: "kernel_at (space held U T 0xD0000000) dev u s0 xs s" and n: "4 \<le> card ({..<1024} - U)"
    and lev: "3 \<le> debug_level s0" "debug_target s0 AND 1 \<noteq> 0"
  shows "returns (test_memory_mapping dev s) (\<lambda>t. \<exists>U' T' g. U \<subseteq> U' \<and> U' \<subseteq> insert g U \<and> T' 0xD0000000 = None \<and>
    (\<forall>vb. drop_bit 22 vb \<noteq> 1023 \<and> drop_bit 12 vb \<noteq> drop_bit 12 (0xD0000000 :: u32) \<longrightarrow> T' vb = T vb) \<and>
    kernel_at (space held U' T' 0xD0000000) dev u s0 (xs @ [log_line 3 ''Memory test passed successfully'' []]) t)"
proof -
  have scr: "0xB8000 \<in> held" using s by (simp add: kernel_at_def space_def)
  have n: "Suc 3 \<le> card ({..<1024} - U)" using n by simp
  show ?thesis
  unfolding test_memory_mapping_def debug_info_def debug_debug_def debug_error_def Let_def
  apply (rule running.at_debug_step[OF s], simp add: cstr_def)
  apply (rule running.at_say_step, assumption, simp add: fmt, simp, simp)
  apply (rule kmalloc_step[where n = 3], assumption, rule n, unfold prod.case)
  apply (rule kmalloc_step[where n = 2], assumption, simp, unfold prod.case)
  apply (rule kmalloc_step[where n = 1], assumption, simp, unfold prod.case)
  apply (rule running.at_say_step, assumption, simp add: fmt, simp, simp)
  apply (rule running.at_say_step, assumption, simp add: fmt, simp, simp)
  apply (rule running.at_say_step, assumption, simp add: fmt, simp, simp)
  apply (rule running.at_say_step, assumption, simp add: fmt, simp, simp)
  apply (rule map_step, assumption, simp)
  apply (rule running.at_debug_step, assumption, simp add: cstr_def)
  apply (rule running.at_say_step, assumption, simp add: fmt, simp, simp)
  apply (rule pattern_step, assumption, simp add: page_aligned_frame, simp, assumption, simp)
  apply (simp only: bindE_simps simp_thms if_False)
  apply (rule running.at_say_step, assumption, simp add: fmt, simp, simp)
  apply (rule running.at_debug_tell, assumption, simp add: cstr_def, rule lev, rule lev)
  apply (rule running.at_debug_step, assumption, simp add: cstr_def)
  apply (rule running.at_say_step, assumption, simp add: fmt, simp, simp)
  apply (rule running.at_say_step, assumption, simp add: fmt, simp, simp)
  apply (rule unmap_step, assumption)
  apply (rule running.at_say_step, assumption, simp add: fmt, simp, simp)
  apply (rule free_step, assumption, simp, use scr in fastforce)
  apply (rule free_step, assumption, force, use scr in fastforce)
  apply (rule returns_mono, rule at_free, assumption, force, use scr in fastforce)
  apply (rule cleaned_up, assumption+)
  done
qed

end
