(* ===== verification/Kernel_Boot.thy ===== *)
theory Kernel_Boot
  imports Kernel_Mapping
begin

text \<open>
  The main program from the state the bootstrap leaves: console output on the bootstrap's own page
  tables, the initialisation of paging, the memory test, and the report.
\<close>

section \<open>Output on the tables of the bootstrap\<close>

definition booting :: "u32 \<Rightarrow> u32 \<Rightarrow> paging_state \<Rightarrow> bool" where
  "booting bpd bpt p \<longleftrightarrow> boot_pages_ok bpd bpt \<and> boot_ready bpd bpt p"

lemma booting_klog [simp]: "booting bpd bpt (p\<lparr>klog := l\<rparr>) = booting bpd bpt p"
  by (simp add: booting_def boot_ready_def is_paging_enabled_def)

lemma booting_window:
  assumes "booting bpd bpt p"
  shows "window_ok p"
proof -
  let ?q = "p\<lparr>frame_bitmap := replicate 512 (- 1)\<rparr>"
  have ok: "boot_pages_ok bpd bpt" and b: "boot_tables bpd bpt (phys_mem ?q)" "cr3 ?q = bpd" "tlb ?q = Map.empty"
    "is_paging_enabled ?q"
    using assms by (simp_all add: booting_def boot_ready_def is_paging_enabled_def)
  have "frame_no a \<in> used ?q" if "a < 0x400000" for a
    using that by (simp add: used_def frame_no_def word_less_nat_alt)
  then have "tables_ok ?q" using ok by (intro boot_tables_ok[OF ok b(1,2)]) (simp_all add: boot_pages_ok_def)
  then have "window_ok ?q"
    using tables_ok_walk[of ?q] translate_walk[of ?q] b(3,4) by (simp add: window_ok_def tlb_coherent_def)
  then show ?thesis using window_ok_cong[of ?q p] by simp
qed

lemma booting_screen:
  assumes b: "booting bpd bpt p"
  shows "vga_mapped p p"
proof -
  have ok: "boot_pages_ok bpd bpt" and r: "boot_tables bpd bpt (phys_mem p)" "cr3 p = bpd"
    using b by (simp_all add: booting_def boot_ready_def)
  have "table_of p 768 = bpt" using boot_entries(3)[OF ok r, of 768] by simp
  then have "window_byte p (P2V 0xB8000 + k)" if "k < 4000" for k
    using booting_window[OF b] ok r(2) that
    by (intro window_byte_page) (auto simp: boot_pages_ok_def word_less_nat_alt)
  then show ?thesis by (simp add: vga_mapped_def screen_only_def P2V_def)
qed

text \<open>Only the two pages with the tables matter.\<close>

lemma booting_cong:
  assumes b: "booting bpd bpt p" and m: "\<And>a. a AND PAGE_FRAME \<in> {bpd, bpt} \<Longrightarrow> m a = phys_mem p a"
  shows "booting bpd bpt (p\<lparr>phys_mem := m\<rparr>)"
proof -
  have e: "read32 m (cell T j) = read32 (phys_mem p) (cell T j)"
    if T: "T AND 0xFFF = 0" "T \<in> {bpd, bpt}" and j: "j < 1024" for T j
    using m cell_byte(1)[OF T(1) j] T(2) by (intro read32_cong) simp
  have "bpd AND 0xFFF = 0" "bpt AND 0xFFF = 0" using b by (simp_all add: booting_def boot_pages_ok_def)
  then have "boot_tables bpd bpt m = boot_tables bpd bpt (phys_mem p)"
    using e[of bpd] e[of bpt] by (simp add: boot_tables_def)
  then show ?thesis using b by (simp add: booting_def boot_ready_def is_paging_enabled_def)
qed

lemma booting_stable:
  assumes b: "booting bpd bpt p" and q: "vga_mapped p q"
  shows "booting bpd bpt q"
proof -
  have "bpd \<noteq> 0xB8000" "bpt \<noteq> 0xB8000" using b by (auto simp: booting_def boot_pages_ok_def)
  then have "booting bpd bpt (p\<lparr>phys_mem := phys_mem q\<rparr>)"
    using screen_page[OF q, of "{0xB8000}"] by (intro booting_cong[OF b]) auto
  then show ?thesis using q by (simp add: vga_mapped_def)
qed

interpretation booting: console_run "booting bpd bpt" for bpd bpt
  by unfold_locales (rule booting_screen booting_stable, assumption+)+

section \<open>Initialisation\<close>

text \<open>Between the steps of the initialisation: the bootstrap's tables, and what has been set up so far.\<close>

definition preparing :: "u32 \<Rightarrow> u32 \<Rightarrow> u32 list \<times> u32 \<times> u32 \<Rightarrow> paging_state \<Rightarrow> bool" where
  "preparing bpd bpt k p \<longleftrightarrow> booting bpd bpt p \<and>
     (frame_bitmap p, kernel_page_directory p, current_page_directory p) = k"

interpretation preparing: console_run "preparing bpd bpt k" for bpd bpt k
proof
  fix p q
  assume p: "preparing bpd bpt k p"
  then show "vga_mapped p p" using booting_screen unfolding preparing_def by blast
  assume q: "vga_mapped p q"
  then have "q = p\<lparr>phys_mem := phys_mem q\<rparr>" by (simp add: vga_mapped_def)
  then have "frame_bitmap q = frame_bitmap p" "kernel_page_directory q = kernel_page_directory p"
    "current_page_directory q = current_page_directory p" by (cases p; cases q; simp)+
  with p booting_stable[OF _ q] show "preparing bpd bpt k q" by (simp add: preparing_def)
qed

lemma preparing_at:
  "kernel_at (booting bpd bpt) dev u s0 xs s \<Longrightarrow>
     kernel_at (preparing bpd bpt (frame_bitmap (vram s), kernel_page_directory (vram s), current_page_directory (vram s)))
       dev u s0 xs s"
  by (simp add: kernel_at_def preparing_def)

lemma bitmap_only:
  assumes "frame_bitmap p = frame_bitmap q"
  shows "used p = used q" "bitmap_ok p = bitmap_ok q"
  using assms by (simp_all add: used_def bitmap_ok_def)

lemma booting_only_frames:
  assumes "booting bpd bpt p" "only_frames p q"
  shows "booting bpd bpt q"
  using assms only_frames_fields[OF assms(2)] by (simp add: booting_def boot_ready_def is_paging_enabled_def)

text \<open>Marking a range of frames, in the kernel's state.\<close>

lemma at_mark:
  assumes s: "kernel_at (booting bpd bpt) dev u s0 xs s" and b: "bitmap_ok (vram s)" and to: "unat to \<le> 0x400000"
  shows "returns (mark_range_io dev from to s) (\<lambda>t. kernel_at (booting bpd bpt) dev u s0 xs t \<and>
    bitmap_ok (vram t) \<and> used (vram t) = used (vram s) \<union> page_span from to)"
proof -
  have "unat to \<le> 2 ^ 32 - 4096 + unat from mod 4096" using to by simp
  then obtain p where p: "mark_frames from to (vram s) = Some p" "used p = used (vram s) \<union> page_span from to"
    "bitmap_ok p" "only_frames (vram s) p" using mark_frames_ok[OF b] by blast
  have "booting bpd bpt p" using booting_only_frames[OF kernel_at_holds[OF s] p(4)] .
  from kernel_at_vram[where P = "booting bpd bpt", OF s this] show ?thesis
    using p to by (simp add: mark_range_io_def mark_frames_silent)
qed

text \<open>The last step: the recursive entry, and CR3.\<close>

lemma init_space:
  assumes img: "image_ok ks ke bpd bpt" and b: "booting bpd bpt p"
    and p: "bitmap_ok p" "used p = {..<256} \<union> page_span ks ke" "current_page_directory p = P2V bpd"
  obtains q where "st32 vm_st (cell (P2V bpd) 1023) (bpd OR PAGE_PRESENT OR PAGE_WRITE) p = Inr q"
    "space {0xB8000} ({..<256} \<union> page_span ks ke) (mmu_translate (write_cr3 bpd q)) 0xD0000000 (write_cr3 bpd q)"
    "\<forall>va. drop_bit 22 va \<noteq> 1023 \<longrightarrow> mmu_translate (write_cr3 bpd q) va = initial_map va"
proof -
  let ?v = "bpd OR PAGE_PRESENT OR PAGE_WRITE"
  have r: "boot_ready bpd bpt p" "boot_pages_ok bpd bpt" using b by (simp_all add: booting_def)
  let ?q = "p\<lparr>phys_mem := write32 (cell bpd 1023) ?v (phys_mem p)\<rparr>" and ?t = "write_cr3 bpd (p\<lparr>phys_mem := write32 (cell bpd 1023) ?v (phys_mem p)\<rparr>)"
  note fin = init_finish[OF img r(1) p]
  have f: "cr3 ?t = bpd" "phys_mem ?t = write32 (cell bpd 1023) ?v (phys_mem p)" "used ?t = used p"
    by (simp_all add: write_cr3_def used_def)
  have bt: "boot_tables bpd bpt (phys_mem p)" using r(1) by (simp add: boot_ready_def)
  note re = recursive_entries[OF r(2) f(2,1) bt]
  have "table_of ?t j \<noteq> 0xB8000" if "j < 1024" "present ?t j" for j
    using re(1)[OF that(1)] re(2-4) that(2) r(2) by (auto simp: boot_pages_ok_def)
  then have "held_ok ?t {0xB8000}"
    using f(1,3) p(2) r(2) by (auto simp: held_ok_def frame_no_def boot_pages_ok_def)
  moreover have "\<not> present ?t 832" using re(1)[of 832] by simp
  ultimately have "space {0xB8000} ({..<256} \<union> page_span ks ke) (mmu_translate ?t) 0xD0000000 ?t"
    using fin(2) f(3) p(2) by (simp add: space_def run_inv_def mappable_def)
  moreover have "\<forall>va. drop_bit 22 va \<noteq> 1023 \<longrightarrow> mmu_translate ?t va = initial_map va"
    using initial_translation(1)[OF r(2) fin(2) f(1,2) bt] by blast
  ultimately show thesis by (rule that[OF fin(1)])
qed

text \<open>Initialised: the invariant, the reserved frames and the initial translation, outside the recursive area.\<close>

definition set_up_space :: "u32 \<Rightarrow> u32 \<Rightarrow> device \<Rightarrow> uart \<Rightarrow> 'a kernel_state_scheme \<Rightarrow> string list \<Rightarrow>
    'a kernel_state_scheme \<Rightarrow> bool" where
  "set_up_space ks ke dev u s0 xs t \<longleftrightarrow> (\<exists>T. (\<forall>va. drop_bit 22 va \<noteq> 1023 \<longrightarrow> T va = initial_map va) \<and>
     kernel_at (space {0xB8000} ({..<256} \<union> page_span ks ke) T 0xD0000000) dev u s0 xs t)"

lemma at_init:
  assumes s: "kernel_at (booting bpd bpt) dev u s0 xs s" and img: "image_ok ks ke bpd bpt"
  shows "returns (init_paging_io dev ks ke s) (set_up_space ks ke dev u s0 xs)"
proof -
  have span: "page_span 0 0x100000 = {..<256}" by (auto simp: page_span_def frame_no_def)
  have ke: "unat ke \<le> 0x400000" using img by (simp add: image_ok_def word_le_nat_alt)
  have cleared: "kernel_at (booting bpd bpt) dev u s0 xs (t\<lparr>vram := (vram t)\<lparr>frame_bitmap := replicate 512 0\<rparr>\<rparr>)"
    if "kernel_at (booting bpd bpt) dev u s0 xs t" for t
    using kernel_at_holds[OF that]
    by (intro kernel_at_vram[OF that]) (simp add: booting_def boot_ready_def is_paging_enabled_def)
  have zero: "bitmap_ok (p\<lparr>frame_bitmap := replicate 512 0\<rparr>)" "used (p\<lparr>frame_bitmap := replicate 512 0\<rparr>) = {}" for p :: paging_state
    by (auto simp: bitmap_ok_def used_def)
  have dirs: "kernel_at (preparing bpd bpt (frame_bitmap (vram t), P2V bpd, P2V bpd)) dev u s0 xs
      (t\<lparr>vram := (vram t)\<lparr>kernel_page_directory := P2V bpd, current_page_directory := P2V bpd\<rparr>\<rparr>)"
    if "kernel_at (booting bpd bpt) dev u s0 xs t" for t
    using kernel_at_holds[OF that]
    by (intro kernel_at_vram[OF that]) (simp add: preparing_def booting_def boot_ready_def is_paging_enabled_def)
  have cr3: "cr3 (vram t) = bpd" if "kernel_at (booting bpd bpt) dev u s0 xs t" for t
    using kernel_at_holds[OF that] by (simp add: booting_def boot_ready_def)
  have tail: "returns (bindE (st32 vm_st (cell (kernel_page_directory (vram t)) 1023)
          (V2P (kernel_page_directory (vram t)) OR PAGE_PRESENT OR PAGE_WRITE) (vram t)) (\<lambda>p.
        bindE (debug_info vm_ld vm_st dev ''Paging system initialized successfully'' [] (t\<lparr>vram := write_cr3 bpd p\<rparr>))
          (say dev (''Paging system initialized!'' @ NL) []))) (set_up_space ks ke dev u s0 xs)"
    if t: "kernel_at (preparing bpd bpt (bm, P2V bpd, P2V bpd)) dev u s0 xs t"
      and bm: "\<And>p :: paging_state. frame_bitmap p = bm \<Longrightarrow> bitmap_ok p \<and> used p = {..<256} \<union> page_span ks ke" for t bm
  proof -
    have k: "booting bpd bpt (vram t)" "frame_bitmap (vram t) = bm" "kernel_page_directory (vram t) = P2V bpd"
      "current_page_directory (vram t) = P2V bpd"
      using kernel_at_holds[OF t] by (auto simp: preparing_def)
    obtain q where q: "st32 vm_st (cell (P2V bpd) 1023) (bpd OR PAGE_PRESENT OR PAGE_WRITE) (vram t) = Inr q"
      "space {0xB8000} ({..<256} \<union> page_span ks ke) (mmu_translate (write_cr3 bpd q)) 0xD0000000 (write_cr3 bpd q)"
      "\<forall>va. drop_bit 22 va \<noteq> 1023 \<longrightarrow> mmu_translate (write_cr3 bpd q) va = initial_map va"
      using init_space[OF img k(1) _ _ k(4)] bm[OF k(2)] by blast
    note at = kernel_at_vram[where P = "space {0xB8000} ({..<256} \<union> page_span ks ke) (mmu_translate (write_cr3 bpd q)) 0xD0000000", OF t q(2)]
    show ?thesis
      unfolding k(3) V2P_P2V q(1) bindE_simps debug_info_def
      apply (rule running.at_debug_step[OF at], simp add: cstr_def)
      apply (rule returns_mono, rule running.at_say, assumption, simp add: fmt, simp, simp)
      unfolding set_up_space_def using q(3) by blast
  qed
  let ?R = "set_up_space ks ke dev u s0 xs"
  let ?last = "\<lambda>s. bindE (st32 vm_st (cell (kernel_page_directory (vram s)) 1023)
          (V2P (kernel_page_directory (vram s)) OR PAGE_PRESENT OR PAGE_WRITE) (vram s)) (\<lambda>p.
        bindE (debug_info vm_ld vm_st dev ''Paging system initialized successfully'' [] (s\<lparr>vram := write_cr3 bpd p\<rparr>))
          (say dev (''Paging system initialized!'' @ NL) []))"
  have third: "returns (bindE (say dev (''Current page directory at physical: %x, virtual: %x'' @ NL) [Va_int bpd, Va_int (P2V bpd)]
        (t\<lparr>vram := (vram t)\<lparr>kernel_page_directory := P2V bpd, current_page_directory := P2V bpd\<rparr>\<rparr>)) ?last) ?R"
    if t: "kernel_at (booting bpd bpt) dev u s0 xs t" "bitmap_ok (vram t)" "used (vram t) = {..<256} \<union> page_span ks ke" for t
  proof (rule preparing.at_say_step[OF dirs[OF t(1)]])
    have bm: "bitmap_ok p \<and> used p = {..<256} \<union> page_span ks ke" if "frame_bitmap p = frame_bitmap (vram t)"
      for p :: paging_state using bitmap_only[OF that] t(2,3) by simp
    show "returns (?last w) ?R"
      if "kernel_at (preparing bpd bpt (frame_bitmap (vram t), P2V bpd, P2V bpd)) dev u s0 xs w" for w
      by (rule tail[OF that bm])
  qed (simp_all add: fmt)
  have second: "returns (bindE (say dev (''Marking kernel physical memory as used: %x - %x'' @ NL) [Va_int ks, Va_int ke] t)
        (\<lambda>s. bindE (mark_range_io dev ks ke s) k)) ?R"
    if t: "kernel_at (booting bpd bpt) dev u s0 xs t" "bitmap_ok (vram t)" "used (vram t) = {..<256}"
      and k: "\<And>w. kernel_at (booting bpd bpt) dev u s0 xs w \<Longrightarrow> bitmap_ok (vram w) \<Longrightarrow>
        used (vram w) = {..<256} \<union> page_span ks ke \<Longrightarrow> returns (k w) ?R" for t k
  proof (rule preparing.at_say_step[OF preparing_at[OF t(1)]])
    show "returns (bindE (mark_range_io dev ks ke w) k) ?R"
      if w: "kernel_at (preparing bpd bpt (frame_bitmap (vram t), kernel_page_directory (vram t),
        current_page_directory (vram t))) dev u s0 xs w" for w
    proof -
      have p: "booting bpd bpt (vram w)" "frame_bitmap (vram w) = frame_bitmap (vram t)"
        using kernel_at_holds[OF w] by (simp_all add: preparing_def)
      note m = at_mark[OF kernel_at_mono[where Q = "booting bpd bpt", OF w p(1)] _ ke, of ks]
      show ?thesis
        by (rule returns_bind[OF m]) (use bitmap_only[OF p(2)] t(2,3) k in auto)
    qed
  qed (simp_all add: fmt)
  show ?thesis
    unfolding init_paging_io_def Let_def
    apply (rule booting.at_say_step[OF s], simp add: fmt, simp, simp)
    apply (rule returns_bind[OF at_mark[OF cleared]], assumption, simp add: zero, simp)
    apply (elim conjE, rule second, assumption, assumption, simp add: zero span)
    subgoal premises p for t u w
      using third[of w] cr3[of w] p by (simp add: span zero)
    done
qed

lemma at_info:
  assumes s: "kernel_at (space held U T va) dev u s0 xs s"
  shows "returns (print_paging_info_io dev s) (kernel_at (space held U T va) dev u s0 xs)"
  unfolding print_paging_info_io_def Let_def debug_trace_def
  apply (rule running.at_say_step[OF s], simp add: fmt, simp, simp)
  apply (rule running.at_say_step, assumption, simp add: fmt, simp, simp)
  apply (rule running.at_say_step, assumption, simp add: fmt, simp, simp)
  apply (rule running.at_say_step, assumption, simp add: fmt, simp, simp)
  apply (rule running.at_say_step, assumption, simp add: fmt, simp, simp)
  apply (rule running.at_say_step, assumption, simp add: fmt, simp, simp)
  apply (rule running.at_debug_last, assumption, simp add: cstr_def)
  done

lemma at_kernel_dump:
  assumes s: "kernel_at (space held U T va) dev u s0 xs s" and a: "0x100000 \<le> V2P a" "V2P a \<le> 0x3FFF80"
  shows "returns (debug_hex_dump vm_ld vm_st dev a 128 s) (kernel_at (space held U T va) dev u s0 xs)"
proof (rule running.at_dump[OF s])
  fix q k
  assume q: "vga_mapped (vram s) q" and k: "k < (128 :: u32)"
  have p: "run_inv (vram s, held)" "0xB8000 \<in> held" using s by (simp_all add: kernel_at_def space_def)
  then have "window_ok q" using vga_mapped_run[OF q p] inv_window by (auto simp: run_inv_def)
  have "unat (V2P a + k) = unat (V2P a) + unat k" "unat k < 128"
    using a k by (simp_all add: word_le_nat_alt word_less_nat_alt unat_plus_if')
  then have "V2P (a + k) < 0x400000" "\<not> in_region 0xB8000 4000 (V2P (a + k))"
    using a by (simp_all add: V2P_add in_region_def word_le_nat_alt word_less_nat_alt unat_sub_if')
  then show "vm_ld (a + k) q = Inr (phys_mem (vram s) (V2P (a + k)))"
    using q \<open>window_ok q\<close> by (simp add: vm_ld_window vga_mapped_def screen_only_def)
qed simp

end
