(* ===== verification/Panic_Props.thy ===== *)
theory Panic_Props
  imports Console Panic
begin

text \<open>
  What a panic leaves on the console, and that it ends with interrupts off and the processor halted.
\<close>

definition panic_calls :: "cpu_regs \<Rightarrow> string \<Rightarrow> (string \<times> va_arg list) list" where
  "panic_calls r message =
     [(''************************************************************'', []),
      (''*                      KERNEL PANIC                        *'', []),
      (''************************************************************'', []),
      (''PANIC: %s'', [Va_str (Some message)]),
      (''Register dump:'', []),
      (''EAX: %x    EBX: %x    ECX: %x    EDX: %x'', [Va_int (eax r), Va_int (ebx r), Va_int (ecx r), Va_int (edx r)]),
      (''ESI: %x    EDI: %x    EBP: %x    ESP: %x'', [Va_int (esi r), Va_int (edi r), Va_int (ebp r), Va_int (esp r)]),
      (''EIP: %x    EFLAGS: %x'', [Va_int (eip r), Va_int (eflags r)]),
      (''CR0: %x    CR2: %x    CR3: %x    CR4: %x'', [Va_int (reg_cr0 r), Va_int (reg_cr2 r), Va_int (reg_cr3 r), Va_int (reg_cr4 r)]),
      (''System halted.'', [])]"

text \<open>The lines of a panic on screen and line: all targets, level \<^verbatim>\<open>ERROR\<close>.\<close>

definition panic_view :: "('m, 'a) debug_state_scheme \<Rightarrow> cpu_regs \<Rightarrow> string \<Rightarrow> term_view \<Rightarrow> term_view" where
  "panic_view s r message =
     fold (\<lambda>(format, args). show_line (s\<lparr>debug_target := 0xFF\<rparr>) 1 format args) (panic_calls r message)"

lemma panic_ok:
  fixes s :: "(paging_state, 'a) machine_state_scheme"
  assumes inv: "console_inv dev u (s\<lparr>debug_target := 0xFF\<rparr>)"
  shows "\<exists>t. panic vm_ld vm_st dev r message s = Inr t \<and> halted t \<and> \<not> interrupt_flag t \<and>
    term_view_of (\<lambda>s a. phys_mem s (V2P a)) u t =
      panic_view s r message (term_view_of (\<lambda>s a. phys_mem s (V2P a)) u s) \<and>
    screen_only (phys_mem (vram s)) (phys_mem (vram t))"
proof -
  let ?s = "s\<lparr>interrupt_flag := False, debug_target := 0xFF\<rparr>"
  let ?V = "term_view_of (\<lambda>s a. phys_mem s (V2P a)) u"
  have "console_inv dev u ?s" using inv by (simp add: console_inv_def log_ready_def uart_after_def)
  from shown_start[OF this] have start: "shown dev u ?s (\<lambda>v. v) ?s" by simp
  have "show_line ?s = show_line (s\<lparr>debug_target := 0xFF\<rparr>)" by (simp add: fun_eq_iff show_line_def)
  note lines = this
  have seq: "panic vm_ld vm_st dev r message s =
      bindE (debug_calls vm_ld vm_st dev 1 (panic_calls r message) ?s) (\<lambda>s. Inr (s\<lparr>halted := True\<rparr>))"
    by (simp add: panic_def panic_calls_def dump_registers_def debug_error_def debug_set_target_def bindE_assoc)
  have "\<forall>(f, a)\<in>set (panic_calls r message). vpieces (cstr f) a \<noteq> None"
    by (simp add: panic_calls_def cstr_def)
  from debug_calls_shown[OF start this] obtain t where t: "debug_calls vm_ld vm_st dev 1 (panic_calls r message) ?s = Inr t"
    "shown dev u ?s (panic_view s r message) t"
    unfolding panic_view_def lines by auto
  have "?V (t\<lparr>halted := True\<rparr>) = ?V t" "?V ?s = ?V s" by (simp_all add: term_view_of_def uart_after_def)
  moreover have "\<not> interrupt_flag t" using machine_fields(1)[OF shown_fields(8)[OF t(2)]] by simp
  ultimately show ?thesis using t(1) shown_view[OF t(2)] shown_memory[OF t(2)] by (simp add: seq vga_mapped_def)
qed

section \<open>Exceptions\<close>

definition exception_text :: "u32 \<Rightarrow> u32 \<Rightarrow> string" where
  "exception_text n e =
     (if unat n < 32
      then ''Exception '' @ int_string (sint n) @ '' ('' @ exception_names ! unat n @ ''), Error Code: 0x'' @
        number_string digit_lower 16 (unat e)
      else ''Unknown Exception '' @ int_string (sint n) @ '', Error Code: 0x'' @ number_string digit_lower 16 (unat e))"

lemma exception_names_ok:
  assumes "unat n < 32"
  shows "CHR 0x00 \<notin> set (exception_names ! unat n)" "length (exception_names ! unat n) \<le> 30"
proof -
  have "unat n < length exception_names" using assms by (simp add: exception_names_def)
  then have "exception_names ! unat n \<in> set exception_names" by (rule nth_mem)
  then show "CHR 0x00 \<notin> set (exception_names ! unat n)" "length (exception_names ! unat n) \<le> 30"
    by (auto simp: exception_names_def)
qed

text \<open>A panic message is read up to its terminator, so equal strings make equal panics.\<close>

lemma fold_ident: "fold (\<lambda>(_, _) v. v) xs = id"
  by (induction xs) auto

lemma panic_view_cstr:
  fixes s :: "('m, 'a) debug_state_scheme"
  assumes "cstr x = cstr y"
  shows "panic_view s r x = panic_view s r y"
proof -
  have "log_line 1 ''PANIC: %s'' [Va_str (Some x)] = log_line 1 ''PANIC: %s'' [Va_str (Some y)]"
    by (simp add: log_line_def assms cstr_clean)
  then have "show_line w 1 ''PANIC: %s'' [Va_str (Some x)] = show_line w 1 ''PANIC: %s'' [Va_str (Some y)]"
    for w :: "('m, 'a) debug_state_scheme"
    by (simp only: fun_eq_iff show_line_def) blast
  then show ?thesis by (simp only: panic_view_def panic_calls_def fold.simps prod.case)
qed

lemma int_string_clean: "CHR 0x00 \<notin> set (int_string n)"
  using decimal.string_chars by (auto simp: int_string_def)

lemma exception_text_clean: "CHR 0x00 \<notin> set (exception_text n e)"
  using hex_lower.string_chars[of _ "unat e"] int_string_clean[of "sint n"] exception_names_ok(1)[of n]
  by (auto simp: exception_text_def)

text \<open>The message fits the 256 bytes of \<^verbatim>\<open>panicf\<close>.\<close>

lemma exception_formatted:
  assumes "n \<noteq> 0x80000000"
  shows "\<exists>b. exception_handler ld st dev r n e s = panic ld st dev r b s \<and> cstr b = cstr (exception_text n e)"
proof -
  let ?h = "number_string digit_lower 16 (unat e)"
  have neq: "sint n \<noteq> INT_MIN"
  proof
    assume "sint n = INT_MIN"
    then have "sint n = sint (0x80000000 :: u32)" by simp
    then have "n = 0x80000000" by (rule signed_word_eqI)
    with assms show False ..
  qed
  have il: "length (int_string (sint n)) \<le> 11"
    using sint_ge[of n] sint_lt[of n] by (intro int_string_length) simp_all
  have hl: "length ?h \<le> 8" by (rule hex_lower_u32)
  let ?P = "map (\<lambda>c. Text [c])"
  have fmt: "\<exists>b. panicf ld st dev r f args s = panic ld st dev r b s \<and> cstr b = cstr x"
    if "vpieces (cstr f) args = Some ps" "concat (map piece_text ps) = x" "length x \<le> 255" for f args ps x
    using vsnprintf_ok[of 256 0 "replicate 256 (CHR 0x00)" f args ps] that fit_all[of ps 255]
      cstr_write_at[of x "replicate 256 (CHR 0x00)"] by (auto simp: panicf_def)
  show ?thesis
  proof (cases "unat n < 32")
    case True
    have cn: "cstr (exception_names ! unat n) = exception_names ! unat n"
      using exception_names_ok(1)[OF True] by (rule cstr_clean)
    have "\<exists>b. panicf ld st dev r ''Exception %d (%s), Error Code: %x''
        [Va_int n, Va_str (Some (exception_names ! unat n)), Va_int e] s = panic ld st dev r b s \<and>
        cstr b = cstr (exception_text n e)"
      by (rule fmt) (use True neq cn il hl exception_names_ok(2)[OF True] in \<open>simp_all add: cstr_clean exception_text_def\<close>)+
    then show ?thesis using True by (simp add: exception_handler_def exception_names_def)
  next
    case False
    have "\<exists>b. panicf ld st dev r ''Unknown Exception %d, Error Code: %x'' [Va_int n, Va_int e] s =
        panic ld st dev r b s \<and> cstr b = cstr (exception_text n e)"
      by (rule fmt) (use False neq il hl in \<open>simp_all add: cstr_clean exception_text_def\<close>)+
    then show ?thesis using False by (simp add: exception_handler_def exception_names_def)
  qed
qed

section \<open>Properties\<close>

text \<open>
  C17. \<^verbatim>\<open>exception_handler\<close> on a mapped screen, for every exception number but 0x80000000 (whose
  printing under \<^verbatim>\<open>%d\<close> overflows): it ends with interrupts off and the processor halted, without a
  further fault and without a write outside the screen. With a level of at least \<^verbatim>\<open>ERROR\<close>, the banner,
  the number and name of the exception with its error code, and the registers are on the screen
  and the serial line; with level \<^verbatim>\<open>NONE\<close> nothing is shown at all.
\<close>

theorem exception_handler_reports:
  fixes s :: "(paging_state, 'a) machine_state_scheme"
  assumes "console_inv dev u (s\<lparr>debug_target := 0xFF\<rparr>)" and "n \<noteq> 0x80000000"
  shows "\<exists>t. exception_handler vm_ld vm_st dev r n e s = Inr t \<and> halted t \<and> \<not> interrupt_flag t \<and>
    term_view_of (\<lambda>s a. phys_mem s (V2P a)) u t =
      (if debug_level s < 1 then id
       else fold (\<lambda>(format, args). view_log 0xFF (terminal_serial_output s) (terminal_color s) (log_line 1 format args))
         (panic_calls r (exception_text n e))) (term_view_of (\<lambda>s a. phys_mem s (V2P a)) u s) \<and>
    screen_only (phys_mem (vram s)) (phys_mem (vram t))"
proof -
  obtain b where b: "exception_handler vm_ld vm_st dev r n e s = panic vm_ld vm_st dev r b s"
    "cstr b = cstr (exception_text n e)"
    using exception_formatted[OF assms(2)] by blast
  have "panic_view s r b = (if debug_level s < 1 then id
      else fold (\<lambda>(format, args). view_log 0xFF (terminal_serial_output s) (terminal_color s) (log_line 1 format args))
        (panic_calls r (exception_text n e)))"
    unfolding panic_view_cstr[OF b(2)]
    unfolding panic_view_def show_line_def[abs_def] by (simp add: fold_ident)
  with panic_ok[OF assms(1), of r b] b(1) show ?thesis by simp
qed

definition sample_machine :: "paging_state machine_state" where
  "sample_machine = \<lparr>io = [], terminal_row = 24, terminal_column = 0, terminal_color = 7,
     terminal_buffer = 0xC00B8000, terminal_serial_output = False, vram = booted,
     putchar_serial_output = False, serial_output_enabled = False, debug_level = 3, debug_target = 1,
     debug_initialized = True, debug_buffer = replicate 1024 (CHR 0x00), interrupt_flag = True, halted = False\<rparr>"

definition sample_regs :: cpu_regs where
  "sample_regs = \<lparr>eax = 0, ebx = 0, ecx = 0, edx = 0, esi = 0, edi = 0, ebp = 0, esp = 0, eip = 0xC0105000,
     eflags = 2, reg_cr0 = 0x80000011, reg_cr2 = 0xDEAD0000, reg_cr3 = 0x101000, reg_cr4 = 0\<rparr>"

theorem exception_handler_reports_witness:
  "\<exists>t. exception_handler vm_ld vm_st ideal_chip sample_regs 14 2 sample_machine = Inr t \<and> halted t \<and> \<not> interrupt_flag t"
proof -
  let ?u = "\<lparr>lcr = 3, mcr = 0x0F, ier = 0, fcr = 0, divisor_low = 1, divisor_high = 0, line = []\<rparr>"
  have "console_inv ideal_chip ?u (sample_machine\<lparr>debug_target := 0xFF\<rparr>)"
    by (simp add: console_inv_def sample_machine_def booted_vga log_ready_def chips_live uart_after_def
        transmitting_def bit_numeral_rec)
  moreover have "(14 :: u32) \<noteq> 0x80000000" by simp
  ultimately show ?thesis using exception_handler_reports by blast
qed

text \<open>
  C28. \<^verbatim>\<open>abort\<close> on a mapped screen prints its one line, as \<^verbatim>\<open>printf\<close> does and whatever the debug level,
  and stops for good with interrupts as they were; \<^verbatim>\<open>__stack_chk_fail\<close>, as the kernel is built, stops
  without showing anything.
\<close>

theorem abort_reports:
  fixes s :: "(paging_state, 'a) machine_state_scheme"
  assumes "run_inv (vram s, {0xB8000})" and "terminal_buffer s = 0xC00B8000"
    and "terminal_row s < 25" and "terminal_column s < 80" and "console_ok dev u s"
  shows "(\<exists>t. abort vm_ld vm_st dev s = Inr t \<and> halted t \<and> interrupt_flag t = interrupt_flag s \<and>
      term_view_of (\<lambda>s a. phys_mem s (V2P a)) u t =
        fold (view_emit (terminal_serial_output s) (putchar_serial_output s) (serial_output_enabled s)
          (terminal_color s)) (''abort()'' @ NL) (term_view_of (\<lambda>s a. phys_mem s (V2P a)) u s) \<and>
      screen_only (phys_mem (vram s)) (phys_mem (vram t))) \<and>
    (\<exists>t. stack_chk_fail s = Inr t \<and> halted t \<and>
      term_view_of (\<lambda>s a. phys_mem s (V2P a)) u t = term_view_of (\<lambda>s a. phys_mem s (V2P a)) u s)"
proof
  have ok: "vga_paged.term_ok (vram s) s"
    using assms(1-4) vga_mapped_start[OF assms(1)] by (simp add: vga_paged.term_ok_def)
  have r: "render (cstr (''abort()'' @ NL)) [] = Some (''abort()'' @ NL)"
    by (simp add: cstr_def conversion_def)
  obtain t where t: "printf vm_ld vm_st dev (''abort()'' @ NL) [] s = Inr (8, t)"
    "vga_paged.emit_ok (vram s) dev u (''abort()'' @ NL) s t"
    using vga_paged.printf_loop_emits[OF ok assms(5) r, of 0] by (auto simp: printf_def)
  have "interrupt_flag t = interrupt_flag s"
    using t(2) by (cases s; cases t) (simp add: vga_paged.emit_ok_def)
  moreover have "term_view_of (\<lambda>s a. phys_mem s (V2P a)) u (t\<lparr>halted := True\<rparr>) =
      term_view_of (\<lambda>s a. phys_mem s (V2P a)) u t" by (simp add: term_view_of_def uart_after_def)
  ultimately show "\<exists>t. abort vm_ld vm_st dev s = Inr t \<and> halted t \<and> interrupt_flag t = interrupt_flag s \<and>
      term_view_of (\<lambda>s a. phys_mem s (V2P a)) u t =
        fold (view_emit (terminal_serial_output s) (putchar_serial_output s) (serial_output_enabled s)
          (terminal_color s)) (''abort()'' @ NL) (term_view_of (\<lambda>s a. phys_mem s (V2P a)) u s) \<and>
      screen_only (phys_mem (vram s)) (phys_mem (vram t))"
    using t vga_mapped_kept[OF _ assms(1)] by (auto simp: abort_def vga_paged.emit_ok_def vga_paged.term_ok_def)
  show "\<exists>t. stack_chk_fail s = Inr t \<and> halted t \<and>
      term_view_of (\<lambda>s a. phys_mem s (V2P a)) u t = term_view_of (\<lambda>s a. phys_mem s (V2P a)) u s"
    by (simp add: stack_chk_fail_def term_view_of_def uart_after_def)
qed

theorem abort_reports_witness:
  "\<exists>t. abort vm_ld vm_st ideal_chip sample_machine = Inr t \<and> halted t \<and> interrupt_flag t"
proof -
  have "run_inv (vram sample_machine, {0xB8000})" "terminal_buffer sample_machine = 0xC00B8000"
    "terminal_row sample_machine < 25" "terminal_column sample_machine < 80"
    "console_ok ideal_chip u sample_machine" "interrupt_flag sample_machine" for u
    by (simp_all add: sample_machine_def booted_vga console_ok_def)
  with abort_reports show ?thesis by blast
qed

end
