(* ===== verification/Kernel_Props.thy ===== *)
theory Kernel_Props
  imports Kernel_Boot Panic_Props
begin

text \<open>
  The main program as a whole: what it leaves behind and what the serial line has received.
\<close>

section \<open>The state the bootstrap hands over\<close>

text \<open>
  The bootstrap's tables are in use, the terminal is initialised on the paged screen, all flags of
  libc and the log are as the program is loaded, and the serial chip passes its self test and transmits.
\<close>

definition handed_over :: "device \<Rightarrow> u32 \<Rightarrow> u32 \<Rightarrow> 'a kernel_state_scheme \<Rightarrow> bool" where
  "handed_over dev bpd bpt s \<longleftrightarrow> booting bpd bpt (vram s) \<and> terminal_buffer s = 0xC00B8000 \<and>
     terminal_row s < 25 \<and> terminal_column s < 80 \<and> \<not> terminal_serial_output s \<and> \<not> putchar_serial_output s \<and>
     \<not> serial_output_enabled s \<and> \<not> debug_initialized s \<and> length (debug_buffer s) = 1024 \<and>
     fst (serial_init_com1 dev s) \<and> transmit_live dev COM1_PORT"

lemma wire_log: "\<exists>y. wire (view_log target False color str v) = wire v @ y"
proof -
  have "wire (fold (view_putchar False color) str v) = wire v"
    by (induction str arbitrary: v) (simp_all add: view_putchar_def)
  then show ?thesis by (simp add: view_log_def Let_def)
qed

lemma appear_later: "appear xs y \<Longrightarrow> appear xs (z @ y)"
proof (cases xs)
  case (Cons x ws)
  assume "appear xs y"
  with Cons obtain a b where "y = a @ serial_text x @ b" "appear ws b" by auto
  then have "z @ y = (z @ a) @ serial_text x @ b" "appear ws b" by simp_all
  then show ?thesis unfolding Cons appear.simps by blast
qed simp

text \<open>The log is initialised, then the terminal's mirror takes over the serial line.\<close>

lemma debug_init_boot:
  assumes h: "handed_over dev bpd bpt s"
  obtains t y where "debug_init vm_ld vm_st dev s = Inr t" "booting bpd bpt (vram t)"
    "terminal_buffer t = 0xC00B8000" "terminal_row t < 25" "terminal_column t < 80" "length (debug_buffer t) = 1024"
    "transmit_live dev COM1_PORT" "transmitting (uart_after COM1_PORT u t)"
    "line (uart_after COM1_PORT u t) = line (uart_after COM1_PORT u s) @ y" "debug_state.more t = debug_state.more s"
proof -
  obtain s1 where s1: "serial_init_com1 dev s = (True, s1)" using h by (cases "serial_init_com1 dev s") (auto simp: handed_over_def)
  let ?s = "s1\<lparr>debug_level := 3, debug_target := 3, debug_initialized := True\<rparr>"
  have b: "booting bpd bpt (vram s)" using h by (simp add: handed_over_def)
  have "vga_paged.term_ok (vram s) s" "length (debug_buffer s) = 1024" "\<not> debug_initialized s"
    "\<not> terminal_serial_output s" "\<not> putchar_serial_output s" "\<not> serial_output_enabled s" "transmit_live dev COM1_PORT"
    using h booting_screen[OF b] by (simp_all add: handed_over_def vga_paged.term_ok_def)
  note d = vga_paged.debug_init_logs[OF this(1-6) s1 this(7), of u]
  obtain t F where t: "debug_init vm_ld vm_st dev s = Inr t" "vga_paged.log_ok (vram s) dev u F ?s t"
    "vga_paged.view u ?s = vga_paged.view u s" "\<And>v. \<exists>y. wire (F v) = wire v @ y"
  proof -
    have "\<exists>y. wire (view_log a False c x (view_log b False d z v)) = wire v @ y" for a b c d x z v
      using wire_log[of a c x "view_log b False d z v"] wire_log[of b d z v] by auto
    with d that show thesis by blast
  qed
  have "serial_state.more s1 = serial_state.more s"
    using s1 by (auto simp: serial_init_com1_def serial_init_def inb_def outb_def Let_def split: if_splits)
  then have m: "debug_state.more s1 = debug_state.more s" by (cases s; cases s1) simp
  have "vga_paged.view u t = F (vga_paged.view u s)" using t(2,3) by (simp add: vga_paged.log_ok_def)
  then obtain y where "wire (vga_paged.view u t) = wire (vga_paged.view u s) @ y" using t(4) by metis
  then have y: "line (uart_after COM1_PORT u t) = line (uart_after COM1_PORT u s) @ y" by (simp add: vga_paged.view_def)
  show thesis
  proof (rule that[OF t(1)])
    show "booting bpd bpt (vram t)"
      using t(2) booting_stable[OF b] by (simp add: vga_paged.log_ok_def vga_paged.term_ok_def)
    show "line (uart_after COM1_PORT u t) = line (uart_after COM1_PORT u s) @ y" by (rule y)
  qed (use t(2) m in \<open>simp_all add: vga_paged.log_ok_def vga_paged.term_ok_def log_ready_def\<close>)
qed

definition start_line :: string where
  "start_line = log_line 3 ''RedOS kernel starting...'' []"

lemma start_ok:
  fixes s :: "'a kernel_state_scheme"
  assumes h: "handed_over dev bpd bpt s"
  shows "returns (kernel_start dev l s) (\<lambda>t. \<exists>s1 y. debug_level s1 = 4 \<and> debug_target s1 = 0xFF \<and>
    debug_state.more s1 = debug_state.more s \<and> line (uart_after COM1_PORT u s1) = line (uart_after COM1_PORT u s) @ y \<and>
    kernel_at (booting bpd bpt) dev u s1 [start_line] t)"
proof -
  obtain t y where t: "debug_init vm_ld vm_st dev s = Inr t" "booting bpd bpt (vram t)"
    "terminal_buffer t = 0xC00B8000" "terminal_row t < 25" "terminal_column t < 80" "length (debug_buffer t) = 1024"
    "transmit_live dev COM1_PORT" "transmitting (uart_after COM1_PORT u t)"
    "line (uart_after COM1_PORT u t) = line (uart_after COM1_PORT u s) @ y" "debug_state.more t = debug_state.more s"
    using debug_init_boot[OF h, of u] by blast
  let ?t = "t\<lparr>terminal_serial_output := True, serial_output_enabled := False, putchar_serial_output := False,
      debug_level := 4, debug_target := 0xFF\<rparr>"
  have at: "kernel_at (booting bpd bpt) dev u ?t [] ?t"
    using t(2-8) by (simp add: kernel_at_def speaking_def heard_def log_ready_def uart_after_def)
  have l: "3 \<le> debug_level ?t" "debug_target ?t AND 1 \<noteq> 0" by simp_all
  have lv: "debug_set_level 4 x = x\<lparr>debug_level := 4\<rparr>" for x :: "'a kernel_state_scheme"
    by (simp add: debug_set_level_def)
  have "returns (kernel_start dev l s) (kernel_at (booting bpd bpt) dev u ?t ([] @ [start_line]))"
    unfolding kernel_start_def test_debugging_levels_def debug_info_def debug_error_def debug_warning_def debug_debug_def
      debug_trace_def t(1) bindE_simps Let_def terminal_enable_serial_def printf_enable_serial_def
      putchar_enable_serial_def debug_set_target_def start_line_def bindE_assoc
      lv
    apply (rule booting.at_debug_tell[OF at], simp add: cstr_def, rule l, rule l)
    apply (rule booting.at_debug_step, assumption, simp add: cstr_def)
    apply (rule booting.at_debug_step, assumption, simp add: cstr_def)
    apply (rule booting.at_debug_step, assumption, simp add: cstr_def)
    apply (rule booting.at_debug_step, assumption, simp add: cstr_def)
    apply (rule booting.at_debug_step, assumption, simp add: cstr_def)
    apply (rule booting.at_debug_step, assumption, simp add: cstr_def)
    apply (rule booting.at_say_step, assumption, simp add: fmt, simp, simp)
    apply (rule booting.at_say, assumption, simp add: fmt, simp, simp)
    done
  then show ?thesis
    by (rule returns_mono) (use t(9,10) in \<open>auto simp: uart_after_def intro!: exI[of _ ?t] exI[of _ y]\<close>)
qed

section \<open>After the check of the address\<close>

definition passed_line :: string where
  "passed_line = log_line 3 ''Memory test passed successfully'' []"

definition booted_line :: string where
  "booted_line = log_line 3 ''RedOS successfully booted in higher half mode!'' []"

text \<open>Four frames of the window are left for the memory test: three pages and a table.\<close>

lemma frames_left:
  assumes "ke \<le> 0x3FC000"
  shows "4 \<le> card ({..<1024} - ({..<256} \<union> page_span ks ke))"
proof -
  have "f < 1020" if "f \<in> page_span ks ke" for f
    using that assms by (simp add: page_span_def word_le_nat_alt)
  then have "{1020..<1024} \<subseteq> {..<1024} - ({..<256} \<union> page_span ks ke)" by fastforce
  from card_mono[OF _ this] show ?thesis by simp
qed

text \<open>The translation behind the memory test: the test address unmapped, all else as it was initialised.\<close>

definition restored :: "(u32 \<Rightarrow> u32 option) \<Rightarrow> bool" where
  "restored T \<longleftrightarrow> T 0xD0000000 = None \<and>
     (\<forall>va. drop_bit 22 va \<noteq> 1023 \<and> drop_bit 12 va \<noteq> 0xD0000 \<longrightarrow> T va = initial_map va)"

lemma restored_after:
  assumes "\<forall>va. drop_bit 22 va \<noteq> 1023 \<longrightarrow> T va = initial_map va" and "T' 0xD0000000 = None"
    and "\<forall>vb. drop_bit 22 vb \<noteq> 1023 \<and> drop_bit 12 vb \<noteq> drop_bit 12 (0xD0000000 :: u32) \<longrightarrow> T' vb = T vb"
  shows "restored T'"
  using assms by (simp add: restored_def)

lemma restored_page:
  assumes "paging_inv s" "restored (mmu_translate s)" "drop_bit 22 va \<noteq> 1023"
  shows "mmu_translate s va = initial_map va"
proof (cases "drop_bit 12 va = (0xD0000 :: u32)")
  case True
  then have p: "drop_bit 12 (0xD0000000 :: u32) = drop_bit 12 va" by simp
  have "drop_bit 10 (drop_bit 12 va) = (0x340 :: u32)" unfolding True by simp
  then have d: "drop_bit 22 va = (0x340 :: u32)" by (simp only: drop_bit_drop_bit) simp
  have "mmu_translate s va = None"
  proof (rule ccontr)
    assume "mmu_translate s va \<noteq> None"
    then obtain a where "mmu_walk (phys_mem s) (cr3 s) va = Some a" by (auto simp: inv_translate[OF assms(1)])
    from walk_same_page[OF this p] assms(2) show False by (simp add: restored_def inv_translate[OF assms(1)])
  qed
  moreover have "\<not> va < 0x400000" using window_low(1)[of va] d by auto
  ultimately show ?thesis using d by (simp add: initial_map_def)
next
  case False
  then show ?thesis using assms(2,3) by (simp add: restored_def)
qed

lemma continue_ok:
  assumes s: "kernel_at (booting bpd bpt) dev u s0 xs s"
    and img: "image_ok (kernel_physical_start l) (kernel_physical_end l) bpd bpt" "kernel_physical_end l \<le> 0x3FC000"
    and vs: "0x100000 \<le> V2P (kernel_virtual_start l)" "V2P (kernel_virtual_start l) \<le> 0x3FFF80"
    and lev: "3 \<le> debug_level s0" "debug_target s0 AND 1 \<noteq> 0"
  shows "returns (kernel_continue dev l s) (\<lambda>t. \<exists>U T. restored T \<and>
    kernel_at (space {0xB8000} U T 0xD0000000) dev u (s0\<lparr>debug_target := 0xFF\<rparr>) (xs @ [passed_line] @ [booted_line]) t)"
proof -
  show ?thesis
    unfolding kernel_continue_def print_kernel_memory_layout_def debug_info_def bindE_assoc booted_line_def append_assoc[symmetric]
    apply (rule booting.at_say_step[OF s], simp add: fmt, simp, simp)
    apply (rule booting.at_say_step, assumption, simp add: fmt, simp, simp)
    apply (rule booting.at_say_step, assumption, simp add: fmt, simp, simp)
    apply (rule booting.at_say_step, assumption, simp add: fmt, simp, simp)
    apply (rule booting.at_say_step, assumption, simp add: fmt, simp, simp)
    apply (rule booting.at_say_step, assumption, simp add: fmt, simp, simp)
    apply (rule returns_bind, rule at_init, assumption, rule img(1), unfold set_up_space_def, elim exE conjE)
    apply (rule returns_bind, rule at_info, assumption)
    apply (rule returns_bind, rule memory_test_ok[folded passed_line_def], assumption, rule frames_left[OF img(2)], rule lev, rule lev)
    apply (elim exE conjE)
    apply (rule returns_bind, rule at_info, assumption)
    apply (rule running.at_debug_step, assumption, simp add: cstr_def)
    apply (rule returns_bind, rule at_kernel_dump, assumption, rule vs, rule vs)
    apply (rule running.at_debug_step, assumption, simp add: cstr_def)
    apply (rule running.at_debug_step, erule kernel_at_target, simp add: cstr_def)
    apply (rule running.at_debug_step, erule kernel_at_target, simp add: cstr_def)
    apply (rule running.at_debug_step, erule kernel_at_target, simp add: cstr_def)
    apply (rule running.at_debug_tell, assumption, simp add: cstr_def, use lev(1) in simp, simp)
    apply (rule returns_mono, rule running.at_say, assumption, simp add: fmt, simp, simp)
    apply (intro exI conjI, rule restored_after, assumption, assumption, assumption, simp)
    done
qed

lemma main_ok:
  fixes s :: "'a kernel_state_scheme"
  assumes "handed_over dev bpd bpt s" and "is_higher_half_address (kernel_main_address l)"
    and "image_ok (kernel_physical_start l) (kernel_physical_end l) bpd bpt" and "kernel_physical_end l \<le> 0x3FC000"
    and "0x100000 \<le> V2P (kernel_virtual_start l)" and "V2P (kernel_virtual_start l) \<le> 0x3FFF80"
  shows "returns (kernel_main dev l r s) (\<lambda>t. \<exists>s1 y U T. debug_state.more s1 = debug_state.more s \<and>
      line (uart_after COM1_PORT u s1) = line (uart_after COM1_PORT u s) @ y \<and> restored T \<and>
      kernel_at (space {0xB8000} U T 0xD0000000) dev u (s1\<lparr>debug_target := 0xFF\<rparr>)
        ([start_line] @ [passed_line] @ [booted_line]) t)"
  unfolding kernel_main_def debug_info_def
  apply (rule returns_bind[OF start_ok[OF assms(1), of l u]], elim exE conjE)
  apply (simp only: assms(2) if_True)
  apply (rule booting.at_debug_step, assumption, simp add: cstr_def)
  apply (rule returns_mono, rule continue_ok, assumption, rule assms, rule assms, rule assms, rule assms, simp, simp)
  apply (elim exE conjE, intro exI conjI)
  apply assumption+
  done

text \<open>What is left of the state of a sequence of calls for a reader of the serial line.\<close>

lemma space_heard:
  assumes "debug_state.more s1 = debug_state.more s" "line (uart_after COM1_PORT u s1) = line (uart_after COM1_PORT u s) @ y"
    and "restored T" "kernel_at (space {0xB8000} U T 0xD0000000) dev u (s1\<lparr>debug_target := x\<rparr>) xs t"
  obtains z where "run_inv (vram t, {0xB8000})" "mmu_translate (vram t) 0xD0000000 = None"
    "\<forall>va. drop_bit 22 va \<noteq> 1023 \<longrightarrow> mmu_translate (vram t) va = initial_map va"
    "debug_state.more t = debug_state.more s" "line (uart_after COM1_PORT u t) = line (uart_after COM1_PORT u s) @ z" "appear xs z"
proof -
  from assms(4) obtain z where z: "line (uart_after COM1_PORT u t) = line (uart_after COM1_PORT u s1) @ z"
    "appear xs z" "debug_state.more t = debug_state.more s1"
    by (auto simp: kernel_at_def heard_def uart_after_def simp del: appear.simps)
  have t: "run_inv (vram t, {0xB8000})" "restored (mmu_translate (vram t))"
    using assms(3,4) by (auto simp: kernel_at_def space_def)
  then have "paging_inv (vram t)" by (simp add: run_inv_def)
  note restored_page[OF this t(2)]
  with t assms(1,2) z appear_later[OF z(2), of y] show thesis
    by (intro that[of "y @ z"]) (simp_all add: restored_def)
qed

section \<open>Properties\<close>

text \<open>
  C3. The kernel boots: handed over by the bootstrap, linked to the higher half with four frames of
  the first 4 MiB left free behind its image, \<^verbatim>\<open>kernel_main\<close> returns without a fault. Paging has been set
  up and its invariant holds, the screen's page apart; the test address is unmapped again, and outside the
  recursive area every address translates as \<^verbatim>\<open>init_paging\<close> left it, to the first 4 MiB at 0 and at
  0xC0000000 and to nothing elsewhere; interrupts and the processor are as before. The serial line has received, in this order, the greeting, the
  message that the memory test passed, and the message that the kernel has booted.
\<close>

theorem kernel_main_boots:
  fixes s :: "'a kernel_state_scheme"
  assumes "handed_over dev bpd bpt s" and "is_higher_half_address (kernel_main_address l)"
    and "image_ok (kernel_physical_start l) (kernel_physical_end l) bpd bpt" and "kernel_physical_end l \<le> 0x3FC000"
    and "0x100000 \<le> V2P (kernel_virtual_start l)" and "V2P (kernel_virtual_start l) \<le> 0x3FFF80"
  shows "\<exists>t y. kernel_main dev l r s = Inr t \<and> run_inv (vram t, {0xB8000}) \<and>
    mmu_translate (vram t) 0xD0000000 = None \<and>
    (\<forall>va. drop_bit 22 va \<noteq> 1023 \<longrightarrow> mmu_translate (vram t) va = initial_map va) \<and>
    debug_state.more t = debug_state.more s \<and>
    line (uart_after COM1_PORT u t) = line (uart_after COM1_PORT u s) @ y \<and>
    appear [log_line 3 ''RedOS kernel starting...'' [], log_line 3 ''Memory test passed successfully'' [],
      log_line 3 ''RedOS successfully booted in higher half mode!'' []] y"
proof -
  obtain t s1 y U T where t: "kernel_main dev l r s = Inr t" and "debug_state.more s1 = debug_state.more s"
    "line (uart_after COM1_PORT u s1) = line (uart_after COM1_PORT u s) @ y" "restored T"
    "kernel_at (space {0xB8000} U T 0xD0000000) dev u (s1\<lparr>debug_target := 0xFF\<rparr>) [start_line, passed_line, booted_line] t"
    using main_ok[OF assms, of r u] by (auto simp: returns_def)
  from this(2-5) obtain z where "run_inv (vram t, {0xB8000})" "mmu_translate (vram t) 0xD0000000 = None"
    "\<forall>va. drop_bit 22 va \<noteq> 1023 \<longrightarrow> mmu_translate (vram t) va = initial_map va"
    "debug_state.more t = debug_state.more s" "line (uart_after COM1_PORT u t) = line (uart_after COM1_PORT u s) @ z"
    "appear [start_line, passed_line, booted_line] z"
    by (rule space_heard)
  with t show ?thesis
    unfolding start_line_def passed_line_def booted_line_def by blast
qed

text \<open>A machine as the bootstrap hands it over, with an image from 0x100000 to 0x140000.\<close>

definition sample_kernel :: "paging_state machine_state" where
  "sample_kernel = \<lparr>io = [], terminal_row = 2, terminal_column = 0, terminal_color = 7,
     terminal_buffer = 0xC00B8000, terminal_serial_output = False,
     vram = boot_state,
     putchar_serial_output = False, serial_output_enabled = False, debug_level = 3, debug_target = 1,
     debug_initialized = False, debug_buffer = replicate 1024 (CHR 0x00), interrupt_flag = False, halted = False\<rparr>"

definition sample_symbols :: link_symbols where
  "sample_symbols = \<lparr>kernel_virtual_start = 0xC0105000, kernel_virtual_end = 0xC0140000,
     kernel_physical_start = 0x100000, kernel_physical_end = 0x140000, kernel_main_address = 0xC0106000\<rparr>"

lemma sample_handed_over: "handed_over ideal_chip 0x101000 0x102000 sample_kernel"
proof -
  have "boot_pages_ok 0x101000 0x102000" using image_sample by (simp add: image_ok_def)
  then have "booting 0x101000 0x102000 (vram sample_kernel)"
    using boot_state(2) by (simp add: booting_def sample_kernel_def)
  moreover have "fst (serial_init_com1 ideal_chip sample_kernel)"
    by (simp add: serial_init_com1_def serial_init_def sample_kernel_def Let_def inb_def outb_def ideal_chip_def)
  ultimately show ?thesis by (simp add: handed_over_def chips_live) (simp add: sample_kernel_def)
qed

theorem kernel_main_boots_witness:
  "\<exists>t. kernel_main ideal_chip sample_symbols sample_regs sample_kernel = Inr t \<and> run_inv (vram t, {0xB8000}) \<and>
     mmu_translate (vram t) 0xD0000000 = None \<and> \<not> halted t"
proof -
  have "is_higher_half_address (kernel_main_address sample_symbols)"
    "image_ok (kernel_physical_start sample_symbols) (kernel_physical_end sample_symbols) 0x101000 0x102000"
    "kernel_physical_end sample_symbols \<le> 0x3FC000"
    "0x100000 \<le> V2P (kernel_virtual_start sample_symbols)" "V2P (kernel_virtual_start sample_symbols) \<le> 0x3FFF80"
    using image_sample by (simp_all add: sample_symbols_def is_higher_half_address_def V2P_def)
  from kernel_main_boots[OF sample_handed_over this, of sample_regs] obtain t where
    t: "kernel_main ideal_chip sample_symbols sample_regs sample_kernel = Inr t" "run_inv (vram t, {0xB8000})"
      "mmu_translate (vram t) 0xD0000000 = None" "debug_state.more t = debug_state.more sample_kernel" by blast
  from machine_fields(2)[OF t(4)] have "\<not> halted t" by (simp add: sample_kernel_def)
  with t show ?thesis by blast
qed

text \<open>
  C18. A kernel that is not linked to the higher half panics: \<^verbatim>\<open>kernel_main\<close> ends with interrupts off and
  the processor halted before paging is touched, so that the bootstrap's tables are still in use, and
  the panic message is on the serial line behind the greeting.
\<close>

theorem kernel_main_low_panics:
  fixes s :: "'a kernel_state_scheme"
  assumes "handed_over dev bpd bpt s" and "\<not> is_higher_half_address (kernel_main_address l)"
  shows "\<exists>t y. kernel_main dev l r s = Inr t \<and> halted t \<and> \<not> interrupt_flag t \<and> booting bpd bpt (vram t) \<and>
    line (uart_after COM1_PORT u t) = line (uart_after COM1_PORT u s) @ y \<and>
    appear [log_line 3 ''RedOS kernel starting...'' [],
      log_line 1 ''PANIC: %s'' [Va_str (Some ''Kernel not in higher half'')]] y"
proof -
  let ?panic = "log_line 1 ''PANIC: %s'' [Va_str (Some ''Kernel not in higher half'')]"
  have "returns (kernel_main dev l r s) (\<lambda>t. \<exists>(s1 :: 'a kernel_state_scheme) y. line (uart_after COM1_PORT u s1) = line (uart_after COM1_PORT u s) @ y \<and>
      halted t \<and> \<not> interrupt_flag t \<and> booting bpd bpt (vram t) \<and>
      (\<exists>z. line (uart_after COM1_PORT u t) = line (uart_after COM1_PORT u s1) @ z \<and> appear ([start_line] @ [?panic]) z))"
    unfolding kernel_main_def debug_error_def
    apply (rule returns_bind[OF start_ok[OF assms(1), of l u]], elim exE conjE)
    apply (simp only: assms(2) if_False)
    apply (rule booting.at_debug_step, assumption, simp add: cstr_def)
    apply (rule returns_mono, rule booting.at_panic, assumption, simp)
    apply (elim exE conjE, intro exI conjI)
    apply assumption+
    done
  then obtain t y z and s1 :: "'a kernel_state_scheme" where t: "kernel_main dev l r s = Inr t" "halted t" "\<not> interrupt_flag t" "booting bpd bpt (vram t)"
    and y: "line (uart_after COM1_PORT u s1) = line (uart_after COM1_PORT u s) @ y"
    and z: "line (uart_after COM1_PORT u t) = line (uart_after COM1_PORT u s1) @ z" "appear [start_line, ?panic] z"
    by (auto simp: returns_def simp del: appear.simps)
  from t y z appear_later[OF z(2), of y] show ?thesis
    unfolding start_line_def by (intro exI[of _ t] exI[of _ "y @ z"]) (simp del: appear.simps)
qed

theorem kernel_main_low_panics_witness:
  "\<exists>t. kernel_main ideal_chip (sample_symbols\<lparr>kernel_main_address := 0x106000\<rparr>) sample_regs sample_kernel = Inr t \<and> halted t"
proof -
  have "\<not> is_higher_half_address (kernel_main_address (sample_symbols\<lparr>kernel_main_address := 0x106000\<rparr>))"
    by (simp add: is_higher_half_address_def)
  from kernel_main_low_panics[OF sample_handed_over this] show ?thesis by blast
qed

text \<open>
  C5. The memory test on any running system: with the terminal mirrored to the serial line, the log at
  \<^verbatim>\<open>INFO\<close> or above and shown on the screen, the test address not served by the kernel window's own table, and
  four frames of the window free, \<^verbatim>\<open>test_memory_mapping\<close> returns. The word read back through the mapping
  was the one written, so the line has received that the test passed. Afterwards the test address is
  unmapped, every other page outside the recursive area translates as before, at most one frame, of a
  page table, is still in use, and the invariant holds with the same pages held as before.
\<close>

theorem test_memory_mapping_passes:
  assumes "run_inv (vram s, held)" and "0xB8000 \<in> held" and "speaking dev u s" and "mappable (vram s) 0xD0000000"
    and "4 \<le> card ({..<1024} - used (vram s))" and "3 \<le> debug_level s" and "debug_target s AND 1 \<noteq> 0"
  shows "\<exists>t y f. test_memory_mapping dev s = Inr t \<and> run_inv (vram t, held) \<and>
    used (vram s) \<subseteq> used (vram t) \<and> used (vram t) \<subseteq> insert f (used (vram s)) \<and>
    mmu_translate (vram t) 0xD0000000 = None \<and>
    (\<forall>vb. drop_bit 22 vb \<noteq> 1023 \<and> drop_bit 12 vb \<noteq> 0xD0000 \<longrightarrow>
       mmu_translate (vram t) vb = mmu_translate (vram s) vb) \<and>
    line (uart_after COM1_PORT u t) = line (uart_after COM1_PORT u s) @ y \<and>
    appear [log_line 3 ''Memory test passed successfully'' []] y"
proof -
  have s: "kernel_at (space held (used (vram s)) (mmu_translate (vram s)) 0xD0000000) dev u s [] s"
    using assms(1-4) by (simp add: kernel_at_def space_def heard_def)
  from memory_test_ok[OF this assms(5-7)] show ?thesis
    unfolding returns_def by (auto simp: kernel_at_def space_def heard_def simp del: appear.simps)
qed

theorem test_memory_mapping_passes_witness:
  "\<exists>t. test_memory_mapping ideal_chip (sample_machine\<lparr>terminal_serial_output := True\<rparr>) = Inr t \<and>
     run_inv (vram t, {0xB8000}) \<and> mmu_translate (vram t) 0xD0000000 = None"
proof -
  let ?s = "sample_machine\<lparr>terminal_serial_output := True\<rparr>"
  let ?u = "\<lparr>lcr = 3, mcr = 0x0F, ier = 0, fcr = 0, divisor_low = 1, divisor_high = 0, line = []\<rparr>"
  have "\<not> present booted 832" using booted_tables(1)[of 832] by simp
  then have m: "mappable booted 0xD0000000" by (simp add: mappable_def)
  have "{..<1024} - {..<320} = {320..<1024 :: nat}" by auto
  then have "run_inv (vram ?s, {0xB8000})" "speaking ideal_chip ?u ?s" "mappable (vram ?s) 0xD0000000"
    "4 \<le> card ({..<1024} - used (vram ?s))" "3 \<le> debug_level ?s" "debug_target ?s AND 1 \<noteq> 0"
    by (simp_all add: sample_machine_def booted_vga m booted(4) speaking_def log_ready_def chips_live uart_after_def
        transmitting_def bit_numeral_rec)
  from test_memory_mapping_passes[OF this(1) _ this(2-)] show ?thesis by blast
qed

end
