(* ===== verification/Multiboot_Screen.thy ===== *)
theory Multiboot_Screen
  imports Multiboot Stdio_Screen
begin

text \<open>
  What the report on the boot information denotes, as relations between the bytes of the
  information and the text printed, and that the code prints this text on any screen that does not
  overlap the information.
\<close>

section \<open>The text of the information\<close>

text \<open>\<open>R\<close> is where the information may be read, \<open>info\<close> its bytes.\<close>

definition words_at :: "(u32 \<Rightarrow> bool) \<Rightarrow> u32 \<Rightarrow> nat \<Rightarrow> bool" where
  "words_at R a n \<longleftrightarrow> (\<forall>i<4 * n. R (a + of_nat i))"

fun chars_at :: "(u32 \<Rightarrow> bool) \<Rightarrow> mem \<Rightarrow> u32 \<Rightarrow> string \<Rightarrow> bool" where
  "chars_at R info a [] \<longleftrightarrow> R a \<and> info a = 0"
| "chars_at R info a (c # cs) \<longleftrightarrow>
     R a \<and> info a \<noteq> 0 \<and> c = char_of (unat (info a)) \<and> chars_at R info (a + 1) cs"

definition string_at :: "(u32 \<Rightarrow> bool) \<Rightarrow> mem \<Rightarrow> u32 \<Rightarrow> string \<Rightarrow> bool" where
  "string_at R info a str \<longleftrightarrow> chars_at R info a str \<and> length str < 2 ^ 31"

definition printed :: "string \<Rightarrow> va_arg list \<Rightarrow> string \<Rightarrow> bool" where
  "printed format args out \<longleftrightarrow> render (cstr format) args = Some out \<and> int (length out) \<le> INT_MAX"

definition next_tag :: "mem \<Rightarrow> u32 \<Rightarrow> u32" where
  "next_tag info a = a + ((read32 info (a + 4) + 7) AND NOT 7)"

text \<open>The lines of a memory map, from entry \<open>a\<close> on, up to the end of the tag.\<close>

inductive mmap_prints :: "(u32 \<Rightarrow> bool) \<Rightarrow> mem \<Rightarrow> u32 \<Rightarrow> u32 \<Rightarrow> string \<Rightarrow> bool" for R info tag where
  mmap_done: "\<not> a < tag + read32 info (tag + 4) \<Longrightarrow> mmap_prints R info tag a []"
| mmap_entry: "a < tag + read32 info (tag + 4) \<Longrightarrow> words_at R a 5 \<Longrightarrow>
     printed (''  Region: base=%x%08x, length=%x%08x, type=%d'' @ NL)
       [Va_int (read32 info (a + 4)), Va_int (read32 info a), Va_int (read32 info (a + 12)),
        Va_int (read32 info (a + 8)), Va_int (read32 info (a + 16))] out \<Longrightarrow>
     mmap_prints R info tag (a + read32 info (tag + 8)) rest \<Longrightarrow> mmap_prints R info tag a (out @ rest)"

text \<open>What a tag of a known type prints behind its header line.\<close>

inductive body_prints :: "(u32 \<Rightarrow> bool) \<Rightarrow> mem \<Rightarrow> u32 \<Rightarrow> string \<Rightarrow> bool" for R info a where
  body_cmdline: "read32 info a = 1 \<Longrightarrow> string_at R info (a + 8) str \<Longrightarrow>
     printed (''Command line = %s'' @ NL) [Va_str (Some str)] out \<Longrightarrow> body_prints R info a out"
| body_loader: "read32 info a = 2 \<Longrightarrow> string_at R info (a + 8) str \<Longrightarrow>
     printed (''Boot loader name = %s'' @ NL) [Va_str (Some str)] out \<Longrightarrow> body_prints R info a out"
| body_module: "read32 info a = 3 \<Longrightarrow> words_at R (a + 8) 2 \<Longrightarrow> string_at R info (a + 16) str \<Longrightarrow>
     printed (''Module at %x-%x. Command line %s'' @ NL)
       [Va_int (read32 info (a + 8)), Va_int (read32 info (a + 12)), Va_str (Some str)] out \<Longrightarrow> body_prints R info a out"
| body_meminfo: "read32 info a = 4 \<Longrightarrow> words_at R (a + 8) 2 \<Longrightarrow>
     printed (''mem_lower = %dKB, mem_upper = %dKB'' @ NL)
       [Va_int (read32 info (a + 8)), Va_int (read32 info (a + 12))] out \<Longrightarrow> body_prints R info a out"
| body_bootdev: "read32 info a = 5 \<Longrightarrow> words_at R (a + 8) 3 \<Longrightarrow>
     printed (''Boot device %x,%d,%d'' @ NL)
       [Va_int (read32 info (a + 8)), Va_int (read32 info (a + 12)), Va_int (read32 info (a + 16))] out \<Longrightarrow>
     body_prints R info a out"
| body_mmap: "read32 info a = 6 \<Longrightarrow> words_at R a 3 \<Longrightarrow> mmap_prints R info a (a + 16) out \<Longrightarrow>
     body_prints R info a (''Memory map:'' @ NL @ out)"
| body_other: "6 < read32 info a \<Longrightarrow> body_prints R info a []"

text \<open>The tags from \<open>a\<close> to the end tag at \<open>e\<close>.\<close>

inductive tags_print :: "(u32 \<Rightarrow> bool) \<Rightarrow> mem \<Rightarrow> u32 \<Rightarrow> string \<Rightarrow> u32 \<Rightarrow> bool" for R info where
  tags_end: "words_at R a 2 \<Longrightarrow> read32 info a = 0 \<Longrightarrow> tags_print R info a [] a"
| tags_next: "words_at R a 2 \<Longrightarrow> read32 info a \<noteq> 0 \<Longrightarrow>
     printed (''Tag %x, Size %x'' @ NL) [Va_int (read32 info a), Va_int (read32 info (a + 4))] out \<Longrightarrow>
     body_prints R info a body \<Longrightarrow> tags_print R info (next_tag info a) rest e \<Longrightarrow>
     tags_print R info a (out @ body @ rest) e"

text \<open>The text is determined by the information.\<close>

inductive_cases mmap_printsE: "mmap_prints R info tag a out"
inductive_cases body_printsE: "body_prints R info a out"
inductive_cases tags_printE: "tags_print R info a out e"

lemma printed_unique: "printed f x out \<Longrightarrow> printed f x out' \<Longrightarrow> out = out'"
  by (simp add: printed_def)

lemma chars_unique: "chars_at R info a xs \<Longrightarrow> chars_at R info a ys \<Longrightarrow> xs = ys"
proof (induction xs arbitrary: a ys)
  case Nil
  then show ?case by (cases ys) simp_all
next
  case (Cons x xs)
  then show ?case by (cases ys) auto
qed

lemma string_unique: "string_at R info a xs \<Longrightarrow> string_at R info a ys \<Longrightarrow> xs = ys"
  using chars_unique by (auto simp: string_at_def)

lemma mmap_unique: "mmap_prints R info tag a out \<Longrightarrow> mmap_prints R info tag a out' \<Longrightarrow> out = out'"
proof (induction a out arbitrary: out' rule: mmap_prints.induct)
  case (mmap_done a)
  then show ?case by (auto elim: mmap_printsE)
next
  case (mmap_entry a out rest)
  from mmap_entry.prems mmap_entry.hyps(1) obtain out2 rest2 where "out' = out2 @ rest2"
    "printed (''  Region: base=%x%08x, length=%x%08x, type=%d'' @ NL)
       [Va_int (read32 info (a + 4)), Va_int (read32 info a), Va_int (read32 info (a + 12)),
        Va_int (read32 info (a + 8)), Va_int (read32 info (a + 16))] out2"
    "mmap_prints R info tag (a + read32 info (tag + 8)) rest2" by (auto elim: mmap_printsE)
  with mmap_entry.IH printed_unique[OF mmap_entry.hyps(3)] show ?case by blast
qed

lemma body_unique: "body_prints R info a out \<Longrightarrow> body_prints R info a out' \<Longrightarrow> out = out'"
  by (erule body_printsE; erule body_printsE) (auto dest: printed_unique string_unique mmap_unique)

lemma tags_unique: "tags_print R info a out e \<Longrightarrow> tags_print R info a out' e' \<Longrightarrow> out = out' \<and> e = e'"
proof (induction a out e arbitrary: out' e' rule: tags_print.induct)
  case (tags_end a)
  then show ?case by (auto elim: tags_printE)
next
  case (tags_next a out body rest e)
  from tags_next.prems tags_next.hyps(2) obtain out2 body2 rest2 where "out' = out2 @ body2 @ rest2"
    "printed (''Tag %x, Size %x'' @ NL) [Va_int (read32 info a), Va_int (read32 info (a + 4))] out2"
    "body_prints R info a body2" "tags_print R info (next_tag info a) rest2 e'" by (auto elim: tags_printE)
  with tags_next.IH printed_unique[OF tags_next.hyps(3)] body_unique[OF tags_next.hyps(4)] show ?case by blast
qed

lemma tags_print_end: "tags_print R info a out e \<Longrightarrow> words_at R e 2"
  by (induction rule: tags_print.induct) simp_all

definition hex :: "u32 \<Rightarrow> string" where
  "hex v = ''0x'' @ number_string digit_upper 16 (unat v)"

text \<open>The text of the whole report: the lines before the tags, the tags, the two closing lines.\<close>

definition hello_text :: "u32 \<Rightarrow> string" where
  "hello_text addr = ''Validating multiboot information at virtual address '' @ hex addr @ NL"

definition virtual_info :: "u32 \<Rightarrow> u32" where
  "virtual_info addr = (if addr < 0xC0000000 then addr + 0xC0000000 else addr)"

definition convert_text :: "u32 \<Rightarrow> string" where
  "convert_text addr = (if addr < 0xC0000000
     then ''Multiboot info pointer appears to be a physical address, converting...'' @ NL @
       ''Converted to virtual address: '' @ hex (addr + 0xC0000000) @ NL
     else [])"

text \<open>A set of tags that the loop cannot leave: none is an end tag, and each leads to one of the set.\<close>

definition endless_tags :: "(u32 \<Rightarrow> bool) \<Rightarrow> mem \<Rightarrow> u32 set \<Rightarrow> bool" where
  "endless_tags R info A \<longleftrightarrow> (\<forall>a\<in>A. words_at R a 2 \<and> read32 info a \<noteq> 0 \<and>
     (\<exists>out. printed (''Tag %x, Size %x'' @ NL) [Va_int (read32 info a), Va_int (read32 info (a + 4))] out) \<and>
     (\<exists>body. body_prints R info a body) \<and> next_tag info a \<in> A)"

section \<open>The code prints it\<close>

lemma words_atD: "words_at R a n \<Longrightarrow> k + 4 \<le> 4 * n \<Longrightarrow> i < 4 \<Longrightarrow> R (a + of_nat k + i)"
proof -
  assume w: "words_at R a n" and k: "k + 4 \<le> 4 * n" and i: "i < 4"
  have "unat i < 4" using i by (simp add: word_less_nat_alt)
  then have "R (a + of_nat (k + unat i))" using w k unfolding words_at_def by (meson add_less_mono1 less_le_trans nat_add_left_cancel_less)
  then show ?thesis by (simp add: add.assoc)
qed

context screen_memory
begin

lemma print_line_emits:
  fixes s :: "('s, 'a) stdio_state_scheme"
  assumes "term_ok s" "console_ok dev u s" "printed format args out"
  shows "\<exists>t. print_line ld st dev format args s = Inr t \<and> emit_ok dev u out s t"
  using printf_loop_emits[OF assms(1,2), of "cstr format" args out 0] assms(3)
  by (auto simp: print_line_def printf_def printed_def)

text \<open>Reading the information, which printing does not change.\<close>

definition info_ok :: "(u32 \<Rightarrow> bool) \<Rightarrow> mem \<Rightarrow> bool" where
  "info_ok R info \<longleftrightarrow> (\<forall>m a. Q m \<and> R a \<longrightarrow> ld a m = Inr (info a))"

lemma info_byte: "info_ok R info \<Longrightarrow> Q m \<Longrightarrow> R a \<Longrightarrow> ld a m = Inr (info a)"
  by (simp add: info_ok_def)

lemma info_word:
  assumes info: "info_ok R info" and q: "Q m" and w: "words_at R a n" "k + 4 \<le> 4 * n"
  shows "ld32 ld (a + of_nat k) m = Inr (read32 info (a + of_nat k))"
  using info_byte[OF info q words_atD[OF w, of 0]] info_byte[OF info q words_atD[OF w, of 1]]
    info_byte[OF info q words_atD[OF w, of 2]] info_byte[OF info q words_atD[OF w, of 3]]
  by (simp add: ld32_def read32_def)

lemma info_first:
  assumes info: "info_ok R info" and q: "Q m" and w: "words_at R a n" "0 < n"
  shows "ld32 ld a m = Inr (read32 info a)"
  using info_word[OF info q w(1), of 0] w(2) by simp

lemma info_tag:
  assumes info: "info_ok R info" and q: "Q m" and w: "words_at R a 2"
  shows "load_tag ld a m = Inr \<lparr>tag_type = read32 info a, tag_size = read32 info (a + 4)\<rparr>"
  using info_first[OF info q w] info_word[OF info q w, of 4] by (simp add: load_tag_def)

lemma strlen_chars:
  assumes info: "info_ok R info" and q: "Q m"
  shows "chars_at R info (a + len) str \<Longrightarrow> strlen_loop ld a len m = Some (Inr (len + of_nat (length str)))"
proof (induction str arbitrary: len)
  case Nil
  then show ?case using info_byte[OF info q] by (subst strlen_loop.simps) simp
next
  case (Cons c cs)
  then have "strlen_loop ld a (len + 1) m = Some (Inr (len + 1 + of_nat (length cs)))"
    by (simp add: add.assoc)
  with Cons.prems show ?case using info_byte[OF info q] by (subst strlen_loop.simps) (simp add: add.assoc)
qed

lemma load_chars_at:
  assumes info: "info_ok R info" and q: "Q m"
  shows "chars_at R info a str \<Longrightarrow> load_chars ld m (length str) a = Inr str"
  using info_byte[OF info q] by (induction str arbitrary: a) auto

lemma info_string:
  assumes info: "info_ok R info" and q: "Q m" and str: "string_at R info a str"
  shows "load_string ld a m = Inr str"
proof -
  have c: "chars_at R info (a + 0) str" and "length str < 2 ^ 31" using str by (simp_all add: string_at_def)
  then have "unat (of_nat (length str) :: u32) = length str" by (intro unat_of_nat_below[of _ "2 ^ 31"]) simp_all
  with strlen_chars[OF info q c] load_chars_at[OF info q] c show ?thesis
    by (simp add: load_string_def strlen_def)
qed

lemma print_region_emits:
  fixes s :: "('s, 'a) stdio_state_scheme"
  assumes info: "info_ok R info" and s: "term_ok s" "console_ok dev u s"
    and w: "words_at R a 5"
    and p: "printed (''  Region: base=%x%08x, length=%x%08x, type=%d'' @ NL)
       [Va_int (read32 info (a + 4)), Va_int (read32 info a), Va_int (read32 info (a + 12)),
        Va_int (read32 info (a + 8)), Va_int (read32 info (a + 16))] out"
  shows "\<exists>t. print_region ld st dev a s = Inr t \<and> emit_ok dev u out s t"
proof -
  have q: "Q (vram s)" using s(1) by (simp add: term_ok_def)
  have halves: "ucast (drop_bit 32 (ucast lo OR push_bit 32 (ucast hi) :: 64 word)) = hi"
    "ucast ((ucast lo OR push_bit 32 (ucast hi) :: 64 word) AND 0xFFFFFFFF) = lo" for lo hi :: u32
  proof -
    have m: "(0xFFFFFFFF :: 64 word) = mask 32" by (simp add: mask_eq_exp_minus_1)
    show "ucast (drop_bit 32 (ucast lo OR push_bit 32 (ucast hi) :: 64 word)) = hi"
      by (rule bit_word_eqI) (auto simp: bit_simps dest: bit_imp_le_length)
    show "ucast ((ucast lo OR push_bit 32 (ucast hi) :: 64 word) AND 0xFFFFFFFF) = lo"
      unfolding m by (rule bit_word_eqI) (auto simp: bit_simps)
  qed
  have "load_mmap_entry ld a (vram s) = Inr \<lparr>mmap_addr = ucast (read32 info a) OR push_bit 32 (ucast (read32 info (a + 4))),
      mmap_len = ucast (read32 info (a + 8)) OR push_bit 32 (ucast (read32 info (a + 12))), mmap_type = read32 info (a + 16)\<rparr>"
    using info_first[OF info q w] info_word[OF info q w, of 4] info_word[OF info q w, of 8] info_word[OF info q w, of 12]
      info_word[OF info q w, of 16]
    by (simp add: load_mmap_entry_def ld64_def add.assoc)
  with print_line_emits[OF s p] show ?thesis
    unfolding print_region_def by (simp only: bindE_simps multiboot_mmap_entry.simps halves)
qed

lemma mmap_loop_emits:
  fixes s :: "('s, 'a) stdio_state_scheme"
  assumes info: "info_ok R info" and w: "words_at R tag 3"
  shows "mmap_prints R info tag a out \<Longrightarrow> term_ok s \<Longrightarrow> console_ok dev u s \<Longrightarrow>
    \<exists>t. mmap_loop ld st dev tag a s = Some (Inr t) \<and> emit_ok dev u out s t"
proof (induction a out arbitrary: s rule: mmap_prints.induct)
  case (mmap_done a)
  have t: "load_tag ld tag (vram s) = Inr \<lparr>tag_type = read32 info tag, tag_size = read32 info (tag + 4)\<rparr>"
    using mmap_done w by (intro info_tag[OF info]) (auto simp: term_ok_def words_at_def)
  with mmap_done show ?case by (subst mmap_loop.simps) (simp add: emit_ok_Nil)
next
  case (mmap_entry a out rest)
  obtain t where t: "print_region ld st dev a s = Inr t" "emit_ok dev u out s t"
    using print_region_emits[OF info mmap_entry.prems mmap_entry.hyps(2,3)] by blast
  then have ok: "term_ok t" "console_ok dev u t" "Q (vram t)" "Q (vram s)"
    using mmap_entry.prems by (simp_all add: emit_ok_def term_ok_def)
  obtain t' where t': "mmap_loop ld st dev tag (a + read32 info (tag + 8)) t = Some (Inr t')" "emit_ok dev u rest t t'"
    using mmap_entry.IH[OF ok(1,2)] by blast
  have "load_tag ld tag (vram s) = Inr \<lparr>tag_type = read32 info tag, tag_size = read32 info (tag + 4)\<rparr>"
    using ok(4) w by (intro info_tag[OF info]) (auto simp: words_at_def)
  moreover have "ld32 ld (tag + 8) (vram t) = Inr (read32 info (tag + 8))"
    using info_word[OF info ok(3) w, of 8] by simp
  ultimately show ?case
    using mmap_entry.hyps(1) t t' emit_ok_append[OF t(2) t'(2)] by (subst mmap_loop.simps) simp
qed

lemma show_tag_emits:
  fixes s :: "('s, 'a) stdio_state_scheme"
  assumes info: "info_ok R info" and s: "term_ok s" "console_ok dev u s"
    and w: "words_at R a 2"
    and p: "printed (''Tag %x, Size %x'' @ NL) [Va_int (read32 info a), Va_int (read32 info (a + 4))] out"
    and b: "body_prints R info a body"
  shows "\<exists>t. show_tag ld st dev a s = Inr t \<and> emit_ok dev u (out @ body) s t"
proof -
  have q: "Q (vram s)" using s(1) by (simp add: term_ok_def)
  obtain t where t: "print_line ld st dev (''Tag %x, Size %x'' @ NL) [Va_int (read32 info a), Va_int (read32 info (a + 4))] s = Inr t"
    "emit_ok dev u out s t" using print_line_emits[OF s p] by blast
  then have ok: "term_ok t" "console_ok dev u t" and qt: "Q (vram t)" by (simp_all add: emit_ok_def term_ok_def)
  have emit: "\<exists>t'. print_line ld st dev f x t = Inr t' \<and> emit_ok dev u (out @ y) s t'" if "printed f x y" for f x y
    using print_line_emits[OF ok that] emit_ok_append[OF t(2)] by blast
  have tag: "show_tag ld st dev a s = show_body ld st dev a t"
    by (simp only: show_tag_def info_tag[OF info q w] bindE_simps multiboot_tag.simps t(1))
  note word = info_word[OF info qt, where a = "a + 8"] and head = info_tag[OF info qt w]
  note string = info_string[OF info qt]
  show ?thesis using b
  proof cases
    case (body_cmdline str)
    with emit[OF body_cmdline(3)] string[OF body_cmdline(2)] show ?thesis by (simp add: tag show_body_def head)
  next
    case (body_loader str)
    with emit[OF body_loader(3)] string[OF body_loader(2)] show ?thesis by (simp add: tag show_body_def head)
  next
    case (body_module str)
    with emit[OF body_module(4)] show ?thesis
      using word[where n = 2 and k = 0] word[where n = 2 and k = 4] string[OF body_module(3)]
      by (simp add: tag show_body_def head load_module_def add.assoc)
  next
    case body_meminfo
    with emit[OF body_meminfo(3)] show ?thesis
      using word[where n = 2 and k = 0] word[where n = 2 and k = 4]
      by (simp add: tag show_body_def head load_meminfo_def add.assoc)
  next
    case body_bootdev
    with emit[OF body_bootdev(3)] show ?thesis
      using word[where n = 3 and k = 0] word[where n = 3 and k = 4] word[where n = 3 and k = 8]
      by (simp add: tag show_body_def head load_bootdev_def add.assoc)
  next
    case (body_mmap rest)
    have "printed (''Memory map:'' @ NL) [] (''Memory map:'' @ NL)" by (simp add: printed_def cstr_def)
    then obtain t1 where t1: "print_line ld st dev (''Memory map:'' @ NL) [] t = Inr t1" "emit_ok dev u (''Memory map:'' @ NL) t t1"
      using print_line_emits[OF ok] by blast
    have ok1: "term_ok t1" "console_ok dev u t1" using t1(2) by (simp_all add: emit_ok_def)
    obtain t2 where t2: "mmap_loop ld st dev a (a + 16) t1 = Some (Inr t2)" "emit_ok dev u rest t1 t2"
      using mmap_loop_emits[OF info body_mmap(3,4) ok1] by blast
    have "show_body ld st dev a t = Inr t2"
      using body_mmap(2) t1(1) t2(1) by (simp add: tag show_body_def head)
    then show ?thesis using emit_ok_append[OF t(2) emit_ok_append[OF t1(2) t2(2)]] body_mmap(1) by (simp add: tag)
  next
    case body_other
    then have "read32 info a \<notin> {1, 2, 3, 4, 5, 6}" by auto
    with t show ?thesis using body_other by (simp add: tag show_body_def head)
  qed
qed

lemma tag_loop_emits:
  fixes s :: "('s, 'a) stdio_state_scheme"
  assumes info: "info_ok R info"
  shows "tags_print R info a out e \<Longrightarrow> term_ok s \<Longrightarrow> console_ok dev u s \<Longrightarrow>
    \<exists>t. tag_loop ld st dev a s = Some (Inr (e, t)) \<and> emit_ok dev u out s t"
proof (induction a out e arbitrary: s rule: tags_print.induct)
  case (tags_end a)
  then have "ld32 ld a (vram s) = Inr 0" using info_first[OF info _ tags_end(1), of "vram s"] by (simp add: term_ok_def)
  with tags_end show ?case by (subst tag_loop.simps) (simp add: emit_ok_Nil)
next
  case (tags_next a out body rest e)
  have "ld32 ld a (vram s) = Inr (read32 info a)"
    using info_first[OF info _ tags_next(1), of "vram s"] tags_next.prems by (simp add: term_ok_def)
  moreover obtain t where t: "show_tag ld st dev a s = Inr t" "emit_ok dev u (out @ body) s t"
    using show_tag_emits[OF info tags_next.prems tags_next(1,3,4)] by blast
  moreover from t have ok: "term_ok t" "console_ok dev u t" "Q (vram t)" by (simp_all add: emit_ok_def term_ok_def)
  moreover from info_word[OF info ok(3) tags_next(1), of 4] have "ld32 ld (a + 4) (vram t) = Inr (read32 info (a + 4))" by simp
  moreover obtain t' where "tag_loop ld st dev (next_tag info a) t = Some (Inr (e, t'))" "emit_ok dev u rest t t'"
    using tags_next.IH[OF ok(1,2)] by blast
  ultimately show ?case
    using emit_ok_append[OF t(2)] tags_next(2) by (subst tag_loop.simps) (simp add: next_tag_def)
qed

lemma hello_emits:
  fixes s :: "('s, 'a) stdio_state_scheme"
  assumes "term_ok s" "console_ok dev u s"
  shows "\<exists>t. print_line ld st dev (''Validating multiboot information at virtual address %x'' @ NL) [Va_int addr] s = Inr t \<and>
    emit_ok dev u (hello_text addr) s t \<and> term_ok t \<and> console_ok dev u t"
proof -
  have "printed (''Validating multiboot information at virtual address %x'' @ NL) [Va_int addr] (hello_text addr)"
    using hex_u32[of addr] by (simp add: printed_def hello_text_def hex_def cstr_def conversion_def)
  from print_line_emits[OF assms this] show ?thesis by (auto simp: emit_ok_def)
qed

lemma rejects_emits:
  fixes s :: "('s, 'a) stdio_state_scheme"
  assumes s: "term_ok s" "console_ok dev u s" and bad: "magic \<noteq> 0x36D76289 \<or> addr AND 7 \<noteq> 0"
  shows "\<exists>t. validate_boot ld st dev magic addr s = Inr t \<and>
    emit_ok dev u (hello_text addr @
      (if magic \<noteq> 0x36D76289 then ''Invalid magic number: '' @ hex magic @ '' (expected '' @ hex 0x36D76289 @ '')'' @ NL
       else ''Unaligned multiboot info pointer: '' @ hex addr @ NL)) s t"
proof -
  obtain t where t: "print_line ld st dev (''Validating multiboot information at virtual address %x'' @ NL) [Va_int addr] s = Inr t"
    "emit_ok dev u (hello_text addr) s t" "term_ok t" "console_ok dev u t"
    using hello_emits[OF s] by blast
  have m: "printed (''Invalid magic number: %x (expected %x)'' @ NL) [Va_int magic, Va_int 0x36D76289]
      (''Invalid magic number: '' @ hex magic @ '' (expected '' @ hex 0x36D76289 @ '')'' @ NL)"
    using hex_u32[of magic] hex_u32[of "0x36D76289"] by (simp add: printed_def hex_def cstr_def conversion_def)
  have a: "printed (''Unaligned multiboot info pointer: %x'' @ NL) [Va_int addr] (''Unaligned multiboot info pointer: '' @ hex addr @ NL)"
    using hex_u32[of addr] by (simp add: printed_def hex_def cstr_def conversion_def)
  show ?thesis
  proof (cases "magic = 0x36D76289")
    case True
    with bad print_line_emits[OF t(3,4) a] emit_ok_append[OF t(2)] show ?thesis
      unfolding validate_boot_def t(1) bindE_simps by auto
  next
    case False
    with print_line_emits[OF t(3,4) m] emit_ok_append[OF t(2)] show ?thesis
      unfolding validate_boot_def t(1) bindE_simps by auto
  qed
qed

lemma convert_emits:
  fixes s :: "('s, 'a) stdio_state_scheme"
  assumes s: "term_ok s" "console_ok dev u s"
  shows "\<exists>t. (if addr < 0xC0000000
      then bindE (print_line ld st dev (''Multiboot info pointer appears to be a physical address, converting...'' @ NL) [] s) (\<lambda>s.
           let addr = addr + 0xC0000000
           in bindE (print_line ld st dev (''Converted to virtual address: %x'' @ NL) [Va_int addr] s) (\<lambda>s. Inr (addr, s)))
      else Inr (addr, s)) = Inr (virtual_info addr, t) \<and> emit_ok dev u (convert_text addr) s t"
proof (cases "addr < 0xC0000000")
  case True
  let ?c = "''Multiboot info pointer appears to be a physical address, converting...'' @ NL"
  have "printed ?c [] ?c" by (simp add: printed_def cstr_def)
  from print_line_emits[OF s this] obtain t where t: "print_line ld st dev ?c [] s = Inr t" "emit_ok dev u ?c s t" by blast
  then have ok: "term_ok t" "console_ok dev u t" by (simp_all add: emit_ok_def)
  have "printed (''Converted to virtual address: %x'' @ NL) [Va_int (addr + 0xC0000000)]
      (''Converted to virtual address: '' @ hex (addr + 0xC0000000) @ NL)"
    using hex_u32[of "addr + 0xC0000000"] by (simp add: printed_def hex_def cstr_def conversion_def)
  from print_line_emits[OF ok this] obtain t' where
    t': "print_line ld st dev (''Converted to virtual address: %x'' @ NL) [Va_int (addr + 0xC0000000)] t = Inr t'"
      "emit_ok dev u (''Converted to virtual address: '' @ hex (addr + 0xC0000000) @ NL) t t'" by blast
  have "emit_ok dev u (convert_text addr) s t'"
    using emit_ok_append[OF t(2) t'(2)] True by (simp add: convert_text_def)
  moreover have "virtual_info addr = addr + 0xC0000000" using True by (simp add: virtual_info_def)
  ultimately show ?thesis using True unfolding t(1) bindE_simps Let_def t'(1) by auto
next
  case False
  then show ?thesis using s by (simp add: virtual_info_def convert_text_def emit_ok_Nil)
qed

lemma say_emits:
  fixes s :: "('s, 'a) stdio_state_scheme"
  assumes "emit_ok dev u xs s0 s" "printed format args ys"
  shows "\<exists>t. print_line ld st dev format args s = Inr t \<and> emit_ok dev u (xs @ ys) s0 t"
  using print_line_emits[of s dev u format args ys] assms emit_ok_append[OF assms(1)] by (auto simp: emit_ok_def)

text \<open>Up to the tags, the code runs alike whatever they hold.\<close>

lemma validate_boot_tags:
  fixes s :: "('s, 'a) stdio_state_scheme"
  assumes info: "info_ok R info" and s: "term_ok s" "console_ok dev u s" and al: "addr AND 7 = 0"
    and a: "words_at R (virtual_info addr) 1"
    and size: "printed (''Multiboot info size: %d bytes'' @ NL) [Va_int (read32 info (virtual_info addr))] zs"
  obtains t where "emit_ok dev u (hello_text addr @ convert_text addr @ zs) s t"
    "validate_boot ld st dev 0x36D76289 addr s =
      bindE (case tag_loop ld st dev (virtual_info addr + 8) t of None \<Rightarrow> Inl No_return | Some r \<Rightarrow> r) (\<lambda>(tag, s).
      bindE (load_size ld tag (vram s)) (\<lambda>tsz.
      bindE (print_line ld st dev (''Total multiboot info size: %d bytes'' @ NL)
          [Va_int (tag + ((tsz + 7) AND NOT 7) - virtual_info addr)] s)
        (print_line ld st dev (''Multiboot validation complete!'' @ NL) [])))"
proof -
  obtain t1 where t1: "print_line ld st dev (''Validating multiboot information at virtual address %x'' @ NL) [Va_int addr] s = Inr t1"
    "emit_ok dev u (hello_text addr) s t1" "term_ok t1" "console_ok dev u t1"
    using hello_emits[OF s] by blast
  obtain t2 where t2: "(if addr < 0xC0000000
      then bindE (print_line ld st dev (''Multiboot info pointer appears to be a physical address, converting...'' @ NL) [] t1) (\<lambda>s.
           let addr = addr + 0xC0000000
           in bindE (print_line ld st dev (''Converted to virtual address: %x'' @ NL) [Va_int addr] s) (\<lambda>s. Inr (addr, s)))
      else Inr (addr, t1)) = Inr (virtual_info addr, t2)" "emit_ok dev u (convert_text addr) t1 t2"
    using convert_emits[OF t1(3,4), of addr] by blast
  note e2 = emit_ok_append[OF t1(2) t2(2)]
  then have w2: "ld32 ld (virtual_info addr) (vram t2) = Inr (read32 info (virtual_info addr))"
    by (intro info_first[OF info _ a]) (simp_all add: emit_ok_def term_ok_def)
  obtain t3 where t3: "print_line ld st dev (''Multiboot info size: %d bytes'' @ NL) [Va_int (read32 info (virtual_info addr))] t2 = Inr t3"
    "emit_ok dev u ((hello_text addr @ convert_text addr) @ zs) s t3"
    using say_emits[OF e2 size] by blast
  show thesis
  proof (rule that)
    show "emit_ok dev u (hello_text addr @ convert_text addr @ zs) s t3" using t3(2) by (simp only: append_assoc)
  qed (simp only: validate_boot_def t1(1) bindE_simps t2(1) prod.case w2 t3(1) al simp_thms if_False, simp only: Let_def)
qed

lemma validate_boot_emits:
  fixes s :: "('s, 'a) stdio_state_scheme"
  assumes info: "info_ok R info" and s: "term_ok s" "console_ok dev u s" and al: "addr AND 7 = 0"
    and a: "words_at R (virtual_info addr) 1"
    and size: "printed (''Multiboot info size: %d bytes'' @ NL) [Va_int (read32 info (virtual_info addr))] zs"
    and tags: "tags_print R info (virtual_info addr + 8) out e"
    and total: "printed (''Total multiboot info size: %d bytes'' @ NL) [Va_int (next_tag info e - virtual_info addr)] ts"
  shows "\<exists>t. validate_boot ld st dev 0x36D76289 addr s = Inr t \<and>
    emit_ok dev u (hello_text addr @ convert_text addr @ zs @ out @ ts @ ''Multiboot validation complete!'' @ NL) s t"
proof -
  obtain t3 where t3: "emit_ok dev u (hello_text addr @ convert_text addr @ zs) s t3"
    and v: "validate_boot ld st dev 0x36D76289 addr s =
      bindE (case tag_loop ld st dev (virtual_info addr + 8) t3 of None \<Rightarrow> Inl No_return | Some r \<Rightarrow> r) (\<lambda>(tag, s).
      bindE (load_size ld tag (vram s)) (\<lambda>tsz.
      bindE (print_line ld st dev (''Total multiboot info size: %d bytes'' @ NL)
          [Va_int (tag + ((tsz + 7) AND NOT 7) - virtual_info addr)] s)
        (print_line ld st dev (''Multiboot validation complete!'' @ NL) [])))"
    using validate_boot_tags[OF info s al a size] by blast
  then have ok3: "term_ok t3" "console_ok dev u t3" by (simp_all add: emit_ok_def)
  obtain t4 where t4: "tag_loop ld st dev (virtual_info addr + 8) t3 = Some (Inr (e, t4))" "emit_ok dev u out t3 t4"
    using tag_loop_emits[OF info tags ok3] by blast
  note e4 = emit_ok_append[OF t3 t4(2)]
  from info_word[OF info _ tags_print_end[OF tags], of "vram t4" 4]
  have w4: "ld32 ld (e + 4) (vram t4) = Inr (read32 info (e + 4))"
    using e4 by (simp add: emit_ok_def term_ok_def)
  obtain t5 where t5: "print_line ld st dev (''Total multiboot info size: %d bytes'' @ NL)
      [Va_int (next_tag info e - virtual_info addr)] t4 = Inr t5"
    "emit_ok dev u (((hello_text addr @ convert_text addr @ zs) @ out) @ ts) s t5"
    using say_emits[OF e4 total] by blast
  have "printed (''Multiboot validation complete!'' @ NL) [] (''Multiboot validation complete!'' @ NL)"
    by (simp add: printed_def cstr_def)
  from say_emits[OF t5(2) this] obtain t6 where
    t6: "print_line ld st dev (''Multiboot validation complete!'' @ NL) [] t5 = Inr t6"
    "emit_ok dev u ((((hello_text addr @ convert_text addr @ zs) @ out) @ ts) @ ''Multiboot validation complete!'' @ NL) s t6"
    by blast
  have "validate_boot ld st dev 0x36D76289 addr s = Inr t6"
    using t5(1) t6(1) by (simp add: v t4(1) w4 next_tag_def)
  with t6(2) show ?thesis by (simp only: append_assoc) blast
qed

lemma tag_loop_endless:
  fixes s :: "('s, 'a) stdio_state_scheme"
  assumes info: "info_ok R info" and e: "endless_tags R info A" and s: "term_ok s" "console_ok dev u s" and a: "a \<in> A"
  shows "tag_loop ld st dev a s = None"
proof (rule ccontr)
  assume "tag_loop ld st dev a s \<noteq> None"
  then obtain r where r: "tag_loop ld st dev a s = Some r" by blast
  have "ld = ld \<longrightarrow> st = st \<longrightarrow> dev = dev \<longrightarrow> a \<in> A \<longrightarrow> term_ok s \<longrightarrow> console_ok dev u s \<longrightarrow> False"
  proof (rule tag_loop.raw_induct[where P = "\<lambda>ld' st' dev' a s r. ld' = ld \<longrightarrow> st' = st \<longrightarrow> dev' = dev \<longrightarrow> a \<in> A \<longrightarrow>
      term_ok s \<longrightarrow> console_ok dev u s \<longrightarrow> False", OF _ r], intro impI)
    fix f ld' st' dev' a s r
    assume IH: "\<And>ld' st' dev' a s r. f ld' st' dev' a s = Some r \<Longrightarrow> ld' = ld \<longrightarrow> st' = st \<longrightarrow> dev' = dev \<longrightarrow> a \<in> A \<longrightarrow>
        term_ok s \<longrightarrow> console_ok dev u s \<longrightarrow> False"
      and eq: "ld' = ld" "st' = st" "dev' = dev" and a: "a \<in> A" and s: "term_ok s" "console_ok dev u s"
      and r: "(case load_type ld' a (vram s) of Inl e \<Rightarrow> Some (Inl e)
        | Inr type \<Rightarrow> if type = 0 then Some (Inr (a, s))
            else (case bindE (show_tag ld' st' dev' a s) (\<lambda>s. bindE (load_size ld' a (vram s)) (\<lambda>sz. Inr (sz, s))) of
                 Inl e \<Rightarrow> Some (Inl e) | Inr (sz, s) \<Rightarrow> f ld' st' dev' (a + ((sz + 7) AND NOT 7)) s)) = Some r"
    obtain out body where w: "words_at R a 2" "read32 info a \<noteq> 0"
      "printed (''Tag %x, Size %x'' @ NL) [Va_int (read32 info a), Va_int (read32 info (a + 4))] out"
      "body_prints R info a body" "next_tag info a \<in> A"
      using e a by (auto simp: endless_tags_def)
    obtain t where t: "show_tag ld st dev a s = Inr t" "emit_ok dev u (out @ body) s t"
      using show_tag_emits[OF info s w(1,3,4)] by blast
    then have ok: "term_ok t" "console_ok dev u t" "Q (vram t)" "Q (vram s)" using s by (simp_all add: emit_ok_def term_ok_def)
    have "f ld st dev (next_tag info a) t = Some r"
      using r w(2) t(1) info_first[OF info ok(4) w(1)] info_word[OF info ok(3) w(1), of 4]
      by (simp add: eq next_tag_def)
    from IH[OF this] w(5) ok show False by simp
  qed
  then show False using a s by simp
qed

lemma validate_boot_stuck:
  fixes s :: "('s, 'a) stdio_state_scheme"
  assumes "info_ok R info" "term_ok s" "console_ok dev u s" "addr AND 7 = 0" "words_at R (virtual_info addr) 1"
    and "printed (''Multiboot info size: %d bytes'' @ NL) [Va_int (read32 info (virtual_info addr))] zs"
    and "endless_tags R info A" "virtual_info addr + 8 \<in> A"
  shows "validate_boot ld st dev 0x36D76289 addr s = Inl No_return"
proof (rule validate_boot_tags[OF assms(1-6)])
  fix t assume "emit_ok dev u (hello_text addr @ convert_text addr @ zs) s t"
  then have "tag_loop ld st dev (virtual_info addr + 8) t = None"
    by (intro tag_loop_endless[OF assms(1,7) _ _ assms(8), where u = u]) (simp_all add: emit_ok_def)
  then show ?thesis if "validate_boot ld st dev 0x36D76289 addr s =
      bindE (case tag_loop ld st dev (virtual_info addr + 8) t of None \<Rightarrow> Inl No_return | Some r \<Rightarrow> r) (\<lambda>(tag, s).
      bindE (load_size ld tag (vram s)) (\<lambda>tsz.
      bindE (print_line ld st dev (''Total multiboot info size: %d bytes'' @ NL)
          [Va_int (tag + ((tsz + 7) AND NOT 7) - virtual_info addr)] s)
        (print_line ld st dev (''Multiboot validation complete!'' @ NL) [])))"
    using that by simp
qed

end

end
