(* ===== verification/Multiboot_Props.thy ===== *)
theory Multiboot_Props
  imports Multiboot_Screen Kernel_Boot
begin

text \<open>
  The report on the boot information where the bootstrap calls it: before \<^verbatim>\<open>terminal_initialize\<close>, while
  \<^verbatim>\<open>terminal_buffer\<close> is still the null pointer. The identity map of the bootstrap makes the 4000 bytes
  at physical address 0 the screen, and the information is read through the kernel window.
\<close>

section \<open>The screen at the null pointer\<close>

lemma booting_identity:
  assumes b: "booting bpd bpt s" and a: "a < 0x400000"
  shows "mmu_translate s a = Some a"
proof -
  have r: "boot_pages_ok bpd bpt" "boot_tables bpd bpt (phys_mem s)" "cr3 s = bpd" "tlb s = Map.empty" "is_paging_enabled s"
    using b by (simp_all add: booting_def boot_ready_def)
  note w = window_indices[OF a]
  have d: "drop_bit 22 a = 0" using a by (simp add: word_less_nat_alt word_unat_eq_iff unat_drop_bit)
  have i: "drop_bit 12 a AND 0x3FF = drop_bit 12 a" using w(4) by (simp add: word_less_nat_alt word_unat_eq_iff unat_and_3FF)
  note be = boot_entries[OF r(1-3), of 0]
  have "pd_entry s 0 AND PAGE_PRESENT \<noteq> 0" using be(2) by (simp add: present_def)
  moreover have "pt_entry s 0 (drop_bit 12 a) = 3 + 4096 * drop_bit 12 a" using be(4)[OF _ w(4)] by simp
  ultimately have "mmu_walk (phys_mem s) (cr3 s) a = Some a"
    using boot_pte[OF w(4)] w(5) by (simp add: walk_entries d i)
  then show ?thesis using translate_walk[of s a] r(4,5) by (simp add: tlb_coherent_def)
qed

text \<open>The tables are above the first megabyte, so stores below it do not touch them.\<close>

lemma booting_above:
  assumes b: "booting bpd bpt p" and m: "\<And>a. 0x100000 \<le> a \<Longrightarrow> m a = phys_mem p a"
  shows "booting bpd bpt (p\<lparr>phys_mem := m\<rparr>)"
proof (intro booting_cong[OF b] m)
  fix a assume "a AND PAGE_FRAME \<in> {bpd, bpt}"
  moreover have "0x100000 \<le> bpd" "0x100000 \<le> bpt" using b by (simp_all add: booting_def boot_pages_ok_def)
  ultimately show "0x100000 \<le> a" using word_and_le2[of a PAGE_FRAME] by (auto intro: order_trans)
qed

definition low_byte :: "u32 \<Rightarrow> u32 \<Rightarrow> paging_state \<Rightarrow> u32 \<Rightarrow> bool" where
  "low_byte bpd bpt s a \<longleftrightarrow> booting bpd bpt s \<and> a < 0x100000"

lemma low_byte_store: "low_byte bpd bpt s a \<Longrightarrow> booting bpd bpt (s\<lparr>phys_mem := (phys_mem s)(a := b)\<rparr>)"
  by (intro booting_above) (auto simp: low_byte_def)

interpretation low_memory: byte_memory vm_ld vm_st phys_mem
  "\<lambda>a b s. s\<lparr>phys_mem := (phys_mem s)(a := b)\<rparr>" "low_byte bpd bpt" for bpd bpt
proof
  fix s :: paging_state and a c b
  assume a: "low_byte bpd bpt s a"
  then have t: "mmu_translate s a = Some a"
    by (intro booting_identity) (auto simp: low_byte_def word_less_nat_alt)
  show "vm_ld a s = Inr (phys_mem s a)" "vm_st a b s = Inr (s\<lparr>phys_mem := (phys_mem s)(a := b)\<rparr>)"
    by (simp_all add: vm_ld_def vm_st_def t)
  show "low_byte bpd bpt (s\<lparr>phys_mem := (phys_mem s)(a := b)\<rparr>) c = low_byte bpd bpt s c"
    using low_byte_store[OF a] a by (simp add: low_byte_def)
qed simp

text \<open>Nothing but the first 4000 bytes of memory differs from \<open>p0\<close>.\<close>

definition null_screen_of :: "u32 \<Rightarrow> u32 \<Rightarrow> paging_state \<Rightarrow> paging_state \<Rightarrow> bool" where
  "null_screen_of bpd bpt p0 m \<longleftrightarrow> booting bpd bpt m \<and> (\<forall>a. \<not> a < 4000 \<longrightarrow> phys_mem m a = phys_mem p0 a) \<and>
     m = p0\<lparr>phys_mem := phys_mem m\<rparr>"

interpretation null_screen: screen_memory vm_ld vm_st phys_mem
  "\<lambda>a b s. s\<lparr>phys_mem := (phys_mem s)(a := b)\<rparr>" "low_byte bpd bpt" 0 "null_screen_of bpd bpt p0" for bpd bpt p0
proof
  fix m :: paging_state and k :: u32 and b
  assume m: "null_screen_of bpd bpt p0 m" and k: "k < 4000"
  show l: "low_byte bpd bpt m (0 + k)" using m k by (simp add: null_screen_of_def low_byte_def word_less_nat_alt)
  obtain f where "m = p0\<lparr>phys_mem := f\<rparr>" using m unfolding null_screen_of_def by blast
  then show "null_screen_of bpd bpt p0 (m\<lparr>phys_mem := (phys_mem m)(0 + k := b)\<rparr>)"
    using m k low_byte_store[OF l, of b] by (auto simp: null_screen_of_def)
qed simp

text \<open>Where the information may be: in the kernel window, not in the bytes that are written on.\<close>

definition info_byte_ok :: "u32 \<Rightarrow> bool" where
  "info_byte_ok a \<longleftrightarrow> 4000 \<le> V2P a \<and> V2P a < 0x400000"

definition boot_info :: "paging_state \<Rightarrow> mem" where
  "boot_info p = (\<lambda>a. phys_mem p (V2P a))"

lemma boot_info_ok: "null_screen.info_ok bpd bpt p info_byte_ok (boot_info p)"
  unfolding null_screen.info_ok_def
  using vm_ld_window[OF booting_window]
  by (auto simp: null_screen_of_def info_byte_ok_def boot_info_def not_less)

section \<open>The report\<close>

text \<open>
  The terminal as the program is loaded: no buffer yet, the cursor at the origin. The chip of the serial
  line is asked for only if one of the output flags is on.
\<close>

definition before_terminal :: "device \<Rightarrow> uart \<Rightarrow> u32 \<Rightarrow> u32 \<Rightarrow> (paging_state, 'a) stdio_state_scheme \<Rightarrow> bool" where
  "before_terminal dev u bpd bpt s \<longleftrightarrow> booting bpd bpt (vram s) \<and> terminal_buffer s = 0 \<and>
     terminal_row s < 25 \<and> terminal_column s < 80 \<and> console_ok dev u s"

definition null_view :: "uart \<Rightarrow> (paging_state, 'a) stdio_state_scheme \<Rightarrow> term_view" where
  "null_view u s = term_view_of phys_mem u s"

definition emit_string :: "(paging_state, 'a) stdio_state_scheme \<Rightarrow> string \<Rightarrow> term_view \<Rightarrow> term_view" where
  "emit_string s out v = fold (view_emit (terminal_serial_output s) (putchar_serial_output s) (serial_output_enabled s)
     (terminal_color s)) out v"

text \<open>What printing \<open>out\<close> leaves: the text on the cells at address 0, all other memory as it was.\<close>

definition told :: "uart \<Rightarrow> string \<Rightarrow> (paging_state, 'a) stdio_state_scheme \<Rightarrow> (paging_state, 'a) stdio_state_scheme \<Rightarrow> bool" where
  "told u out s t \<longleftrightarrow> null_view u t = emit_string s out (null_view u s) \<and>
     (\<forall>a. 4000 \<le> a \<longrightarrow> phys_mem (vram t) a = phys_mem (vram s) a)"

lemma before_terminal_ok:
  assumes "before_terminal dev u bpd bpt s"
  shows "null_screen.term_ok bpd bpt (vram s) s" "console_ok dev u s"
  using assms by (simp_all add: before_terminal_def null_screen.term_ok_def null_screen_of_def)

lemma told_emit: "null_screen.emit_ok bpd bpt (vram s) dev u out s t \<Longrightarrow> told u out s t"
  by (auto simp: told_def null_screen.emit_ok_def null_screen.term_ok_def null_screen_of_def emit_string_def
      null_view_def not_less)

text \<open>
  A sample machine: the bootstrap's tables at 0x101000 and 0x102000, \<open>bytes\<close> at 0x200000.
\<close>

definition with_info :: "u8 list \<Rightarrow> mem \<Rightarrow> mem" where
  "with_info bytes m = (\<lambda>a. if a AND PAGE_FRAME = 0x200000 \<and> unat (a AND 0xFFF) < length bytes
     then bytes ! unat (a AND 0xFFF) else m a)"

definition sample_boot :: "u8 list \<Rightarrow> paging_state" where
  "sample_boot bytes = boot_state
     \<lparr>phys_mem := with_info bytes (phys_mem boot_state)\<rparr>"

definition sample_loaded :: "u8 list \<Rightarrow> paging_state stdio_state" where
  "sample_loaded bytes = \<lparr>io = [], terminal_row = 0, terminal_column = 0, terminal_color = 0,
     terminal_buffer = 0, terminal_serial_output = False, vram = sample_boot bytes, putchar_serial_output = False, serial_output_enabled = False\<rparr>"

lemma sample_before_terminal: "before_terminal dev u 0x101000 0x102000 (sample_loaded bytes)"
proof -
  have ok: "boot_pages_ok 0x101000 0x102000" by (simp add: boot_pages_ok_def)
  then have b: "booting 0x101000 0x102000 boot_state"
    by (simp add: booting_def boot_state(2))
  then have "booting 0x101000 0x102000 (sample_boot bytes)"
    unfolding sample_boot_def by (rule booting_cong) (auto simp: with_info_def)
  then show ?thesis by (simp add: before_terminal_def sample_loaded_def console_ok_def)
qed

lemma info_words:
  assumes "4000 \<le> unat (V2P a)" "unat (V2P a) + 4 * n \<le> 0x400000"
  shows "words_at info_byte_ok a n"
  unfolding words_at_def
proof (intro allI impI)
  fix i assume i: "i < 4 * n"
  have "unat (of_nat i :: u32) = i" using assms(2) i by (intro unat_of_nat_below[of _ "0x400000"]) simp_all
  moreover have "V2P (a + of_nat i) = V2P a + of_nat i" by (simp add: V2P_add)
  ultimately have "unat (V2P (a + of_nat i)) = unat (V2P a) + i" using assms(2) i by (simp add: unat_plus_if')
  then show "info_byte_ok (a + of_nat i)" using assms i by (simp add: info_byte_ok_def word_le_nat_alt word_less_nat_alt)
qed

definition sample_info :: "u8 list" where
  "sample_info = [0x30, 0, 0, 0,  0, 0, 0, 0,
     1, 0, 0, 0,  11, 0, 0, 0,  0x68, 0x69, 0, 0,  0, 0, 0, 0,
     4, 0, 0, 0,  16, 0, 0, 0,  0x80, 2, 0, 0,  0, 0xFC, 1, 0,
     0, 0, 0, 0,  8, 0, 0, 0]"

text \<open>
  C19. A well-formed list of tags is reported: with the right magic number and an aligned address, if the
  information lies in the first four megabytes and its tags \<open>tags_print\<close> the text \<open>out\<close>, the code prints
  the opening lines, the size, that text, and the closing lines, and it returns; no memory but the 4000
  bytes at the null pointer, which serve as the screen at this stage, is changed.
\<close>

theorem validate_boot_reports:
  fixes s :: "(paging_state, 'a) stdio_state_scheme"
  assumes "before_terminal dev u bpd bpt s" "addr AND 7 = 0" "words_at info_byte_ok (virtual_info addr) 1"
    and "printed (''Multiboot info size: %d bytes'' @ NL) [Va_int (read32 (boot_info (vram s)) (virtual_info addr))] zs"
    and "tags_print info_byte_ok (boot_info (vram s)) (virtual_info addr + 8) out e"
    and "printed (''Total multiboot info size: %d bytes'' @ NL) [Va_int (next_tag (boot_info (vram s)) e - virtual_info addr)] ts"
  shows "\<exists>t. validate_boot vm_ld vm_st dev MULTIBOOT2_BOOTLOADER_MAGIC addr s = Inr t \<and>
    told u (hello_text addr @ convert_text addr @ zs @ out @ ts @ ''Multiboot validation complete!'' @ NL) s t"
  using null_screen.validate_boot_emits[OF boot_info_ok before_terminal_ok[OF assms(1)] assms(2-6)] told_emit by blast

lemma digits: "digit_upper 0 = CHR ''0''" "digit_upper (Suc 0) = CHR ''1''" "digit_upper 3 = CHR ''3''" "digit_upper 4 = CHR ''4''"
  "digit_upper 9 = CHR ''9''" "digit_upper 6 = CHR ''6''" "digit_upper 8 = CHR ''8''" "digit_upper 11 = CHR ''B''"
  by code_simp+

lemma letters: "char_of (104 :: nat) = CHR ''h''" "char_of (105 :: nat) = CHR ''i''"
  by code_simp+

lemmas printing = cstr_def conversion_def number_string_def rdigits_step digits int_string_def

lemmas sample_reads = read32_def boot_info_def sample_boot_def sample_info_def with_info_def V2P_def

lemma sample_words:
  "a \<in> {0xC0200000, 0xC0200008, 0xC0200018, 0xC0200020, 0xC0200028} \<Longrightarrow> n \<le> 4 \<Longrightarrow> words_at info_byte_ok a n"
  by (intro info_words) (auto simp: V2P_def)

lemma sample_values:
  defines "info \<equiv> boot_info (sample_boot sample_info)"
  shows "read32 info 0xC0200000 = 48" "read32 info 0xC0200008 = 1" "read32 info 0xC020000C = 11"
    "read32 info 0xC0200018 = 4" "read32 info 0xC020001C = 16" "read32 info 0xC0200020 = 640" "read32 info 0xC0200024 = 0x1FC00"
    "read32 info 0xC0200028 = 0" "read32 info 0xC020002C = 8"
  by (simp_all add: sample_reads info_def)

lemma sample_tags:
  "\<exists>out. tags_print info_byte_ok (boot_info (sample_boot sample_info)) 0xC0200008 out 0xC0200028"
proof -
  let ?I = "boot_info (sample_boot sample_info)"
  note w = sample_words[of _ 2] and r = sample_values
  have p: "printed (''Tag %x, Size %x'' @ NL) [Va_int 1, Va_int 11] (''Tag 0x1, Size 0xB'' @ NL)"
    "printed (''Command line = %s'' @ NL) [Va_str (Some ''hi'')] (''Command line = hi'' @ NL)"
    "printed (''Tag %x, Size %x'' @ NL) [Va_int 4, Va_int 16] (''Tag 0x4, Size 0x10'' @ NL)"
    "printed (''mem_lower = %dKB, mem_upper = %dKB'' @ NL) [Va_int 640, Va_int 0x1FC00]
       (''mem_lower = 640KB, mem_upper = 130048KB'' @ NL)"
    by (simp_all add: printed_def printing)
  have str: "string_at info_byte_ok ?I 0xC0200010 ''hi''"
    by (simp add: string_at_def info_byte_ok_def sample_reads letters)
  have b: "body_prints info_byte_ok ?I 0xC0200018 (''mem_lower = 640KB, mem_upper = 130048KB'' @ NL)"
    "body_prints info_byte_ok ?I 0xC0200008 (''Command line = hi'' @ NL)"
    using r w p(2,4) str by (simp_all add: body_meminfo body_cmdline[where str = "''hi''"])
  have "tags_print info_byte_ok ?I 0xC0200028 [] 0xC0200028"
    using w r by (intro tags_end) simp_all
  then have "tags_print info_byte_ok ?I 0xC0200018
      ((''Tag 0x4, Size 0x10'' @ NL) @ (''mem_lower = 640KB, mem_upper = 130048KB'' @ NL) @ []) 0xC0200028"
    by (intro tags_next[where a = "0xC0200018"]) (use w r p(3) b(1) in \<open>simp_all add: next_tag_def\<close>)
  then have "tags_print info_byte_ok ?I 0xC0200008 ((''Tag 0x1, Size 0xB'' @ NL) @ (''Command line = hi'' @ NL) @
      (''Tag 0x4, Size 0x10'' @ NL) @ (''mem_lower = 640KB, mem_upper = 130048KB'' @ NL) @ []) 0xC0200028"
    by (intro tags_next[where a = "0xC0200008"]) (use w r p(1) b(2) in \<open>simp_all add: next_tag_def\<close>)
  then show ?thesis by blast
qed

theorem validate_boot_reports_witness:
  "\<exists>t. validate_boot vm_ld vm_st ideal_chip MULTIBOOT2_BOOTLOADER_MAGIC 0x200000 (sample_loaded sample_info) = Inr t \<and>
     (\<forall>a. 4000 \<le> a \<longrightarrow> phys_mem (vram t) a = phys_mem (sample_boot sample_info) a)"
proof -
  have v: "virtual_info 0x200000 = 0xC0200000" "vram (sample_loaded sample_info) = sample_boot sample_info"
    by (simp_all add: virtual_info_def sample_loaded_def)
  obtain out where out: "tags_print info_byte_ok (boot_info (sample_boot sample_info)) (virtual_info 0x200000 + 8) out 0xC0200028"
    using sample_tags by (auto simp: v)
  have a: "(0x200000 :: u32) AND 7 = 0" "words_at info_byte_ok (virtual_info 0x200000) 1"
    using sample_words[of _ 1] by (simp_all add: v)
  have z: "printed (''Multiboot info size: %d bytes'' @ NL)
      [Va_int (read32 (boot_info (vram (sample_loaded sample_info))) (virtual_info 0x200000))] (''Multiboot info size: 48 bytes'' @ NL)"
    "printed (''Total multiboot info size: %d bytes'' @ NL)
      [Va_int (next_tag (boot_info (vram (sample_loaded sample_info))) 0xC0200028 - virtual_info 0x200000)]
      (''Total multiboot info size: 48 bytes'' @ NL)"
    by (simp_all add: v next_tag_def sample_values printed_def printing)
  from validate_boot_reports[OF sample_before_terminal a z(1) out[folded v(2)] z(2)] show ?thesis
    unfolding told_def by (metis v(2))
qed

text \<open>
  C21. A wrong magic number, or an address that is not a multiple of eight, is reported and nothing of
  the information is looked at: the outcome does not depend on where the address points.
\<close>

theorem validate_boot_rejects:
  fixes s :: "(paging_state, 'a) stdio_state_scheme"
  assumes "before_terminal dev u bpd bpt s" "magic \<noteq> MULTIBOOT2_BOOTLOADER_MAGIC \<or> addr AND 7 \<noteq> 0"
  shows "\<exists>t. validate_boot vm_ld vm_st dev magic addr s = Inr t \<and>
    told u (hello_text addr @
      (if magic \<noteq> MULTIBOOT2_BOOTLOADER_MAGIC
       then ''Invalid magic number: '' @ hex magic @ '' (expected '' @ hex MULTIBOOT2_BOOTLOADER_MAGIC @ '')'' @ NL
       else ''Unaligned multiboot info pointer: '' @ hex addr @ NL)) s t"
  using null_screen.rejects_emits[OF before_terminal_ok[OF assms(1)] assms(2)] told_emit by blast

theorem validate_boot_rejects_witness:
  "\<exists>t. validate_boot vm_ld vm_st ideal_chip MULTIBOOT2_BOOTLOADER_MAGIC 0x200004 (sample_loaded sample_info) = Inr t \<and>
     (\<forall>a. 4000 \<le> a \<longrightarrow> phys_mem (vram t) a = phys_mem (sample_boot sample_info) a)"
proof -
  have v: "vram (sample_loaded sample_info) = sample_boot sample_info" by (simp add: sample_loaded_def)
  have "MULTIBOOT2_BOOTLOADER_MAGIC \<noteq> MULTIBOOT2_BOOTLOADER_MAGIC \<or> (0x200004 :: u32) AND 7 \<noteq> 0" by simp
  from validate_boot_rejects[OF sample_before_terminal this] show ?thesis unfolding told_def v by (metis v)
qed

text \<open>
  C20. The walk over the tags has no other exit than an end tag: when no tag that it can reach is one,
  as with a tag whose size field is zero, the code never returns.
\<close>

theorem validate_boot_endless:
  fixes s :: "(paging_state, 'a) stdio_state_scheme"
  assumes "before_terminal dev u bpd bpt s" "addr AND 7 = 0" "words_at info_byte_ok (virtual_info addr) 1"
    and "printed (''Multiboot info size: %d bytes'' @ NL) [Va_int (read32 (boot_info (vram s)) (virtual_info addr))] zs"
    and "endless_tags info_byte_ok (boot_info (vram s)) A" "virtual_info addr + 8 \<in> A"
  shows "validate_boot vm_ld vm_st dev MULTIBOOT2_BOOTLOADER_MAGIC addr s = Inl No_return"
  using null_screen.validate_boot_stuck[OF boot_info_ok before_terminal_ok[OF assms(1)] assms(2-6)] .

text \<open>A tag of a type that is not printed, with size zero.\<close>

definition stuck_info :: "u8 list" where
  "stuck_info = [16, 0, 0, 0,  0, 0, 0, 0,  9, 0, 0, 0,  0, 0, 0, 0]"

theorem validate_boot_endless_witness:
  "validate_boot vm_ld vm_st ideal_chip MULTIBOOT2_BOOTLOADER_MAGIC 0x200000 (sample_loaded stuck_info) = Inl No_return"
proof -
  let ?I = "boot_info (sample_boot stuck_info)"
  have v: "virtual_info 0x200000 = 0xC0200000" "vram (sample_loaded stuck_info) = sample_boot stuck_info"
    by (simp_all add: virtual_info_def sample_loaded_def)
  have w: "words_at info_byte_ok 0xC0200000 1" "words_at info_byte_ok 0xC0200008 2"
    by (intro info_words; simp add: V2P_def)+
  have r: "read32 ?I 0xC0200000 = 16" "read32 ?I 0xC0200008 = 9" "read32 ?I 0xC020000C = 0"
    by (simp_all add: sample_reads stuck_info_def)
  have p: "printed (''Multiboot info size: %d bytes'' @ NL) [Va_int 16] (''Multiboot info size: 16 bytes'' @ NL)"
    "printed (''Tag %x, Size %x'' @ NL) [Va_int 9, Va_int 0] (''Tag 0x9, Size 0x0'' @ NL)"
    by (simp_all add: printed_def printing)
  have "\<exists>body. body_prints info_byte_ok ?I 0xC0200008 body" using r by (intro exI[of _ "[]"] body_other) simp
  then have "endless_tags info_byte_ok ?I {0xC0200008}" using w r p by (auto simp: endless_tags_def next_tag_def)
  then show ?thesis
    using validate_boot_endless[OF sample_before_terminal, where addr = "0x200000"] w(1) r p(1)
    by (simp add: v)
qed

end
