(* ===== verification/Boot_Props.thy ===== *)
theory Boot_Props
  imports Boot Kernel_Props Multiboot_Props
begin

text \<open>
  The composition of all parts: from the state in which the boot loader starts the system to the halt
  behind \<^verbatim>\<open>kernel_main\<close>.
\<close>

section \<open>The message on the screen\<close>

text \<open>A text of at most 2000 characters in the kernel window, apart from the screen.\<close>

definition window_text :: "mem \<Rightarrow> u32 \<Rightarrow> nat \<Rightarrow> bool" where
  "window_text m a n \<longleftrightarrow> n \<le> 2000 \<and> 0x100000 \<le> unat a \<and> unat a + n < 0x400000 \<and>
     (\<forall>k<n. m (a + of_nat k) \<noteq> 0) \<and> m (a + of_nat n) = 0"

lemma window_text_read:
  assumes t: "window_text (phys_mem p0) (V2P a) n" and b: "booting bpd bpt p0" and p: "vga_mapped p0 p" and j: "j \<le> n"
  shows "vm_ld (a + of_nat j) p = Inr (phys_mem p0 (V2P a + of_nat j))"
proof -
  have "unat (V2P a + of_nat j) = unat (V2P a) + j"
    using t j by (simp add: window_text_def unat_word_ariths unat_of_nat_u32)
  moreover have "0x100000 \<le> unat (V2P a)" "unat (V2P a) + j < 0x400000" using t j by (simp_all add: window_text_def)
  ultimately have "V2P (a + of_nat j) < 0x400000" "0x100000 \<le> unat (V2P (a + of_nat j))"
    by (simp_all add: V2P_add word_less_nat_alt)
  then have "V2P (a + of_nat j) < 0x400000" "\<not> in_region 0xB8000 4000 (V2P (a + of_nat j))"
    by (simp_all add: in_region_def word_less_nat_alt unat_sub_if')
  moreover have "window_ok p" by (rule booting_window[OF booting_stable[OF b p]])
  ultimately show ?thesis using p by (simp add: vm_ld_window vga_mapped_def screen_only_def V2P_add)
qed

lemma early_virt_ok:
  assumes t: "window_text (phys_mem p0) (V2P a) n" and b: "booting bpd bpt p0"
  shows "\<exists>q. early_virt_print_string a p0 = Inr q \<and> vga_mapped p0 q"
proof -
  have go: "\<exists>q. early_virt_print a (of_nat j) (0xC00B8000 + of_nat (2 * j)) p = Some (Inr q) \<and> vga_mapped p0 q"
    if "j \<le> n" "vga_mapped p0 p" for j p
    using that
  proof (induction "n - j" arbitrary: j p)
    case 0
    then show ?case using window_text_read[OF t b 0(3,2)] t
      by (subst early_virt_print.simps) (simp add: window_text_def)
  next
    case (Suc i)
    let ?e = "0xC00B8000 + of_nat (2 * j) :: u32" and ?c = "phys_mem p0 (V2P a + of_nat j)"
    have n: "n \<le> 2000" using t by (simp add: window_text_def)
    have j: "j < n" "2 * j + 1 < 4000" using Suc.hyps(2) n by linarith+
    have k: "(of_nat (2 * j) :: u32) < 4000" "(of_nat (Suc (2 * j)) :: u32) < 4000"
      using j(2) by (simp_all only: word_less_nat_alt) (simp_all add: unat_of_nat_u32 del: of_nat_mult of_nat_Suc)
    let ?p = "p\<lparr>phys_mem := (phys_mem p)(V2P ?e := ?c)\<rparr>"
    let ?q = "?p\<lparr>phys_mem := (phys_mem ?p)(V2P (0xC00B8000 + of_nat (Suc (2 * j))) := 0x0E)\<rparr>"
    have p: "vm_st ?e ?c p = Inr ?p" "vga_mapped p0 ?p"
      using kvm.st_ok[OF vga_paged.Q_ok[OF Suc.prems(2) k(1)]] vga_paged.Q_wr[OF Suc.prems(2) k(1)] by blast+
    have q: "vm_st (0xC00B8000 + of_nat (Suc (2 * j))) 0x0E ?p = Inr ?q" "vga_mapped p0 ?q"
      using kvm.st_ok[OF vga_paged.Q_ok[OF p(2) k(2)]] vga_paged.Q_wr[OF p(2) k(2)] by blast+
    have "\<exists>r. early_virt_print a (of_nat (Suc j)) (0xC00B8000 + of_nat (2 * Suc j)) ?q = Some (Inr r) \<and> vga_mapped p0 r"
      using Suc.hyps(2) by (intro Suc.hyps(1) q(2)) simp_all
    moreover have "?e + 1 = 0xC00B8000 + of_nat (Suc (2 * j))" "?e + 2 = 0xC00B8000 + of_nat (2 * Suc j)"
      "of_nat j + 1 = (of_nat (Suc j) :: u32)" by simp_all
    moreover have "?c \<noteq> 0" using t j(1) by (simp add: window_text_def)
    ultimately show ?case
      using window_text_read[OF t b Suc.prems(2,1)] p(1) q(1)
      by (subst early_virt_print.simps) (simp only: sum.case bindE_simps if_False)
  qed
  have "vga_mapped p0 p0" by (rule booting_screen[OF b])
  from go[OF _ this, of 0] show ?thesis by (auto simp: early_virt_print_string_def)
qed

section \<open>Output before the terminal is set up\<close>

lemma wire_quiet: "wire (fold (view_emit False False False color) str v) = wire v"
  by (induction str arbitrary: v) (simp_all add: view_emit_def view_putchar_def Let_def)

text \<open>Information that consists of zeros is an empty list of tags.\<close>

lemma validate_empty:
  assumes s: "before_terminal dev u bpd bpt s" and al: "addr AND 7 = 0"
    and a: "4000 \<le> unat addr" "unat addr + 16 \<le> 0x400000" and z: "\<And>k. k < 16 \<Longrightarrow> phys_mem (vram s) (addr + k) = 0"
  shows "\<exists>t out. validate_boot vm_ld vm_st dev magic addr s = Inr t \<and>
    null_screen.emit_ok bpd bpt (vram s) dev u out s t"
proof (cases "magic = 0x36D76289")
  case True
  let ?I = "boot_info (vram s)"
  have v: "virtual_info addr = addr + 0xC0000000" using a(2) by (simp add: virtual_info_def word_less_nat_alt)
  have p: "V2P (addr + 0xC0000000 + k) = addr + k" for k by (simp add: V2P_def)
  have "unat (addr + 8) = unat addr + 8" using a(2) by (simp add: unat_plus_if')
  then have w: "words_at info_byte_ok (addr + 0xC0000000) 1" "words_at info_byte_ok (addr + 0xC0000000 + 8) 2"
    using a p[of 0] p[of 8] by (intro info_words; simp)+
  have r: "read32 ?I (addr + 0xC0000000 + k) = 0" if "k < 13" for k
  proof -
    have "k + j < 16" if "j < 4" for j
      using \<open>k < 13\<close> that by (simp add: word_less_nat_alt unat_plus_if')
    moreover have "V2P (addr + 0xC0000000 + k + j) = addr + (k + j)" for j by (simp add: V2P_def)
    ultimately have "?I (addr + 0xC0000000 + k + j) = 0" if "j < 4" for j using z[of "k + j"] that by (simp add: boot_info_def)
    from this[of 0] this[of 1] this[of 2] this[of 3] show ?thesis by (simp add: read32_def)
  qed
  have r0: "read32 ?I (addr + 0xC0000000) = 0" using r[of 0] by simp
  have "tags_print info_byte_ok ?I (virtual_info addr + 8) [] (virtual_info addr + 8)"
    unfolding v using w(2) r[of 8] by (intro tags_end) simp_all
  moreover have "next_tag ?I (virtual_info addr + 8) - virtual_info addr = 8"
    using r[of 12] by (simp add: next_tag_def v add.assoc)
  then have "printed (''Total multiboot info size: %d bytes'' @ NL) [Va_int (next_tag ?I (virtual_info addr + 8) - virtual_info addr)]
      (''Total multiboot info size: 8 bytes'' @ NL)" by (simp add: printed_def printing)
  moreover have "printed (''Multiboot info size: %d bytes'' @ NL) [Va_int (read32 ?I (virtual_info addr))]
      (''Multiboot info size: 0 bytes'' @ NL)" using r0 by (simp add: v printed_def printing)
  ultimately show ?thesis unfolding True
    using null_screen.validate_boot_emits[OF boot_info_ok before_terminal_ok[OF s] al w(1)[folded v]] by blast
next
  case False
  then show ?thesis using null_screen.rejects_emits[OF before_terminal_ok[OF s], of magic addr] by blast
qed

section \<open>From the loader to the main program\<close>

text \<open>
  The image as it is linked: the kernel in the first four megabytes with room behind it, its main
  program in the higher half, the two pages of the bootstrap one behind the other, and the message of the
  higher half behind these and behind what the bootstrap's stack begins with.
\<close>

definition linked :: "boot_symbols \<Rightarrow> bool" where
  "linked l \<longleftrightarrow> image_ok (kernel_physical_start l) (kernel_physical_end l) (boot_page_directory l) (boot_page_table1 l) \<and>
     kernel_physical_end l \<le> 0x3FC000 \<and> 0x100000 \<le> V2P (kernel_virtual_start l) \<and>
     V2P (kernel_virtual_start l) \<le> 0x3FFF80 \<and> is_higher_half_address (kernel_main_address l) \<and>
     boot_page_table1 l = boot_page_directory l + 4096 \<and> boot_page_table1 l < 0x3FE000 \<and>
     boot_page_table1 l + 4096 \<le> V2P (higher_half_message l) \<and> V2P (higher_half_message l) < 0x3FF800"

definition higher_half_text :: string where
  "higher_half_text = ''RedOS: Successfully jumped to higher half kernel at 0xC0000000!''"

text \<open>
  The machine as it is loaded: static variables have their initial values, the uninitialised memory
  behind the page table is zero, and the message of the higher half is where the loader puts it. The two
  messages of the physical mode are linked to addresses above 0xC0000000, where the code reads physical
  memory that the image does not define: the boot works when a zero byte is met there before the screen is full.
\<close>

definition loaded :: "boot_symbols \<Rightarrow> boot_machine \<Rightarrow> bool" where
  "loaded l s \<longleftrightarrow> terminal_buffer s = 0 \<and> terminal_row s = 0 \<and> terminal_column s = 0 \<and> \<not> terminal_serial_output s \<and>
     \<not> putchar_serial_output s \<and> \<not> serial_output_enabled s \<and> \<not> debug_initialized s \<and> length (debug_buffer s) = 1024 \<and>
     length (gdt (segments s)) = 3 \<and> \<not> halted s \<and> (\<forall>k<16. phys_mem (vram s) (boot_page_table1 l + 4096 + k) = 0) \<and>
     (\<forall>k<length higher_half_text. phys_mem (vram s) (V2P (higher_half_message l) + of_nat k) = of_char (higher_half_text ! k)) \<and>
     phys_mem (vram s) (V2P (higher_half_message l) + of_nat (length higher_half_text)) = 0 \<and>
     early_short (phys_mem (vram s)) (boot_message l) \<and> early_short (phys_mem (vram s)) (page_tables_setup l)"

definition line_works :: "device \<Rightarrow> bool" where
  "line_works dev \<longleftrightarrow> transmit_live dev COM1_PORT \<and> (\<forall>s :: boot_machine. fst (serial_init_com1 dev s))"

lemma behind_table:
  assumes "linked l"
  defines "e \<equiv> boot_page_table1 l + 4096"
  shows "e AND 0xFFF = 0" "e AND 7 = 0" "e \<notin> {0xB8000, boot_page_directory l, boot_page_table1 l}"
    "4000 \<le> unat e" "unat e + 16 \<le> 0x400000"
proof -
  let ?d = "boot_page_directory l" and ?t = "boot_page_table1 l"
  have t: "?t AND 0xFFF = 0" "?t < 0x3FE000" "0x100000 \<le> ?t" "?t = ?d + 4096"
    using assms(1) unfolding linked_def image_ok_def boot_pages_ok_def by blast+
  from t(2) have u: "unat e = unat ?t + 4096" by (simp add: e_def word_less_nat_alt unat_plus_if')
  have d: "?d = ?t - 4096" using t(4) by simp
  have "unat ?t mod 4096 = 0" using t(1) by (simp add: word_unat_eq_iff unat_and_FFF)
  then show a: "e AND 0xFFF = 0" and "e \<notin> {0xB8000, boot_page_directory l, boot_page_table1 l}"
    using u t(3) unfolding d by (auto simp: word_unat_eq_iff unat_and_FFF word_le_nat_alt unat_sub_if')
  have "e AND 7 = (e AND 0xFFF) AND 7" by (simp add: and.assoc)
  then show "e AND 7 = 0" by (simp add: a)
  show "4000 \<le> unat e" "unat e + 16 \<le> 0x400000" using u t(2) by (simp_all add: word_less_nat_alt)
qed

lemma boot_fields:
  fixes s t :: boot_machine
  assumes "tty_state.more t = tty_state.more s"
  shows "putchar_serial_output t = putchar_serial_output s" "serial_output_enabled t = serial_output_enabled s"
    "debug_initialized t = debug_initialized s" "debug_buffer t = debug_buffer s" "interrupt_flag t = interrupt_flag s"
    "halted t = halted s" "segments t = segments s"
  using assms by (cases s; cases t; simp)+

text \<open>No output flag is on.\<close>

definition quiet :: "boot_machine \<Rightarrow> bool" where
  "quiet s \<longleftrightarrow> \<not> terminal_serial_output s \<and> \<not> putchar_serial_output s \<and> \<not> serial_output_enabled s"

lemma quiet_console: "quiet s \<Longrightarrow> console_ok dev u s" "quiet s \<Longrightarrow> serial_ok dev u s"
  by (simp_all add: quiet_def console_ok_def serial_ok_def)

lemma quiet_emit:
  fixes s t :: boot_machine
  assumes "null_screen.emit_ok bpd bpt p0 dev u out s t" "quiet s"
  shows "quiet t" "line (uart_after COM1_PORT u t) = line (uart_after COM1_PORT u s)"
    "null_screen.term_ok bpd bpt p0 t" "tty_state.more t = tty_state.more s"
proof -
  have e: "null_screen.view u t = fold (view_emit False False False (terminal_color s)) out (null_screen.view u s)"
    "terminal_serial_output t = terminal_serial_output s" "null_screen.term_ok bpd bpt p0 t" "tty_state.more t = tty_state.more s"
    using assms by (simp_all add: null_screen.emit_ok_def quiet_def)
  show "quiet t" using e(2) boot_fields[OF e(4)] assms(2) by (simp add: quiet_def)
  have "wire (null_screen.view u t) = wire (null_screen.view u s)" by (simp only: e(1) wire_quiet)
  then show "line (uart_after COM1_PORT u t) = line (uart_after COM1_PORT u s)" by (simp add: null_screen.view_def)
qed (use assms in \<open>simp_all add: null_screen.emit_ok_def\<close>)

text \<open>Up to the jump: the tables are in use, and behind them there are still zeros and the message.\<close>

lemma message_text:
  assumes l: "linked l" and s: "loaded l s"
    and m: "\<And>a. a AND PAGE_FRAME \<notin> {0xB8000, boot_page_directory l, boot_page_table1 l} \<Longrightarrow> m a = phys_mem (vram s) a"
  shows "window_text m (V2P (higher_half_message l)) (length higher_half_text)"
proof -
  let ?a = "V2P (higher_half_message l)" and ?t = "boot_page_table1 l" and ?d = "boot_page_directory l"
  have ok: "?t AND 0xFFF = 0" "?d AND 0xFFF = 0" "0x100000 \<le> ?t" "0x100000 \<le> ?d" "?t < 0x3FE000" "?t = ?d + 4096"
    "?t + 4096 \<le> ?a" "?a < 0x3FF800" "?d < 0x400000"
    using l unfolding linked_def image_ok_def boot_pages_ok_def by blast+
  have u: "unat (?t + 4096) = unat ?t + 4096" using ok(5) by (simp add: word_less_nat_alt unat_plus_if')
  have d: "unat ?d = unat ?t - 4096" using ok(6,9) by (simp add: word_less_nat_alt unat_plus_if')
  have len: "length higher_half_text = 63" by (simp add: higher_half_text_def)
  have at: "m (?a + of_nat k) = phys_mem (vram s) (?a + of_nat k)" if k: "k \<le> 63" for k
  proof (rule m)
    have a: "unat (?a + of_nat k) = unat ?a + k"
      using ok(8) k by (simp add: word_less_nat_alt unat_word_ariths unat_of_nat_u32)
    have "(?a + of_nat k) AND PAGE_FRAME \<noteq> b" if b: "b AND 0xFFF = 0" "unat b + 4096 \<le> unat ?a" for b
    proof
      assume "(?a + of_nat k) AND PAGE_FRAME = b"
      with page_split[of "?a + of_nat k"] have e: "?a + of_nat k = b + ((?a + of_nat k) AND 0xFFF)" by simp
      have "unat ((?a + of_nat k) AND 0xFFF) < 4096" using page_off_less[of "?a + of_nat k"] by (simp add: word_less_nat_alt)
      then have "unat (b + ((?a + of_nat k) AND 0xFFF)) < unat b + 4096"
        using mod_less_eq_dividend[of "unat b + unat ((?a + of_nat k) AND 0xFFF)" "2 ^ 32"] by (simp add: unat_word_ariths)
      with e a b(2) show False by simp
    qed
    moreover have "unat (0xB8000 :: u32) + 4096 \<le> unat ?a" "unat ?t + 4096 \<le> unat ?a" "unat ?d + 4096 \<le> unat ?a"
      using ok(3,7) u d by (simp_all add: word_le_nat_alt)
    ultimately show "(?a + of_nat k) AND PAGE_FRAME \<notin> {0xB8000, ?d, ?t}" using ok(1,2) by auto
  qed
  have "list_all (\<lambda>c. (of_char c :: u8) \<noteq> 0) higher_half_text" by (simp add: higher_half_text_def)
  then have nz: "(of_char (higher_half_text ! k) :: u8) \<noteq> 0" if "k < 63" for k
    using that len by (simp add: list_all_length)
  have "0x100000 \<le> unat ?a" "unat ?a + 63 < 0x400000" using ok(3,7,8) u by (simp_all add: word_le_nat_alt word_less_nat_alt)
  moreover have "phys_mem (vram s) (?a + of_nat k) = of_char (higher_half_text ! k)" if "k < 63" for k
    using s that unfolding loaded_def len by blast
  moreover have "phys_mem (vram s) (?a + of_nat 63) = 0" using s unfolding loaded_def len by blast
  ultimately show ?thesis using at at[of 63] nz by (simp add: window_text_def len)
qed

lemma boot_jump:
  assumes l: "linked l" and s: "loaded l s"
  obtains p q where "boot_paging (boot_page_directory l) (boot_page_table1 l) (boot_message l) (page_tables_setup l) (vram s) = Inr p"
    "early_virt_print_string (higher_half_message l) p = Inr q"
    "booting (boot_page_directory l) (boot_page_table1 l) q" "\<And>k. k < 16 \<Longrightarrow> phys_mem q (boot_page_table1 l + 4096 + k) = 0"
proof -
  let ?d = "boot_page_directory l" and ?t = "boot_page_table1 l"
  have ok: "boot_pages_ok ?d ?t" using l unfolding linked_def image_ok_def by blast
  have "early_short (phys_mem (vram s)) (boot_message l)" "early_short (phys_mem (vram s)) (page_tables_setup l)"
    using s unfolding loaded_def by blast+
  from boot_paging_ok[OF ok this] obtain p where
    p: "boot_paging ?d ?t (boot_message l) (page_tables_setup l) (vram s) = Inr p" "boot_ready ?d ?t p"
      "\<And>a. a AND PAGE_FRAME \<notin> {0xB8000, ?d, ?t} \<Longrightarrow> phys_mem p a = phys_mem (vram s) a" by blast
  have b: "booting ?d ?t p" using ok p(2) by (simp add: booting_def)
  obtain q where q: "early_virt_print_string (higher_half_message l) p = Inr q" "vga_mapped p q"
    using early_virt_ok[OF message_text[OF l s p(3)] b] by blast
  show thesis
  proof (rule that[OF p(1) q(1) booting_stable[OF b q(2)]])
    fix k :: u32 assume k: "k < 16"
    note a = behind_table(1,3)[OF l]
    have "(?t + 4096 + k) AND PAGE_FRAME = ?t + 4096" using k by (intro page_offset(1)[OF a(1)]) (simp add: word_less_nat_alt)
    then show "phys_mem q (?t + 4096 + k) = 0"
      using screen_page[OF q(2), of "{0xB8000}"] p(3)[of "?t + 4096 + k"] a s k by (simp add: loaded_def)
  qed
qed

text \<open>All segment registers name flat segments of privilege level 0.\<close>

definition flat_segments :: "u32 \<Rightarrow> gdt_state \<Rightarrow> bool" where
  "flat_segments addr g \<longleftrightarrow> ds g = ss g \<and> es g = ss g \<and> fs g = ss g \<and> gs g = ss g \<and>
     (\<exists>c d. descriptor addr g (cs g) = Some c \<and> code_segment c \<and> flat_segment c \<and>
        descriptor addr g (ss g) = Some d \<and> data_segment d \<and> flat_segment d)"

text \<open>
  The state between two output calls of \<^verbatim>\<open>setup_gdt\<close>: it differs from \<open>s0\<close> in the screen, the cursor and the
  segments only.
\<close>

definition set_up :: "u32 \<Rightarrow> u32 \<Rightarrow> uart \<Rightarrow> boot_machine \<Rightarrow> gdt_state \<Rightarrow> boot_machine \<Rightarrow> bool" where
  "set_up bpd bpt u s0 g s \<longleftrightarrow> quiet s \<and> null_screen.term_ok bpd bpt (vram s0) s \<and>
     line (uart_after COM1_PORT u s) = line (uart_after COM1_PORT u s0) \<and>
     tty_state.more s = tty_state.more (s0\<lparr>segments := g\<rparr>)"

lemma set_up_segments:
  assumes "set_up bpd bpt u s0 g s"
  shows "segments s = g" "set_up bpd bpt u s0 h (s\<lparr>segments := h\<rparr>)"
proof -
  have m: "tty_state.more s = tty_state.more (s0\<lparr>segments := g\<rparr>)" using assms by (simp add: set_up_def)
  show "segments s = g" using boot_fields(7)[OF m] by simp
  have "tty_state.more (s\<lparr>segments := h\<rparr>) = tty_state.more (s0\<lparr>segments := h\<rparr>)" using m by (cases s; cases s0) simp
  then show "set_up bpd bpt u s0 h (s\<lparr>segments := h\<rparr>)"
    using assms by (simp add: set_up_def quiet_def null_screen.term_ok_def uart_after_def)
qed

lemma set_up_say:
  assumes s: "set_up bpd bpt u s0 g s" and p: "printed f x out"
    and k: "\<And>t. set_up bpd bpt u s0 g t \<Longrightarrow> returns (k t) R"
  shows "returns (bindE (say dev f x s) k) R"
proof -
  have q: "quiet s" "null_screen.term_ok bpd bpt (vram s0) s" using s by (simp_all add: set_up_def)
  obtain t where t: "say dev f x s = Inr t" "null_screen.emit_ok bpd bpt (vram s0) dev u out s t"
    using null_screen.print_line_emits[OF q(2) quiet_console(1)[OF q(1)] p] by (auto simp: print_line_def say_def)
  note e = quiet_emit[OF t(2) q(1)]
  have "set_up bpd bpt u s0 g t" using s e by (simp add: set_up_def)
  with k t(1) show ?thesis by simp
qed

lemma set_up_done:
  "set_up bpd bpt u s0 g s \<Longrightarrow> printed f x out \<Longrightarrow> returns (say dev f x s) (set_up bpd bpt u s0 g)"
  using set_up_say[of bpd bpt u s0 g s f x out Inr "set_up bpd bpt u s0 g" dev] by (simp add: returns_def bindE_Inr_iff)

lemma gdt_lines_printed:
  "printed (''Setting up GDT for higher half kernel...'' @ NL) [] (''Setting up GDT for higher half kernel...'' @ NL)"
  "printed (''GDT location: %x'' @ NL) [Va_int v] (''GDT location: '' @ hex v @ NL)"
  "printed (''GDT loaded successfully. Running self test...'' @ NL) [] (''GDT loaded successfully. Running self test...'' @ NL)"
  "printed (''GDT setup and test complete!'' @ NL) [] (''GDT setup and test complete!'' @ NL)" for v :: u32
  using hex_u32[of v] by (simp_all add: printed_def hex_def cstr_def conversion_def)

lemma register_printed:
  "printed (name @ '' selector value: %x, expected value: %x'' @ NL) [Va_int v, Va_int e]
     (name @ '' selector value: '' @ hex v @ '', expected value: '' @ hex e @ NL)"
  if "name \<in> {''CS'', ''GS'', ''DS'', ''ES'', ''FS'', ''SS''}" for v e :: u32
  using that hex_u32[of v] hex_u32[of e] by (auto simp: printed_def hex_def cstr_def conversion_def)

definition flat_table :: "gdt_entry list" where
  "flat_table = [encode_entry 0 0 0 0, encode_entry 0 0xFFFFFFFF 0x9A 0xCF, encode_entry 0 0xFFFFFFFF 0x92 0xCF]"

lemma flat_entries:
  assumes "length (gdt g) = 3"
  shows "bindE (gdt_set_entry 0 0 0 0 0 g) (\<lambda>g. bindE (gdt_set_entry 1 0 0xFFFFFFFF GDT_CODE_SEGMENT_PL0 0xCF g) (\<lambda>g.
      bindE (gdt_set_entry 2 0 0xFFFFFFFF GDT_DATA_SEGMENT_PL0 0xCF g) k)) = k (g\<lparr>gdt := flat_table\<rparr>)"
proof -
  have "(gdt g)[0 := flat_table ! 0, Suc 0 := flat_table ! 1, 2 := flat_table ! 2] = flat_table"
    using assms by (auto simp: flat_table_def length_Suc_conv numeral_3_eq_3 numeral_2_eq_2)
  then show ?thesis using assms by (simp add: gdt_set_entry_eq flat_table_def)
qed

lemma flat_loaded:
  assumes "gdt g = flat_table" "gdtr g = \<lparr>gp_limit = 23, gp_base = a\<rparr>"
  shows "load_segment a data_segment 16 g = Inr ()" "load_segment a code_segment 8 g = Inr ()"
    "cs g = 8 \<Longrightarrow> ds g = 16 \<and> es g = 16 \<and> fs g = 16 \<and> gs g = 16 \<and> ss g = 16 \<Longrightarrow> flat_segments a g"
proof -
  have "code_segment (packed (encode_entry 0 0xFFFFFFFF 0x9A 0xCF))" "flat_segment (packed (encode_entry 0 0xFFFFFFFF 0x9A 0xCF))"
    "data_segment (packed (encode_entry 0 0xFFFFFFFF 0x92 0xCF))" "flat_segment (packed (encode_entry 0 0xFFFFFFFF 0x92 0xCF))"
    by (simp_all add: code_segment_def data_segment_def decode_entry flat_entry)
  then show "load_segment a data_segment 16 g = Inr ()" "load_segment a code_segment 8 g = Inr ()"
    "cs g = 8 \<Longrightarrow> ds g = 16 \<and> es g = 16 \<and> fs g = 16 \<and> gs g = 16 \<and> ss g = 16 \<Longrightarrow> flat_segments a g"
    using assms by (simp_all add: load_segment_def flat_segments_def descriptor_def flat_table_def)
qed

lemma setup_gdt_runs:
  assumes s: "set_up bpd bpt u s0 g s" and l: "length (gdt g) = 3"
  shows "returns (setup_gdt_io dev a b s) (\<lambda>t. \<exists>h. flat_segments a h \<and> set_up bpd bpt u s0 h t)"
proof -
  let ?g = "g\<lparr>gp := \<lparr>gp_limit = 23, gp_base = a\<rparr>, gdt := flat_table\<rparr>"
  let ?h = "?g\<lparr>gdtr := \<lparr>gp_limit = 23, gp_base = a\<rparr>, ds := 16, es := 16, fs := 16, gs := 16, ss := 16, cs := 8\<rparr>"
  have e: "length (gdt (g\<lparr>gp := \<lparr>gp_limit = 23, gp_base = a\<rparr>\<rparr>)) = 3" using l by simp
  have load: "load_segment a data_segment 16 (?g\<lparr>gdtr := \<lparr>gp_limit = 23, gp_base = a\<rparr>\<rparr>) = Inr ()"
    "load_segment a code_segment 8 (?g\<lparr>gdtr := \<lparr>gp_limit = 23, gp_base = a\<rparr>, ds := 16, es := 16, fs := 16, gs := 16, ss := 16\<rparr>) = Inr ()"
    "flat_segments a ?h" by (simp_all add: flat_loaded)
  let ?test = "\<lambda>t. bindE (say dev (''GDT loaded successfully. Running self test...'' @ NL) [] t) (\<lambda>s.
     bindE (check_register_io dev ''CS'' (cs (segments s)) GDT_KERNEL_CODE_SEGMENT_SELECTOR s) (\<lambda>s.
     bindE (check_register_io dev ''GS'' (gs (segments s)) GDT_KERNEL_DATA_SEGMENT_SELECTOR s) (\<lambda>s.
     bindE (check_register_io dev ''DS'' (ds (segments s)) GDT_KERNEL_DATA_SEGMENT_SELECTOR s) (\<lambda>s.
     bindE (check_register_io dev ''ES'' (es (segments s)) GDT_KERNEL_DATA_SEGMENT_SELECTOR s) (\<lambda>s.
     bindE (check_register_io dev ''FS'' (fs (segments s)) GDT_KERNEL_DATA_SEGMENT_SELECTOR s) (\<lambda>s.
     bindE (check_register_io dev ''SS'' (ss (segments s)) GDT_KERNEL_DATA_SEGMENT_SELECTOR s)
       (say dev (''GDT setup and test complete!'' @ NL) [])))))))"
  have tested: "returns (?test t) (\<lambda>t. \<exists>h. flat_segments a h \<and> set_up bpd bpt u s0 h t)"
    if "set_up bpd bpt u s0 ?h t" for t
    unfolding check_register_io_def
    apply (rule set_up_say[OF that gdt_lines_printed(3)])
    apply (rule set_up_say, assumption, rule register_printed, simp)+
    apply (rule returns_mono, erule set_up_done, rule gdt_lines_printed)
    using load(3) by blast
  have lgdt: "returns (bindE (say dev (''GDT location: %x'' @ NL) [Va_int b] t) (\<lambda>s.
       bindE (load_segment a data_segment 16 ((segments s)\<lparr>gdtr := gp (segments s)\<rparr>)) (\<lambda>_.
       bindE (load_segment a code_segment 8 ((segments s)\<lparr>gdtr := gp (segments s), ds := 16, es := 16, fs := 16, gs := 16, ss := 16\<rparr>))
         (\<lambda>_. k (s\<lparr>segments := (segments s)\<lparr>gdtr := gp (segments s), ds := 16, es := 16, fs := 16, gs := 16, ss := 16, cs := 8\<rparr>\<rparr>))))) R"
    if "set_up bpd bpt u s0 ?g t" "\<And>t. set_up bpd bpt u s0 ?h t \<Longrightarrow> returns (k t) R" for t k R
    using set_up_segments that(2)
    by (intro set_up_say[OF that(1) gdt_lines_printed(2)]) (simp add: load)
  show ?thesis
    unfolding setup_gdt_io_def Let_def
    apply (rule set_up_say[OF s gdt_lines_printed(1)])
    subgoal premises t for t
      using lgdt[of _ ?test, OF set_up_segments(2)[OF t] tested]
      by (simp add: set_up_segments(1)[OF t] flat_entries[simplified] l)
    done
qed

text \<open>The report on the boot information and the descriptor table, printed at the null pointer.\<close>

lemma boot_validated:
  assumes b: "booting bpd bpt (vram s)" and s: "terminal_buffer s = 0" "terminal_row s < 25" "terminal_column s < 80" "quiet s"
    and g: "length (gdt (segments s)) = 3" and a: "addr AND 7 = 0" "4000 \<le> unat addr" "unat addr + 16 \<le> 0x400000"
    and z: "\<And>k. k < 16 \<Longrightarrow> phys_mem (vram s) (addr + k) = 0"
  obtains t t' h where "validate_boot vm_ld vm_st dev magic addr s = Inr t"
    "setup_gdt_io dev a b t = Inr t'" "booting bpd bpt (vram t')" "quiet t'"
    "line (uart_after COM1_PORT u t') = line (uart_after COM1_PORT u s)" "flat_segments a h"
    "tty_state.more t' = tty_state.more (s\<lparr>segments := h\<rparr>)"
proof -
  have bt: "before_terminal dev u bpd bpt s" using b s by (simp add: before_terminal_def quiet_console)
  obtain t out where t: "validate_boot vm_ld vm_st dev magic addr s = Inr t"
    "null_screen.emit_ok bpd bpt (vram s) dev u out s t" using validate_empty[OF bt a z, of magic] by blast
  note q = quiet_emit[OF t(2) s(4)]
  have "set_up bpd bpt u s (segments s) t" using q by (simp add: set_up_def)
  from setup_gdt_runs[OF this g, of dev a b] obtain t' h where t': "setup_gdt_io dev a b t = Inr t'" "flat_segments a h"
    "set_up bpd bpt u s h t'" by (auto simp: returns_def)
  then have "booting bpd bpt (vram t')" by (simp add: set_up_def null_screen.term_ok_def null_screen_of_def)
  with that[OF t(1) t'(1)] t'(2,3) show thesis by (simp add: set_up_def)
qed

text \<open>The terminal takes over the real screen.\<close>

lemma boot_terminal:
  assumes b: "booting bpd bpt (vram s)" and q: "quiet s"
  obtains t where "terminal_initialize vm_ld vm_st dev (cr0 (vram s)) s = Inr t" "booting bpd bpt (vram t)" "quiet t"
    "terminal_buffer t = 0xC00B8000" "terminal_row t < 25" "terminal_column t < 80"
    "tty_state.more t = tty_state.more s" "line (uart_after COM1_PORT u t) = line (uart_after COM1_PORT u s)"
proof -
  have c: "get_vga_buffer (cr0 (vram s)) = 0xC00B8000"
    using b by (simp add: booting_def boot_ready_def is_paging_enabled_def get_vga_buffer_def vga_is_paging_enabled_def)
  have nz: "(''0xC00B8000'' @ replicate 10 (CHR 0x00)) ! i \<noteq> CHR 0x00" if "i < 10" for i
    using that by (intro literal_prefix; simp)
  obtain t s0 where t: "terminal_initialize vm_ld vm_st dev (cr0 (vram s)) s = Inr t"
    "vga_paged.wrote (vram s) dev u s0 (banner (cr0 (vram s)) (take 10 (''0xC00B8000'' @ replicate 10 (CHR 0x00)))) t"
    "vga_paged.view u s0 = \<lparr>grid = replicate 2000 (vga_entry 0x20 7), vrow = 0, vcol = 0, wire = wire (vga_paged.view u s)\<rparr>"
    "terminal_serial_output s0 = terminal_serial_output s" "tty_state.more s0 = tty_state.more s"
    using vga_paged.initialize_refines[OF booting_screen[OF b] c quiet_console(2)[OF q] hex_samples(1) _ nz, of dev u] by auto
  let ?b = "banner (cr0 (vram s)) (take 10 (''0xC00B8000'' @ replicate 10 (CHR 0x00)))"
  have w: "vga_paged.term_ok (vram s) t" "vga_paged.view u t = fold (view_putchar False (terminal_color s0)) ?b (vga_paged.view u s0)"
    "terminal_serial_output t = terminal_serial_output s0" "tty_state.more t = tty_state.more s"
    using t(2,4,5) q by (simp_all add: vga_paged.wrote_def quiet_def)
  have "wire (fold (view_putchar False x) str v) = wire v" for x str v
    by (induction str arbitrary: v) (simp_all add: view_putchar_def)
  then have "wire (vga_paged.view u t) = wire (vga_paged.view u s)" by (simp add: w(2) t(3))
  moreover have "quiet t" using q w(3) t(4) boot_fields[OF w(4)] by (simp add: quiet_def)
  moreover have "booting bpd bpt (vram t)" using w(1) booting_stable[OF b] by (simp add: vga_paged.term_ok_def)
  ultimately show thesis using that[OF t(1)] w(1,4) by (simp add: vga_paged.term_ok_def vga_paged.view_def)
qed

lemma boot_main:
  assumes l: "linked l" and s: "loaded l s" and dev: "line_works dev" and init: "\<forall>s. init s = Inr s"
  obtains t where "boot dev l r init magic info s = bindE (kernel_main dev (link_symbols.truncate l) r t) (\<lambda>s.
      if halted s then Inr s else bindE (say dev ''System halted.'' [] s) (\<lambda>s. Inr (s\<lparr>halted := True\<rparr>)))"
    "handed_over dev (boot_page_directory l) (boot_page_table1 l) t"
    "line (uart_after COM1_PORT u t) = line (uart_after COM1_PORT u s)" "\<not> halted t" "\<not> interrupt_flag t"
    "flat_segments (gdt_address l) (segments t)"
proof -
  let ?d = "boot_page_directory l" and ?t = "boot_page_table1 l"
  obtain p q where p: "boot_paging ?d ?t (boot_message l) (page_tables_setup l) (vram s) = Inr p"
    and q: "early_virt_print_string (higher_half_message l) p = Inr q" "booting ?d ?t q" "\<And>k. k < 16 \<Longrightarrow> phys_mem q (?t + 4096 + k) = 0"
    using boot_jump[OF l s] by blast
  let ?s = "s\<lparr>vram := q, interrupt_flag := False\<rparr>"
  obtain t0 t1 h where t0: "validate_boot vm_ld vm_st dev magic (?t + 4096) ?s = Inr t0"
    "setup_gdt_io dev (gdt_address l) (gp_address l) t0 = Inr t1"
    and t1: "booting ?d ?t (vram t1)" "quiet t1" "line (uart_after COM1_PORT u t1) = line (uart_after COM1_PORT u ?s)"
    "flat_segments (gdt_address l) h" "tty_state.more t1 = tty_state.more (?s\<lparr>segments := h\<rparr>)"
  proof -
    have "quiet ?s" "length (gdt (segments ?s)) = 3" "terminal_buffer ?s = 0" "terminal_row ?s < 25" "terminal_column ?s < 80"
      using s by (simp_all add: loaded_def quiet_def)
    moreover have "booting ?d ?t (vram ?s)" "\<And>k. k < 16 \<Longrightarrow> phys_mem (vram ?s) (?t + 4096 + k) = 0"
      using q(2,3) by simp_all
    ultimately show thesis
      using that boot_validated[of ?d ?t ?s "?t + 4096" dev magic "gdt_address l" "gp_address l" u] behind_table(2,4,5)[OF l] by metis
  qed
  obtain t2 where t2: "terminal_initialize vm_ld vm_st dev (cr0 (vram t1)) t1 = Inr t2" "booting ?d ?t (vram t2)" "quiet t2"
    "terminal_buffer t2 = 0xC00B8000" "terminal_row t2 < 25" "terminal_column t2 < 80"
    "tty_state.more t2 = tty_state.more t1" "line (uart_after COM1_PORT u t2) = line (uart_after COM1_PORT u t1)"
    using boot_terminal[OF t1(1,2)] by blast
  note f = boot_fields[OF trans[OF t2(7) t1(5)]]
  show thesis
  proof (rule that[of t2])
    show "boot dev l r init magic info s = bindE (kernel_main dev (link_symbols.truncate l) r t2) (\<lambda>s.
      if halted s then Inr s else bindE (say dev ''System halted.'' [] s) (\<lambda>s. Inr (s\<lparr>halted := True\<rparr>)))"
      using init t0 t2(1) p q(1) by (simp add: boot_def multiboot_entry_def higher_half_def Let_def)
    show "handed_over dev ?d ?t t2" using t2 f s dev by (simp add: handed_over_def loaded_def line_works_def quiet_def)
  qed (use t2 t1 f s in \<open>simp_all add: loaded_def uart_after_def\<close>)
qed

section \<open>The whole run\<close>

text \<open>
  C2. The system starts, does its work and halts: from the machine as the boot loader leaves it, on a serial
  chip that works, with an empty \<^verbatim>\<open>_init\<close>, and with a zero byte after at most 2000 others at the two physical addresses
  above 0xC0000000 from which the bootstrap prints before paging is on, the bootstrap and everything it
  calls run without a fault, whatever the loader passes in its registers. In the end the processor is halted
  with interrupts off, the segment registers name flat segments, the paging invariant holds, the test page
  is unmapped, and the serial line has received the greeting, the message that the memory test
  passed, the message that the kernel has booted, and the last words of the bootstrap, in this order.
\<close>

theorem boot_runs:
  assumes "linked l" and "loaded l s" and "line_works dev" and "\<forall>s. init s = Inr s"
  shows "\<exists>t y. boot dev l r init magic info s = Inr t \<and> halted t \<and> \<not> interrupt_flag t \<and>
    flat_segments (gdt_address l) (segments t) \<and> run_inv (vram t, {0xB8000}) \<and> mmu_translate (vram t) 0xD0000000 = None \<and>
    line (uart_after COM1_PORT u t) = line (uart_after COM1_PORT u s) @ y \<and>
    appear [log_line 3 ''RedOS kernel starting...'' [], log_line 3 ''Memory test passed successfully'' [],
      log_line 3 ''RedOS successfully booted in higher half mode!'' [], ''System halted.''] y"
proof -
  obtain s' where b: "boot dev l r init magic info s = bindE (kernel_main dev (link_symbols.truncate l) r s') (\<lambda>s.
      if halted s then Inr s else bindE (say dev ''System halted.'' [] s) (\<lambda>s. Inr (s\<lparr>halted := True\<rparr>)))"
    and h: "handed_over dev (boot_page_directory l) (boot_page_table1 l) s'"
    and s': "line (uart_after COM1_PORT u s') = line (uart_after COM1_PORT u s)" "\<not> halted s'" "\<not> interrupt_flag s'"
      "flat_segments (gdt_address l) (segments s')"
    using boot_main[OF assms] by blast
  have l: "is_higher_half_address (kernel_main_address (link_symbols.truncate l))"
    "image_ok (kernel_physical_start (link_symbols.truncate l)) (kernel_physical_end (link_symbols.truncate l))
       (boot_page_directory l) (boot_page_table1 l)" "kernel_physical_end (link_symbols.truncate l) \<le> 0x3FC000"
    "0x100000 \<le> V2P (kernel_virtual_start (link_symbols.truncate l))" "V2P (kernel_virtual_start (link_symbols.truncate l)) \<le> 0x3FFF80"
    using assms(1) unfolding linked_def link_symbols.truncate_def link_symbols.simps by blast+
  obtain t s1 y U T where t: "kernel_main dev (link_symbols.truncate l) r s' = Inr t" and m: "debug_state.more s1 = debug_state.more s'"
    and y: "line (uart_after COM1_PORT u s1) = line (uart_after COM1_PORT u s') @ y" and T: "restored T"
    and k: "kernel_at (space {0xB8000} U T 0xD0000000) dev u (s1\<lparr>debug_target := 0xFF\<rparr>) [start_line, passed_line, booted_line] t"
    using main_ok[OF h l, of r u] by (auto simp: returns_def)
  have "halted t = halted s'" using k m by (intro machine_fields(2)) (simp add: kernel_at_def heard_def)
  obtain w where w: "say dev ''System halted.'' [] t = Inr w"
    "kernel_at (space {0xB8000} U T 0xD0000000) dev u (s1\<lparr>debug_target := 0xFF\<rparr>)
       ([start_line, passed_line, booted_line] @ [''System halted.'']) w"
    using running.at_printf[OF k, of "''System halted.''" "[]" "''System halted.''"] by (auto simp: returns_def cstr_def)
  obtain z where z: "run_inv (vram w, {0xB8000})" "mmu_translate (vram w) 0xD0000000 = None"
    "\<forall>va. drop_bit 22 va \<noteq> 1023 \<longrightarrow> mmu_translate (vram w) va = initial_map va"
    "debug_state.more w = debug_state.more s'" "line (uart_after COM1_PORT u w) = line (uart_after COM1_PORT u s') @ z"
    "appear ([start_line, passed_line, booted_line] @ [''System halted.'']) z"
    using m y T w(2) by (rule space_heard)
  note f = machine_fields[OF z(4)]
  have seg: "segments w = segments s'" using f(3) by (cases w; cases s') simp
  have "flat_segments (gdt_address l) (segments w)"
    unfolding seg by (rule s'(4))
  moreover have "boot dev l r init magic info s = Inr (w\<lparr>halted := True\<rparr>)"
    using \<open>halted t = halted s'\<close> s'(2) w(1) by (simp add: b t)
  ultimately show ?thesis
    using z f s'(1,3) unfolding start_line_def passed_line_def booted_line_def
    by (intro exI[of _ "w\<lparr>halted := True\<rparr>"] exI[of _ z]) (simp add: uart_after_def del: appear.simps)
qed

definition sample_image :: boot_symbols where
  "sample_image = \<lparr>kernel_virtual_start = 0xC0105000, kernel_virtual_end = 0xC0140000,
     kernel_physical_start = 0x100000, kernel_physical_end = 0x140000, kernel_main_address = 0xC0106000,
     boot_page_directory = 0x101000, boot_page_table1 = 0x102000, boot_message = 0xC0108100,
     page_tables_setup = 0xC0108140, higher_half_message = 0xC0108000, gdt_address = 0xC0110000, gp_address = 0xC0110018\<rparr>"

text \<open>Memory with the message of the higher half, and zeros where nothing is loaded or installed.\<close>

definition sample_memory :: mem where
  "sample_memory = (\<lambda>a. if 0x108000 \<le> unat a \<and> unat a < 0x108000 + length higher_half_text
     then of_char (higher_half_text ! (unat a - 0x108000)) else 0)"

definition sample_loader :: boot_machine where
  "sample_loader = \<lparr>io = [], terminal_row = 0, terminal_column = 0, terminal_color = 0, terminal_buffer = 0,
     terminal_serial_output = False, vram = reset_state\<lparr>phys_mem := sample_memory\<rparr>, putchar_serial_output = False,
     serial_output_enabled = False, debug_level = 3, debug_target = 1, debug_initialized = False,
     debug_buffer = replicate 1024 (CHR 0x00), interrupt_flag = False, halted = False, segments = gdt_reset\<rparr>"

lemma sample_loaded: "loaded sample_image sample_loader"
proof -
  have len: "length higher_half_text = 63" by (simp add: higher_half_text_def)
  have z: "sample_memory a = 0" if "unat a < 0x108000 \<or> 0x109000 \<le> unat a" for a
    using that by (auto simp: sample_memory_def len)
  have "early_short sample_memory a" if "a = 0xC0108100 \<or> a = 0xC0108140" for a
  proof -
    have "early_text sample_memory a 0" using that z[of a] by (auto simp: early_text_def)
    then show ?thesis unfolding early_short_def by blast
  qed
  moreover have "sample_memory (0x103000 + k) = 0" if "k < 16" for k
    using that by (intro z) (simp add: word_less_nat_alt unat_plus_if')
  moreover have "unat (0x108000 + of_nat k :: u32) = 0x108000 + k" if "k \<le> 63" for k
    using that unat_of_nat_u32[of "0x108000 + k"] by simp
  then have "sample_memory (0x108000 + of_nat k) = (if k < 63 then of_char (higher_half_text ! k) else 0)" if "k \<le> 63" for k
    using that by (simp add: sample_memory_def len)
  note this[of 63] this
  ultimately show ?thesis
    by (simp add: loaded_def sample_image_def sample_loader_def gdt_reset_def len V2P_def)
qed

theorem boot_runs_witness:
  "\<exists>t. boot ideal_chip sample_image sample_regs Inr MULTIBOOT2_BOOTLOADER_MAGIC 0x9000 sample_loader = Inr t \<and> halted t \<and>
     run_inv (vram t, {0xB8000})"
proof -
  have "linked sample_image"
    using image_sample by (simp add: linked_def sample_image_def is_higher_half_address_def V2P_def)
  moreover have "line_works ideal_chip"
    by (simp add: line_works_def chips_live serial_init_com1_def serial_init_def Let_def inb_def outb_def ideal_chip_def)
  ultimately show ?thesis
    using boot_runs[OF _ sample_loaded, of ideal_chip Inr sample_regs MULTIBOOT2_BOOTLOADER_MAGIC "0x9000"] by auto
qed

end
