(* ===== verification/C_Types.thy ===== *)
theory C_Types
  imports Prelude
begin

text \<open>
  The integer types of \<^verbatim>\<open>src/libc/include/bits/types.h\<close>, \<^verbatim>\<open>bits/wchar.h\<close> and \<^verbatim>\<open>stdint.h\<close>: the
  declarations of the headers as data, in the order of the files, with the preprocessor's choice
  of an architecture, the expansion of macros and the resolution of type names. What the compiler
  predefines (types such as \<^verbatim>\<open>__INT8_TYPE__\<close>, values such as \<^verbatim>\<open>__INT8_MAX__\<close> and the name of the
  architecture) is a parameter.
\<close>

section \<open>Integer types and constant expressions\<close>

datatype int_type = Signed nat | Unsigned nat

fun type_width :: "int_type \<Rightarrow> nat" where
  "type_width (Signed w) = w"
| "type_width (Unsigned w) = w"

fun type_min :: "int_type \<Rightarrow> int" where
  "type_min (Signed w) = - (2 ^ (w - 1))"
| "type_min (Unsigned w) = 0"

fun type_max :: "int_type \<Rightarrow> int" where
  "type_max (Signed w) = 2 ^ (w - 1) - 1"
| "type_max (Unsigned w) = 2 ^ w - 1"

text \<open>Integer promotion, to an \<^verbatim>\<open>int\<close> of 32 bits, and the common type of two promoted operands.\<close>

definition promote :: "int_type \<Rightarrow> int_type" where
  "promote t = (if type_width t < 32 then Signed 32 else t)"

fun common :: "int_type \<Rightarrow> int_type \<Rightarrow> int_type" where
  "common (Signed a) (Signed b) = Signed (max a b)"
| "common (Unsigned a) (Unsigned b) = Unsigned (max a b)"
| "common (Signed a) (Unsigned b) = (if b < a then Signed a else Unsigned b)"
| "common (Unsigned a) (Signed b) = (if a < b then Signed b else Unsigned a)"

text \<open>A result in a type: unsigned arithmetic wraps, a signed overflow has no value.\<close>

fun in_type :: "int_type \<Rightarrow> int \<Rightarrow> (int_type \<times> int) option" where
  "in_type (Signed w) v =
     (if type_min (Signed w) \<le> v \<and> v \<le> type_max (Signed w) then Some (Signed w, v) else None)"
| "in_type (Unsigned w) v = Some (Unsigned w, v mod 2 ^ w)"

datatype c_expr = Id string | Lit int | Neg c_expr | Minus c_expr c_expr

text \<open>
  The compiler: which names it predefines for conditionals, the types and the values its
  predefined macros stand for, and its macros for constants such as \<^verbatim>\<open>__INT64_C\<close>.
\<close>

record compiler =
  predefined :: "string \<Rightarrow> bool"
  builtin_type :: "string \<Rightarrow> int_type option"
  builtin_value :: "string \<Rightarrow> (int_type \<times> int) option"
  builtin_const :: "string \<Rightarrow> int \<Rightarrow> (int_type \<times> int) option"

fun c_eval :: "compiler \<Rightarrow> c_expr \<Rightarrow> (int_type \<times> int) option" where
  "c_eval C (Id n) = builtin_value C n"
| "c_eval C (Lit v) = in_type (Signed 32) v"
| "c_eval C (Neg e) = Option.bind (c_eval C e) (\<lambda>(t, v). in_type (promote t) (- v))"
| "c_eval C (Minus e f) =
     Option.bind (c_eval C e) (\<lambda>(t, v). Option.bind (c_eval C f) (\<lambda>(u, w).
     in_type (common (promote t) (promote u)) (v - w)))"

section \<open>Declarations\<close>

text \<open>
  \<^verbatim>\<open>typedef old new;\<close>, \<^verbatim>\<open>#define name expression\<close> and \<^verbatim>\<open>#define name(x) other(x)\<close>.
\<close>

datatype decl =
    Typedef string string
  | Define string c_expr
  | Define_fun string string

text \<open>A declared name stands for the compiler's type its definition, made before, stands for.\<close>

fun type_names :: "(string \<times> string) list \<Rightarrow> decl list \<Rightarrow> (string \<times> string) list" where
  "type_names env [] = env"
| "type_names env (Typedef old new # ds) =
     type_names ((new, case map_of env old of Some t \<Rightarrow> t | None \<Rightarrow> old) # env) ds"
| "type_names env (_ # ds) = type_names env ds"

definition type_of :: "compiler \<Rightarrow> decl list \<Rightarrow> string \<Rightarrow> int_type option" where
  "type_of C ds n =
     builtin_type C (case map_of (type_names [] ds) n of Some t \<Rightarrow> t | None \<Rightarrow> n)"

fun macros :: "decl list \<Rightarrow> (string \<times> c_expr) list" where
  "macros [] = []"
| "macros (Define n e # ds) = (n, e) # macros ds"
| "macros (_ # ds) = macros ds"

text \<open>Expansion, which leaves a macro's name alone inside its own expansion.\<close>

function expand :: "(string \<times> c_expr) list \<Rightarrow> string list \<Rightarrow> c_expr \<Rightarrow> c_expr" where
  "expand ms hide (Id n) =
     (if n \<in> set hide then Id n
      else case map_of ms n of Some e \<Rightarrow> expand ms (n # hide) e | None \<Rightarrow> Id n)"
| "expand ms hide (Lit v) = Lit v"
| "expand ms hide (Neg e) = Neg (expand ms hide e)"
| "expand ms hide (Minus e f) = Minus (expand ms hide e) (expand ms hide f)"
  by pat_completeness auto

termination
proof (relation "measures [\<lambda>(ms, hide, e). card (fst ` set ms - set hide), \<lambda>(ms, hide, e). size e]",
    goal_cases)
  case (2 ms hide n e)
  then have "n \<in> fst ` set ms" by (metis domI dom_map_of_conv_image_fst)
  with 2 have "fst ` set ms - set (n # hide) \<subset> fst ` set ms - set hide" by auto
  then have "card (fst ` set ms - set (n # hide)) < card (fst ` set ms - set hide)"
    by (intro psubset_card_mono) auto
  then show ?case by simp
qed auto

definition value_of :: "compiler \<Rightarrow> decl list \<Rightarrow> string \<Rightarrow> (int_type \<times> int) option" where
  "value_of C ds n = c_eval C (expand (macros ds) [] (Id n))"

fun fun_macro :: "decl list \<Rightarrow> string \<Rightarrow> string" where
  "fun_macro [] n = n"
| "fun_macro (Define_fun m k # ds) n = (if m = n then k else fun_macro ds n)"
| "fun_macro (_ # ds) n = fun_macro ds n"

definition const_of :: "compiler \<Rightarrow> decl list \<Rightarrow> string \<Rightarrow> int \<Rightarrow> (int_type \<times> int) option" where
  "const_of C ds n v = builtin_const C (fun_macro ds n) v"

section \<open>\<^verbatim>\<open>bits/types.h\<close>\<close>

definition exact_types :: "decl list" where
  "exact_types =
    [Typedef ''__UINT8_TYPE__'' ''__uint8'', Typedef ''__UINT16_TYPE__'' ''__uint16'',
     Typedef ''__UINT32_TYPE__'' ''__uint32'', Typedef ''__UINT64_TYPE__'' ''__uint64'',
     Typedef ''__INT8_TYPE__'' ''__int8'', Typedef ''__INT16_TYPE__'' ''__int16'',
     Typedef ''__INT32_TYPE__'' ''__int32'', Typedef ''__INT64_TYPE__'' ''__int64'']"

definition exact_limits :: "decl list" where
  "exact_limits =
    [Define ''__INT8_MAX'' (Id ''__INT8_MAX__''), Define ''__INT16_MAX'' (Id ''__INT16_MAX__''),
     Define ''__INT32_MAX'' (Id ''__INT32_MAX__''), Define ''__INT64_MAX'' (Id ''__INT64_MAX__''),
     Define ''__INT8_MIN'' (Minus (Neg (Id ''__INT8_MAX'')) (Lit 1)),
     Define ''__INT16_MIN'' (Minus (Neg (Id ''__INT16_MAX'')) (Lit 1)),
     Define ''__INT32_MIN'' (Minus (Neg (Id ''__INT32_MAX'')) (Lit 1)),
     Define ''__INT64_MIN'' (Minus (Neg (Id ''__INT64_MAX'')) (Lit 1)),
     Define ''__UINT8_MAX'' (Id ''__UINT8_MAX__''), Define ''__UINT16_MAX'' (Id ''__UINT16_MAX__''),
     Define ''__UINT32_MAX'' (Id ''__UINT32_MAX__''), Define ''__UINT64_MAX'' (Id ''__UINT64_MAX__'')]"

text \<open>The fast types of each architecture, signed and unsigned.\<close>

definition fast_i386 :: "decl list" where
  "fast_i386 =
    [Typedef ''__int8'' ''__int_fast8'', Define ''__INT_FAST8_MAX'' (Id ''__INT8_MAX''),
     Define ''__INT_FAST8_MIN'' (Id ''__INT8_MIN''), Typedef ''__int32'' ''__int_fast16'',
     Define ''__INT_FAST16_MAX'' (Id ''__INT32_MAX''), Define ''__INT_FAST16_MIN'' (Id ''__INT32_MIN''),
     Typedef ''__int32'' ''__int_fast32'', Define ''__INT_FAST32_MAX'' (Id ''__INT32_MAX''),
     Define ''__INT_FAST32_MIN'' (Id ''__INT32_MIN''), Typedef ''__int64'' ''__int_fast64'',
     Define ''__INT_FAST64_MAX'' (Id ''__INT64_MAX''), Define ''__INT_FAST64_MIN'' (Id ''__INT64_MIN'')]"

definition fast_x86_64 :: "decl list" where
  "fast_x86_64 =
    [Typedef ''__int8'' ''__int_fast8'', Define ''__INT_FAST8_MAX'' (Id ''__INT8_MAX''),
     Define ''__INT_FAST8_MIN'' (Id ''__INT8_MIN''), Typedef ''__int64'' ''__int_fast16'',
     Define ''__INT_FAST16_MAX'' (Id ''__INT64_MAX''), Define ''__INT_FAST16_MIN'' (Id ''__INT64_MIN''),
     Typedef ''__int64'' ''__int_fast32'', Define ''__INT_FAST32_MAX'' (Id ''__INT64_MAX''),
     Define ''__INT_FAST32_MIN'' (Id ''__INT64_MIN''), Typedef ''__int64'' ''__int_fast64'',
     Define ''__INT_FAST64_MAX'' (Id ''__INT64_MAX''), Define ''__INT_FAST64_MIN'' (Id ''__INT64_MIN'')]"

definition fast_aarch64 :: "decl list" where
  "fast_aarch64 =
    [Typedef ''__int8'' ''__int_fast8'', Define ''__INT_FAST8_MAX'' (Id ''__INT8_MAX''),
     Define ''__INT_FAST8_MIN'' (Id ''__INT8_MIN''), Typedef ''__int64'' ''__int_fast16'',
     Define ''__INT_FAST16_MAX'' (Id ''__INT64_MAX''), Define ''__INT_FAST16_MIN'' (Id ''__INT64_MIN''),
     Typedef ''__int64'' ''__int_fast32'', Define ''__INT_FAST32_MAX'' (Id ''__INT64_MAX''),
     Define ''__INT_FAST32_MIN'' (Id ''__INT64_MIN''), Typedef ''__int64'' ''__int_fast64'',
     Define ''__INT_FAST64_MAX'' (Id ''__INT64_MAX''), Define ''__INT_FAST64_MIN'' (Id ''__INT64_MIN'')]"

definition ufast_i386 :: "decl list" where
  "ufast_i386 =
    [Typedef ''__uint8'' ''__uint_fast8'', Define ''__UINT_FAST8_MAX'' (Id ''__UINT8_MAX''),
     Define ''__UINT_FAST8_MIN'' (Id ''__UINT8_MIN''), Typedef ''__uint32'' ''__uint_fast16'',
     Define ''__UINT_FAST16_MAX'' (Id ''__UINT32_MAX''),
     Define ''__UINT_FAST16_MIN'' (Id ''__UINT32_MIN''), Typedef ''__uint32'' ''__uint_fast32'',
     Define ''__UINT_FAST32_MAX'' (Id ''__UINT32_MAX''),
     Define ''__UINT_FAST32_MIN'' (Id ''__UINT32_MIN''), Typedef ''__uint64'' ''__uint_fast64'',
     Define ''__UINT_FAST64_MAX'' (Id ''__UINT64_MAX''),
     Define ''__UINT_FAST64_MIN'' (Id ''__UINT64_MIN'')]"

definition ufast_x86_64 :: "decl list" where
  "ufast_x86_64 =
    [Typedef ''__uint8'' ''__uint_fast8'', Define ''__UINT_FAST8_MAX'' (Id ''__UINT8_MAX''),
     Define ''__UINT_FAST8_MIN'' (Id ''__UINT8_MIN''), Typedef ''__uint64'' ''__uint_fast16'',
     Define ''__UINT_FAST16_MAX'' (Id ''__UINT64_MAX''),
     Define ''__UINT_FAST16_MIN'' (Id ''__UINT64_MIN''), Typedef ''__uint64'' ''__uint_fast32'',
     Define ''__UINT_FAST32_MAX'' (Id ''__UINT64_MAX''),
     Define ''__UINT_FAST32_MIN'' (Id ''__UINT64_MIN''), Typedef ''__uint64'' ''__uint_fast64'',
     Define ''__UINT_FAST64_MAX'' (Id ''__UINT64_MAX''),
     Define ''__UINT_FAST64_MIN'' (Id ''__UINT64_MIN'')]"

definition ufast_aarch64 :: "decl list" where
  "ufast_aarch64 =
    [Typedef ''__uint8'' ''__uint_fast8'', Define ''__UINT_FAST8_MAX'' (Id ''__UINT8_MAX''),
     Define ''__UINT_FAST8_MIN'' (Id ''__UINT8_MIN''), Typedef ''__uint64'' ''__uint_fast16'',
     Define ''__UINT_FAST16_MAX'' (Id ''__UINT64_MAX''),
     Define ''__UINT_FAST16_MIN'' (Id ''__UINT64_MIN''), Typedef ''__uint64'' ''__uint_fast32'',
     Define ''__UINT_FAST32_MAX'' (Id ''__UINT64_MAX''),
     Define ''__UINT_FAST32_MIN'' (Id ''__UINT64_MIN''), Typedef ''__uint64'' ''__uint_fast64'',
     Define ''__UINT_FAST64_MAX'' (Id ''__UINT64_MAX''),
     Define ''__UINT_FAST64_MIN'' (Id ''__UINT64_MIN'')]"

text \<open>The chains of \<^verbatim>\<open>#if defined\<close>; an architecture that none of them names is an \<^verbatim>\<open>#error\<close>.\<close>

definition fast_types :: "compiler \<Rightarrow> decl list option" where
  "fast_types C =
     (if predefined C ''__i386__'' then Some fast_i386
      else if predefined C ''__x86_64__'' then Some fast_x86_64
      else if predefined C ''__aarch64__'' then Some fast_aarch64
      else None)"

definition ufast_types :: "compiler \<Rightarrow> decl list option" where
  "ufast_types C =
     (if predefined C ''__i386__'' then Some ufast_i386
      else if predefined C ''__x86_64__'' then Some ufast_x86_64
      else if predefined C ''__aarch64__'' then Some ufast_aarch64
      else None)"

definition special_types :: "decl list" where
  "special_types =
    [Typedef ''__INTMAX_TYPE__'' ''__intmax'', Typedef ''__INTPTR_TYPE__'' ''__intptr'',
     Typedef ''__PTRDIFF_TYPE__'' ''__ptrdiff'', Define ''__INTMAX_MAX'' (Id ''__INTMAX_MAX__''),
     Define ''__INTMAX_MIN'' (Minus (Neg (Id ''__INTMAX_MAX__'')) (Lit 1)),
     Define ''__INTPTR_MAX'' (Id ''__INTPTR_MAX__''),
     Define ''__INTPTR_MIN'' (Minus (Neg (Id ''__INTPTR_MAX__'')) (Lit 1)),
     Define ''__PTRDIFF_MAX'' (Id ''__PTRDIFF_MAX__''),
     Define ''__PTRDIFF_MIN'' (Minus (Neg (Id ''__PTRDIFF_MAX__'')) (Lit 1)),
     Typedef ''__UINTMAX_TYPE__'' ''__uintmax'', Typedef ''__UINTPTR_TYPE__'' ''__uintptr'',
     Typedef ''__SIZE_TYPE__'' ''__size'', Define ''__UINTMAX_MAX'' (Id ''__UINTMAX_MAX__''),
     Define ''__UINTPTR_MAX'' (Id ''__UINTPTR_MAX__''), Define ''__SIZE_MAX'' (Id ''__SIZE_MAX__'')]"

definition other_limits :: "decl list" where
  "other_limits =
    [Define ''__WCHAR_MAX'' (Id ''__WCHAR_MAX__''), Define ''__WCHAR_MIN'' (Id ''__WCHAR_MIN__''),
     Define ''__WINT_MAX'' (Id ''__WINT_MAX__''), Define ''__WINT_MIN'' (Id ''__WINT_MIN__''),
     Define ''__SIG_ATOMIC_MAX'' (Id ''__SIG_ATOMIC_MAX__''),
     Define ''__SIG_ATOMIC_MIN'' (Id ''__SIG_ATOMIC_MIN__'')]"

definition types_h :: "compiler \<Rightarrow> decl list option" where
  "types_h C =
     Option.bind (fast_types C) (\<lambda>s. Option.bind (ufast_types C) (\<lambda>u.
     Some (exact_types @ exact_limits @ s @ u @ special_types @ other_limits)))"

section \<open>\<^verbatim>\<open>bits/wchar.h\<close> and \<^verbatim>\<open>stdint.h\<close>\<close>

definition wchar_h :: "decl list" where
  "wchar_h =
    [Define ''WCHAR_MAX'' (Id ''_WCHAR_MAX''), Define ''WCHAR_MIN'' (Id ''_WCHAR_MIN'')]"

definition stdint_types :: "decl list" where
  "stdint_types =
    [Typedef ''__int8'' ''int8_t'', Typedef ''__int16'' ''int16_t'', Typedef ''__int32'' ''int32_t'',
     Typedef ''__int64'' ''int64_t'', Typedef ''__uint8'' ''uint8_t'',
     Typedef ''__uint16'' ''uint16_t'', Typedef ''__uint32'' ''uint32_t'',
     Typedef ''__uint64'' ''uint64_t'', Typedef ''__int8'' ''int_least8_t'',
     Typedef ''__int16'' ''int_least16_t'', Typedef ''__int32'' ''int_least32_t'',
     Typedef ''__int64'' ''int_least64_t'', Typedef ''__uint8'' ''uint_least8_t'',
     Typedef ''__uint16'' ''uint_least16_t'', Typedef ''__uint32'' ''uint_least32_t'',
     Typedef ''__uint64'' ''uint_least64_t'', Typedef ''__int_fast8'' ''int_fast8_t'',
     Typedef ''__int_fast16'' ''int_fast16_t'', Typedef ''__int_fast32'' ''int_fast32_t'',
     Typedef ''__int_fast64'' ''int_fast64_t'', Typedef ''__uint_fast8'' ''uint_fast8_t'',
     Typedef ''__uint_fast16'' ''uint_fast16_t'', Typedef ''__uint_fast32'' ''uint_fast32_t'',
     Typedef ''__uint_fast64'' ''uint_fast64_t'', Typedef ''__intmax'' ''intmax_t'',
     Typedef ''__intptr'' ''intptr_t'', Typedef ''__uintmax'' ''uintmax_t'',
     Typedef ''__uintptr'' ''uintptr_t'']"

definition stdint_constants :: "decl list" where
  "stdint_constants =
    [Define_fun ''INT8_C'' ''__INT8_C'', Define_fun ''INT16_C'' ''__INT16_C'',
     Define_fun ''INT32_C'' ''__INT32_C'', Define_fun ''INT64_C'' ''__INT64_C'',
     Define_fun ''INTMAX_C'' ''__INTMAX_C'', Define_fun ''UINT8_C'' ''__UINT8_C'',
     Define_fun ''UINT16_C'' ''__UINT16_C'', Define_fun ''UINT32_C'' ''__UINT32_C'',
     Define_fun ''UINT64_C'' ''__UINT64_C'', Define_fun ''UINTMAX_C'' ''__UINTMAX_C'']"

definition stdint_limits :: "decl list" where
  "stdint_limits =
    [Define ''INT8_MAX'' (Id ''__INT8_MAX''), Define ''INT16_MAX'' (Id ''__INT16_MAX''),
     Define ''INT32_MAX'' (Id ''__INT32_MAX''), Define ''INT64_MAX'' (Id ''__INT64_MAX''),
     Define ''INT8_MIN'' (Id ''__INT8_MIN''), Define ''INT16_MIN'' (Id ''__INT16_MIN''),
     Define ''INT32_MIN'' (Id ''__INT32_MIN''), Define ''INT64_MIN'' (Id ''__INT64_MIN''),
     Define ''UINT8_MAX'' (Id ''__UINT8_MAX''), Define ''UINT16_MAX'' (Id ''__UINT16_MAX''),
     Define ''UINT32_MAX'' (Id ''__UINT32_MAX''), Define ''UINT64_MAX'' (Id ''__UINT64_MAX''),
     Define ''INT_LEAST8_MAX'' (Id ''__INT8_MAX''), Define ''INT_LEAST16_MAX'' (Id ''__INT16_MAX''),
     Define ''INT_LEAST32_MAX'' (Id ''__INT32_MAX''), Define ''INT_LEAST64_MAX'' (Id ''__INT64_MAX''),
     Define ''INT_LEAST8_MIN'' (Id ''__INT8_MIN''), Define ''INT_LEAST16_MIN'' (Id ''__INT16_MIN''),
     Define ''INT_LEAST32_MIN'' (Id ''__INT32_MIN''), Define ''INT_LEAST64_MIN'' (Id ''__INT64_MIN''),
     Define ''UINT_LEAST8_MAX'' (Id ''__UINT8_MAX''), Define ''UINT_LEAST16_MAX'' (Id ''__UINT16_MAX''),
     Define ''UINT_LEAST32_MAX'' (Id ''__UINT32_MAX''),
     Define ''UINT_LEAST64_MAX'' (Id ''__UINT64_MAX''),
     Define ''INT_FAST8_MAX'' (Id ''__INT_FAST8_MAX''),
     Define ''INT_FAST16_MAX'' (Id ''__INT_FAST16_MAX''),
     Define ''INT_FAST32_MAX'' (Id ''__INT_FAST32_MAX''),
     Define ''INT_FAST64_MAX'' (Id ''__INT_FAST64_MAX''),
     Define ''INT_FAST8_MIN'' (Id ''__INT_FAST8_MIN''),
     Define ''INT_FAST16_MIN'' (Id ''__INT_FAST16_MIN''),
     Define ''INT_FAST32_MIN'' (Id ''__INT_FAST32_MIN''),
     Define ''INT_FAST64_MIN'' (Id ''__INT_FAST64_MIN''),
     Define ''UINT_FAST8_MAX'' (Id ''__UINT_FAST8_MAX''),
     Define ''UINT_FAST16_MAX'' (Id ''__UINT_FAST16_MAX''),
     Define ''UINT_FAST32_MAX'' (Id ''__UINT_FAST32_MAX''),
     Define ''UINT_FAST64_MAX'' (Id ''__UINT_FAST64_MAX''), Define ''INTMAX_MAX'' (Id ''__INTMAX_MAX''),
     Define ''INTPTR_MAX'' (Id ''__INTPTR_MAX''), Define ''INTMAX_MIN'' (Id ''__INTMAX_MIN''),
     Define ''INTPTR_MIN'' (Id ''__INTPTR_MIN''), Define ''UINTMAX_MAX'' (Id ''__UINTMAX_MAX''),
     Define ''UINTPTR_MAX'' (Id ''__UINTPTR_MAX''), Define ''PTRDIFF_MAX'' (Id ''__PTRDIFF_MAX''),
     Define ''PTRDIFF_MIN'' (Id ''__PTRDIFF_MIN''), Define ''SIG_ATOMIC_MAX'' (Id ''__SIG_ATOMIC_MAX''),
     Define ''SIG_ATOMIC_MIN'' (Id ''__SIG_ATOMIC_MIN''), Define ''WINT_MAX'' (Id ''__WINT_MAX''),
     Define ''WINT_MIN'' (Id ''__WINT_MIN''), Define ''SIZE_MAX'' (Id ''__SIZE_MAX'')]"

definition stdint_h :: "compiler \<Rightarrow> decl list option" where
  "stdint_h C =
     Option.bind (types_h C) (\<lambda>ds. Some (ds @ wchar_h @ stdint_types @ stdint_constants @ stdint_limits))"

section \<open>A conforming compiler\<close>

text \<open>
  What GCC documents of its predefined macros, for pointers of \<open>w\<close> bits: each type has the stated
  width and signedness, \<^verbatim>\<open>__X_MAX__\<close> is the greatest value of \<^verbatim>\<open>__X_TYPE__\<close>, written in the promoted
  type; for the types with a width in their name and the greatest ones \<^verbatim>\<open>__X_C\<close> makes a constant of the promoted
  type; and one of the three architectures is named.
\<close>

definition fixed_signed :: "(string \<times> nat) list" where
  "fixed_signed = [(''INT8'', 8), (''INT16'', 16), (''INT32'', 32), (''INT64'', 64), (''INTMAX'', 64)]"

definition fixed_unsigned :: "(string \<times> nat) list" where
  "fixed_unsigned = [(''UINT8'', 8), (''UINT16'', 16), (''UINT32'', 32), (''UINT64'', 64), (''UINTMAX'', 64)]"

definition signed_builtins :: "nat \<Rightarrow> (string \<times> nat) list" where
  "signed_builtins w = fixed_signed @ map (\<lambda>x. (x, w)) [''INTPTR'', ''PTRDIFF'']"

definition unsigned_builtins :: "nat \<Rightarrow> (string \<times> nat) list" where
  "unsigned_builtins w = fixed_unsigned @ map (\<lambda>x. (x, w)) [''UINTPTR'', ''SIZE'']"

definition builtin_names :: "nat \<Rightarrow> (string \<times> int_type) list" where
  "builtin_names w = map (map_prod id Signed) (signed_builtins w) @ map (map_prod id Unsigned) (unsigned_builtins w)"

definition const_names :: "(string \<times> int_type) list" where
  "const_names = map (map_prod id Signed) fixed_signed @ map (map_prod id Unsigned) fixed_unsigned"

definition type_macro :: "string \<Rightarrow> string" where "type_macro x = ''__'' @ x @ ''_TYPE__''"
definition max_macro :: "string \<Rightarrow> string" where "max_macro x = ''__'' @ x @ ''_MAX__''"
definition const_macro :: "string \<Rightarrow> string" where "const_macro x = ''__'' @ x @ ''_C''"

definition conforming :: "compiler \<Rightarrow> nat \<Rightarrow> bool" where
  "conforming C w \<longleftrightarrow>
     (\<forall>(x, t) \<in> set (builtin_names w).
        builtin_type C (type_macro x) = Some t \<and>
        builtin_value C (max_macro x) = Some (promote t, type_max t)) \<and>
     (\<forall>(x, t) \<in> set const_names. builtin_const C (const_macro x) = in_type (promote t)) \<and>
     list_ex (predefined C) [''__i386__'', ''__x86_64__'', ''__aarch64__''] \<and> 32 \<le> w"

definition gcc_i386 :: compiler where
  "gcc_i386 =
     \<lparr>predefined = (\<lambda>n. n = ''__i386__''),
      builtin_type = map_of (map (\<lambda>(x, t). (type_macro x, t)) (builtin_names 32)),
      builtin_value = map_of (map (\<lambda>(x, t). (max_macro x, promote t, type_max t)) (builtin_names 32)),
      builtin_const = (\<lambda>n v. Option.bind (map_of (map (\<lambda>(x, t). (const_macro x, t)) const_names) n)
        (\<lambda>t. in_type (promote t) v))\<rparr>"

lemma gcc_i386_conforming: "conforming gcc_i386 32"
  by (simp add: conforming_def gcc_i386_def builtin_names_def signed_builtins_def unsigned_builtins_def
      const_names_def fixed_signed_def fixed_unsigned_def type_macro_def max_macro_def const_macro_def fun_eq_iff)

section \<open>The promises of \<^verbatim>\<open>stdint.h\<close>\<close>

text \<open>
  Each type with its width and the names of its limits: \<open>fw\<close> is the width the architecture gives the fast types
  of 16 and 32 bits, \<open>w\<close> that of a pointer.
\<close>

definition signed_limits :: "nat \<Rightarrow> nat \<Rightarrow> (string \<times> nat \<times> string \<times> string) list" where
  "signed_limits fw w =
    [(''int8_t'', 8, ''INT8_MIN'', ''INT8_MAX''), (''int16_t'', 16, ''INT16_MIN'', ''INT16_MAX''),
     (''int32_t'', 32, ''INT32_MIN'', ''INT32_MAX''), (''int64_t'', 64, ''INT64_MIN'', ''INT64_MAX''),
     (''int_least8_t'', 8, ''INT_LEAST8_MIN'', ''INT_LEAST8_MAX''),
     (''int_least16_t'', 16, ''INT_LEAST16_MIN'', ''INT_LEAST16_MAX''),
     (''int_least32_t'', 32, ''INT_LEAST32_MIN'', ''INT_LEAST32_MAX''),
     (''int_least64_t'', 64, ''INT_LEAST64_MIN'', ''INT_LEAST64_MAX''),
     (''int_fast8_t'', 8, ''INT_FAST8_MIN'', ''INT_FAST8_MAX''),
     (''int_fast16_t'', fw, ''INT_FAST16_MIN'', ''INT_FAST16_MAX''),
     (''int_fast32_t'', fw, ''INT_FAST32_MIN'', ''INT_FAST32_MAX''),
     (''int_fast64_t'', 64, ''INT_FAST64_MIN'', ''INT_FAST64_MAX''),
     (''intmax_t'', 64, ''INTMAX_MIN'', ''INTMAX_MAX''),
     (''intptr_t'', w, ''INTPTR_MIN'', ''INTPTR_MAX''),
     (''__ptrdiff'', w, ''PTRDIFF_MIN'', ''PTRDIFF_MAX'')]"

definition unsigned_limits :: "nat \<Rightarrow> nat \<Rightarrow> (string \<times> nat \<times> string) list" where
  "unsigned_limits fw w =
    [(''uint8_t'', 8, ''UINT8_MAX''), (''uint16_t'', 16, ''UINT16_MAX''),
     (''uint32_t'', 32, ''UINT32_MAX''), (''uint64_t'', 64, ''UINT64_MAX''),
     (''uint_least8_t'', 8, ''UINT_LEAST8_MAX''), (''uint_least16_t'', 16, ''UINT_LEAST16_MAX''),
     (''uint_least32_t'', 32, ''UINT_LEAST32_MAX''), (''uint_least64_t'', 64, ''UINT_LEAST64_MAX''),
     (''uint_fast8_t'', 8, ''UINT_FAST8_MAX''), (''uint_fast16_t'', fw, ''UINT_FAST16_MAX''),
     (''uint_fast32_t'', fw, ''UINT_FAST32_MAX''), (''uint_fast64_t'', 64, ''UINT_FAST64_MAX''),
     (''uintmax_t'', 64, ''UINTMAX_MAX''), (''uintptr_t'', w, ''UINTPTR_MAX''),
     (''__size'', w, ''SIZE_MAX'')]"

definition const_limits :: "(string \<times> int_type) list" where
  "const_limits = map (\<lambda>(x, t). (x @ ''_C'', t)) const_names"

text \<open>The header with the fast types of an architecture, as a closed list of declarations.\<close>

definition stdint_for :: "decl list \<Rightarrow> decl list \<Rightarrow> decl list" where
  "stdint_for s u =
     (exact_types @ exact_limits @ s @ u @ special_types @ other_limits) @
     wchar_h @ stdint_types @ stdint_constants @ stdint_limits"

text \<open>
  Every type and limit comes down to those the compiler names after one \<open>x\<close>: a computation on the declarations alone.
\<close>

definition types_resolve :: "(string \<times> string) list \<Rightarrow> (string \<times> string) list \<Rightarrow> bool" where
  "types_resolve env = list_all (\<lambda>(T, x). map_of env T = Some (type_macro x))"

definition signed_resolves :: "(string \<times> c_expr) list \<Rightarrow> string \<times> string \<times> string \<times> string \<Rightarrow> bool" where
  "signed_resolves ms = (\<lambda>(T, x, lo, hi).
     expand ms [] (Id lo) = Minus (Neg (Id (max_macro x))) (Lit 1) \<and> expand ms [] (Id hi) = Id (max_macro x))"

definition unsigned_resolves :: "(string \<times> c_expr) list \<Rightarrow> string \<times> string \<times> string \<Rightarrow> bool" where
  "unsigned_resolves ms = (\<lambda>(T, x, hi). expand ms [] (Id hi) = Id (max_macro x))"

definition signed_names :: "string \<Rightarrow> string list" where
  "signed_names fx = [''INT8'', ''INT16'', ''INT32'', ''INT64'', ''INT8'', ''INT16'', ''INT32'', ''INT64'',
     ''INT8'', fx, fx, ''INT64'', ''INTMAX'', ''INTPTR'', ''PTRDIFF'']"

definition unsigned_names :: "string \<Rightarrow> string list" where
  "unsigned_names fx = [''UINT8'', ''UINT16'', ''UINT32'', ''UINT64'', ''UINT8'', ''UINT16'', ''UINT32'', ''UINT64'',
     ''UINT8'', fx, fx, ''UINT64'', ''UINTMAX'', ''UINTPTR'', ''SIZE'']"

definition signed_rows :: "string \<Rightarrow> (string \<times> string \<times> string \<times> string) list" where
  "signed_rows fx = map2 (\<lambda>(T, _, lo, hi) x. (T, x, lo, hi)) (signed_limits 0 0) (signed_names fx)"

definition unsigned_rows :: "string \<Rightarrow> (string \<times> string \<times> string) list" where
  "unsigned_rows fx = map2 (\<lambda>(T, _, hi) x. (T, x, hi)) (unsigned_limits 0 0) (unsigned_names fx)"

definition type_rows :: "string \<Rightarrow> string \<Rightarrow> (string \<times> string) list" where
  "type_rows fx gx = map (\<lambda>(T, x, _). (T, x)) (signed_rows fx) @ map (\<lambda>(T, x, _). (T, x)) (unsigned_rows gx)"

text \<open>The width of a row is that of the compiler's type.\<close>

lemma list_all2_partner:
  assumes "list_all2 P xs ys" and "x \<in> set xs"
  shows "\<exists>y \<in> set ys. P x y"
  using assms by (metis in_set_conv_nth list_all2_conv_all_nth)

lemma signed_rows_widths:
  assumes "(fx, fw) = (''INT32'', 32) \<or> (fx, fw) = (''INT64'', 64)"
  shows "list_all2 (\<lambda>(T, k, lo, hi) (T', x, lo', hi'). (T', lo', hi') = (T, lo, hi) \<and> (x, k) \<in> set (signed_builtins w))
    (signed_limits fw w) (signed_rows fx)"
  using assms
  unfolding signed_limits_def signed_rows_def signed_names_def signed_builtins_def fixed_signed_def
  by (elim disjE) simp_all

lemma signed_widths:
  assumes "(fx, fw) = (''INT32'', 32) \<or> (fx, fw) = (''INT64'', 64)" and "(T, k, lo, hi) \<in> set (signed_limits fw w)"
  shows "\<exists>x. (T, x, lo, hi) \<in> set (signed_rows fx) \<and> (x, k) \<in> set (signed_builtins w)"
  using list_all2_partner [OF signed_rows_widths [OF assms(1)] assms(2)] by auto

lemma unsigned_rows_widths:
  assumes "(fx, fw) = (''UINT32'', 32) \<or> (fx, fw) = (''UINT64'', 64)"
  shows "list_all2 (\<lambda>(T, k, hi) (T', x, hi'). (T', hi') = (T, hi) \<and> (x, k) \<in> set (unsigned_builtins w))
    (unsigned_limits fw w) (unsigned_rows fx)"
  using assms
  unfolding unsigned_limits_def unsigned_rows_def unsigned_names_def unsigned_builtins_def fixed_unsigned_def
  by (elim disjE) simp_all

lemma unsigned_widths:
  assumes "(fx, fw) = (''UINT32'', 32) \<or> (fx, fw) = (''UINT64'', 64)" and "(T, k, hi) \<in> set (unsigned_limits fw w)"
  shows "\<exists>x. (T, x, hi) \<in> set (unsigned_rows fx) \<and> (x, k) \<in> set (unsigned_builtins w)"
  using list_all2_partner [OF unsigned_rows_widths [OF assms(1)] assms(2)] by auto

abbreviation stdint_i386 :: "decl list" where "stdint_i386 \<equiv> stdint_for fast_i386 ufast_i386"
abbreviation stdint_64 :: "decl list" where "stdint_64 \<equiv> stdint_for fast_x86_64 ufast_x86_64"

text \<open>What a resolved row says under a conforming compiler.\<close>

lemma promote_simps:
  "promote (Signed k) = Signed (max 32 k)" "promote (promote t) = promote t"
  by (auto simp: promote_def)

lemma signed_lower_limit:
  assumes "0 < k" and "c_eval C (Id m) = Some (promote (Signed k), type_max (Signed k))"
  shows "c_eval C (Minus (Neg (Id m)) (Lit 1)) = Some (promote (Signed k), type_min (Signed k))"
proof -
  have le: "(2 :: int) ^ (k - 1) \<le> 2 ^ (max 32 k - 1)" by (rule power_increasing) auto
  have one: "(1 :: int) \<le> 2 ^ (k - 1)" by simp
  obtain a b where ab: "(2 :: int) ^ (k - Suc 0) = a" "(2 :: int) ^ (max 32 k - Suc 0) = b" by blast
  from le one have "a \<le> b" "1 \<le> a" unfolding One_nat_def ab by blast+
  with assms show ?thesis by (simp add: promote_simps ab)
qed

lemma conforming_signed:
  assumes "conforming C w" and "(x, k) \<in> set (signed_builtins w)"
  shows "builtin_type C (type_macro x) = Some (Signed k)"
    "c_eval C (Id (max_macro x)) = Some (promote (Signed k), type_max (Signed k))" "0 < k"
proof -
  have "(x, Signed k) \<in> set (builtin_names w)"
    unfolding builtin_names_def using assms(2) by (force simp: image_iff)
  with assms(1) show "builtin_type C (type_macro x) = Some (Signed k)"
    "c_eval C (Id (max_macro x)) = Some (promote (Signed k), type_max (Signed k))"
    by (auto simp: conforming_def)
  show "0 < k" using assms by (auto simp: conforming_def signed_builtins_def fixed_signed_def)
qed

lemma conforming_unsigned:
  assumes "conforming C w" and "(x, k) \<in> set (unsigned_builtins w)"
  shows "builtin_type C (type_macro x) = Some (Unsigned k)"
    "c_eval C (Id (max_macro x)) = Some (promote (Unsigned k), type_max (Unsigned k))"
proof -
  have "(x, Unsigned k) \<in> set (builtin_names w)"
    unfolding builtin_names_def using assms(2) by (force simp: image_iff)
  with assms(1) show "builtin_type C (type_macro x) = Some (Unsigned k)"
    "c_eval C (Id (max_macro x)) = Some (promote (Unsigned k), type_max (Unsigned k))"
    by (auto simp: conforming_def)
qed

lemma signed_row:
  assumes C: "conforming C w" and t: "map_of (type_names [] ds) T = Some (type_macro x)" and r: "signed_resolves (macros ds) (T, x, lo, hi)"
    and k: "(x, k) \<in> set (signed_builtins w)"
  shows "type_of C ds T = Some (Signed k) \<and>
    value_of C ds lo = Some (promote (Signed k), type_min (Signed k)) \<and>
    value_of C ds hi = Some (promote (Signed k), type_max (Signed k))"
proof -
  note v = conforming_signed [OF C k]
  show ?thesis using t r v signed_lower_limit [OF v(3,2)] unfolding type_of_def value_of_def signed_resolves_def by simp
qed

lemma unsigned_row:
  assumes C: "conforming C w" and t: "map_of (type_names [] ds) T = Some (type_macro x)" and r: "unsigned_resolves (macros ds) (T, x, hi)"
    and k: "(x, k) \<in> set (unsigned_builtins w)"
  shows "type_of C ds T = Some (Unsigned k) \<and> value_of C ds hi = Some (promote (Unsigned k), type_max (Unsigned k))"
  using t r conforming_unsigned [OF C k] unfolding type_of_def value_of_def unsigned_resolves_def by simp

text \<open>The computation, a few rows at a time.\<close>

lemma types_i386: "types_resolve (type_names [] stdint_i386) (type_rows ''INT32'' ''UINT32'')"
  by code_simp

lemma signed_exact_i386:
  "list_all (signed_resolves (macros stdint_i386)) (take 4 (signed_rows ''INT32''))"
  by code_simp

lemma signed_least_i386:
  "list_all (signed_resolves (macros stdint_i386)) ((take 4 \<circ> drop 4) (signed_rows ''INT32''))"
  by code_simp

lemma signed_fast_i386:
  "list_all (signed_resolves (macros stdint_i386)) ((take 4 \<circ> drop 8) (signed_rows ''INT32''))"
  by code_simp

lemma signed_special_i386:
  "list_all (signed_resolves (macros stdint_i386)) (drop 12 (signed_rows ''INT32''))"
  by code_simp

lemma unsigned_exact_i386:
  "list_all (unsigned_resolves (macros stdint_i386)) (take 8 (unsigned_rows ''UINT32''))"
  by code_simp

lemma unsigned_fast_i386:
  "list_all (unsigned_resolves (macros stdint_i386)) (drop 8 (unsigned_rows ''UINT32''))"
  by code_simp

lemma types_64: "types_resolve (type_names [] stdint_64) (type_rows ''INT64'' ''UINT64'')"
  by code_simp

lemma signed_exact_64:
  "list_all (signed_resolves (macros stdint_64)) (take 4 (signed_rows ''INT64''))"
  by code_simp

lemma signed_least_64:
  "list_all (signed_resolves (macros stdint_64)) ((take 4 \<circ> drop 4) (signed_rows ''INT64''))"
  by code_simp

lemma signed_fast_64:
  "list_all (signed_resolves (macros stdint_64)) ((take 4 \<circ> drop 8) (signed_rows ''INT64''))"
  by code_simp

lemma signed_special_64:
  "list_all (signed_resolves (macros stdint_64)) (drop 12 (signed_rows ''INT64''))"
  by code_simp

lemma unsigned_exact_64:
  "list_all (unsigned_resolves (macros stdint_64)) (take 8 (unsigned_rows ''UINT64''))"
  by code_simp

lemma unsigned_fast_64:
  "list_all (unsigned_resolves (macros stdint_64)) (drop 8 (unsigned_rows ''UINT64''))"
  by code_simp

lemma list_all_take_drop: "list_all P (take n xs) \<Longrightarrow> list_all P (drop n xs) \<Longrightarrow> list_all P xs"
  by (metis append_take_drop_id list_all_append)

lemma signed_resolve_i386:
  "list_all (signed_resolves (macros stdint_i386)) (signed_rows ''INT32'')"
  by (rule list_all_take_drop [OF signed_exact_i386 list_all_take_drop [of _ 4, OF _ list_all_take_drop [of _ 4]]])
    (use signed_least_i386 signed_fast_i386 signed_special_i386 in
      \<open>simp_all only: comp_apply drop_drop numeral_plus_numeral add_num_simps\<close>)

lemma unsigned_resolve_i386:
  "list_all (unsigned_resolves (macros stdint_i386)) (unsigned_rows ''UINT32'')"
  by (rule list_all_take_drop [OF unsigned_exact_i386 unsigned_fast_i386])

lemma constants_i386:
  "list_all (\<lambda>(x, t). fun_macro stdint_i386 (x @ ''_C'') = const_macro x) const_names"
  by code_simp

lemma signed_resolve_64:
  "list_all (signed_resolves (macros stdint_64)) (signed_rows ''INT64'')"
  by (rule list_all_take_drop [OF signed_exact_64 list_all_take_drop [of _ 4, OF _ list_all_take_drop [of _ 4]]])
    (use signed_least_64 signed_fast_64 signed_special_64 in
      \<open>simp_all only: comp_apply drop_drop numeral_plus_numeral add_num_simps\<close>)

lemma unsigned_resolve_64:
  "list_all (unsigned_resolves (macros stdint_64)) (unsigned_rows ''UINT64'')"
  by (rule list_all_take_drop [OF unsigned_exact_64 unsigned_fast_64])

lemma constants_64:
  "list_all (\<lambda>(x, t). fun_macro stdint_64 (x @ ''_C'') = const_macro x) const_names"
  by code_simp

lemma same_fast_types: "fast_aarch64 = fast_x86_64" "ufast_aarch64 = ufast_x86_64"
  by (simp_all only: fast_aarch64_def fast_x86_64_def ufast_aarch64_def ufast_x86_64_def)

lemma stdint_i386_h:
  assumes "predefined C ''__i386__''" shows "stdint_h C = Some stdint_i386"
  using assms by (simp add: stdint_h_def types_h_def fast_types_def ufast_types_def stdint_for_def)

lemma undefined_expand:
  "map (\<lambda>n. expand (macros stdint_i386) [] (Id n))
     [''WCHAR_MAX'', ''WCHAR_MIN'', ''__UINT_FAST8_MIN'', ''__UINT_FAST16_MIN'', ''__UINT_FAST32_MIN'',
      ''__UINT_FAST64_MIN''] =
   map Id [''_WCHAR_MAX'', ''_WCHAR_MIN'', ''__UINT8_MIN'', ''__UINT32_MIN'', ''__UINT32_MIN'', ''__UINT64_MIN'']"
  by code_simp

section \<open>Properties\<close>

text \<open>The declarations the preprocessor arrives at, and the width of their fast types.\<close>

definition fast_width :: "compiler \<Rightarrow> nat" where
  "fast_width C = (if predefined C ''__i386__'' then 32 else 64)"

lemma stdint_h_cases:
  assumes "conforming C w"
  shows "stdint_h C = Some (if predefined C ''__i386__'' then stdint_i386 else stdint_64)"
  using assms same_fast_types
  by (auto simp: conforming_def stdint_h_def types_h_def fast_types_def ufast_types_def stdint_for_def)

lemma rows_hold:
  assumes C: "conforming C w" and t: "types_resolve (type_names [] ds) (type_rows fx gx)"
    and s: "list_all (signed_resolves (macros ds)) (signed_rows fx)" "(fx, fw) = (''INT32'', 32) \<or> (fx, fw) = (''INT64'', 64)"
    and u: "list_all (unsigned_resolves (macros ds)) (unsigned_rows gx)" "(gx, fw) = (''UINT32'', 32) \<or> (gx, fw) = (''UINT64'', 64)"
    and c: "list_all (\<lambda>(x, t). fun_macro ds (x @ ''_C'') = const_macro x) const_names"
  shows "(\<forall>(T, k, lo, hi) \<in> set (signed_limits fw w). type_of C ds T = Some (Signed k) \<and>
      value_of C ds lo = Some (promote (Signed k), type_min (Signed k)) \<and>
      value_of C ds hi = Some (promote (Signed k), type_max (Signed k))) \<and>
    (\<forall>(T, k, hi) \<in> set (unsigned_limits fw w). type_of C ds T = Some (Unsigned k) \<and>
      value_of C ds hi = Some (promote (Unsigned k), type_max (Unsigned k))) \<and>
    (\<forall>(c, t) \<in> set const_limits. \<forall>v. const_of C ds c v = in_type (promote t) v)"
proof (intro conjI)
  have ty: "(T, x, lo, hi) \<in> set (signed_rows fx) \<Longrightarrow> map_of (type_names [] ds) T = Some (type_macro x)"
    "(T, x, hi) \<in> set (unsigned_rows gx) \<Longrightarrow> map_of (type_names [] ds) T = Some (type_macro x)" for T x lo hi
    using t unfolding types_resolve_def type_rows_def list_all_iff by force+
  show "\<forall>(T, k, lo, hi) \<in> set (signed_limits fw w). type_of C ds T = Some (Signed k) \<and>
      value_of C ds lo = Some (promote (Signed k), type_min (Signed k)) \<and>
      value_of C ds hi = Some (promote (Signed k), type_max (Signed k))"
    using signed_widths [OF s(2)] signed_row [OF C ty(1)] s(1) unfolding list_all_iff by fast
  show "\<forall>(T, k, hi) \<in> set (unsigned_limits fw w). type_of C ds T = Some (Unsigned k) \<and>
      value_of C ds hi = Some (promote (Unsigned k), type_max (Unsigned k))"
    using unsigned_widths [OF u(2)] unsigned_row [OF C ty(2)] u(1) unfolding list_all_iff by fast
  show "\<forall>(c, t) \<in> set const_limits. \<forall>v. const_of C ds c v = in_type (promote t) v"
    using c C unfolding list_all_iff conforming_def const_limits_def const_of_def by fastforce
qed

text \<open>
  C22. On each of the three architectures, with a compiler that predefines what GCC documents, the
  headers compile; every integer type of \<^verbatim>\<open>stdint.h\<close> has the right signedness and exactly the width its name
  states, the fast types of 16 and 32 bits having 32 bits on the i386 and 64 on the others, and those for
  pointers, differences and sizes that of a pointer; the macros for their limits, expanded through the layers
  of the headers, evaluate without overflow to exactly the least and the greatest value of the type, as
  constants of the promoted type; and the macros for constants make constants of the promoted type.
\<close>

theorem stdint_limits_exact:
  assumes "conforming C w"
  shows "\<exists>ds. stdint_h C = Some ds \<and>
    (\<forall>(T, k, lo, hi) \<in> set (signed_limits (fast_width C) w). type_of C ds T = Some (Signed k) \<and>
      value_of C ds lo = Some (promote (Signed k), type_min (Signed k)) \<and>
      value_of C ds hi = Some (promote (Signed k), type_max (Signed k))) \<and>
    (\<forall>(T, k, hi) \<in> set (unsigned_limits (fast_width C) w). type_of C ds T = Some (Unsigned k) \<and>
      value_of C ds hi = Some (promote (Unsigned k), type_max (Unsigned k))) \<and>
    (\<forall>(c, t) \<in> set const_limits. \<forall>v. const_of C ds c v = in_type (promote t) v)"
proof (cases "predefined C ''__i386__''")
  case True
  then have "stdint_h C = Some stdint_i386" "fast_width C = 32"
    by (simp_all add: stdint_h_cases [OF assms] fast_width_def)
  with rows_hold [OF assms types_i386 signed_resolve_i386 _ unsigned_resolve_i386 _ constants_i386, of 32] show ?thesis by simp
next
  case False
  then have "stdint_h C = Some stdint_64" "fast_width C = 64"
    by (simp_all add: stdint_h_cases [OF assms] fast_width_def)
  with rows_hold [OF assms types_64 signed_resolve_64 _ unsigned_resolve_64 _ constants_64, of 64] show ?thesis by simp
qed

theorem stdint_limits_exact_witness:
  "\<exists>ds. stdint_h gcc_i386 = Some ds \<and>
    (\<forall>(T, k, lo, hi) \<in> set (signed_limits 32 32). type_of gcc_i386 ds T = Some (Signed k) \<and>
      value_of gcc_i386 ds lo = Some (promote (Signed k), type_min (Signed k)) \<and>
      value_of gcc_i386 ds hi = Some (promote (Signed k), type_max (Signed k))) \<and>
    (\<forall>(T, k, hi) \<in> set (unsigned_limits 32 32). type_of gcc_i386 ds T = Some (Unsigned k) \<and>
      value_of gcc_i386 ds hi = Some (promote (Unsigned k), type_max (Unsigned k))) \<and>
    (\<forall>(c, t) \<in> set const_limits. \<forall>v. const_of gcc_i386 ds c v = in_type (promote t) v)"
proof -
  have "fast_width gcc_i386 = 32" by (simp add: fast_width_def gcc_i386_def)
  with stdint_limits_exact [OF gcc_i386_conforming] show ?thesis by simp
qed

text \<open>
  C39. Six of the limits have no value unless the compiler itself knows names that GCC does not
  predefine: \<^verbatim>\<open>WCHAR_MAX\<close> and \<^verbatim>\<open>WCHAR_MIN\<close> expand to \<^verbatim>\<open>_WCHAR_MAX\<close> and \<^verbatim>\<open>_WCHAR_MIN\<close>, with one
  underscore too few, and the least values of the unsigned fast types to macros such as
  \<^verbatim>\<open>__UINT8_MIN\<close> that no header defines.
\<close>

theorem stdint_undefined_limits:
  assumes "predefined C ''__i386__''" and "stdint_h C = Some ds"
    and "list_all (\<lambda>n. builtin_value C n = None)
      [''_WCHAR_MAX'', ''_WCHAR_MIN'', ''__UINT8_MIN'', ''__UINT32_MIN'', ''__UINT64_MIN'']"
  shows "list_all (\<lambda>n. value_of C ds n = None)
    [''WCHAR_MAX'', ''WCHAR_MIN'', ''__UINT_FAST8_MIN'', ''__UINT_FAST16_MIN'', ''__UINT_FAST32_MIN'',
     ''__UINT_FAST64_MIN'']"
proof -
  have ds: "ds = stdint_i386" using assms(1,2) by (simp add: stdint_i386_h)
  show ?thesis unfolding ds using undefined_expand assms(3) by (simp add: value_of_def)
qed

theorem stdint_undefined_limits_witness:
  "list_all (\<lambda>n. value_of gcc_i386 stdint_i386 n = None)
    [''WCHAR_MAX'', ''WCHAR_MIN'', ''__UINT_FAST8_MIN'', ''__UINT_FAST16_MIN'', ''__UINT_FAST32_MIN'',
     ''__UINT_FAST64_MIN'']"
proof (rule stdint_undefined_limits)
  show i: "predefined gcc_i386 ''__i386__''" by (simp add: gcc_i386_def)
  show "stdint_h gcc_i386 = Some stdint_i386" by (rule stdint_i386_h [OF i])
  show "list_all (\<lambda>n. builtin_value gcc_i386 n = None)
    [''_WCHAR_MAX'', ''_WCHAR_MIN'', ''__UINT8_MIN'', ''__UINT32_MIN'', ''__UINT64_MIN'']" by code_simp
qed

end
