(* ===== verification/C_Layout.thy ===== *)
theory C_Layout
  imports Multiboot Gdt
begin

text \<open>
  How the compiler lays out the structures of \<^verbatim>\<open>src/kernel/include/multiboot2.h\<close> and
  \<^verbatim>\<open>src/kernel/include/gdt.h\<close>: the declarations as data, sizes, alignments and offsets by the rules
  of the i386 System V ABI, and the offsets the readers of boot information and of descriptors use.
\<close>

section \<open>Types and their layout\<close>

datatype c_type =
    Scalar nat
  | Array nat c_type
  | Struct bool "(string \<times> c_type) list"
  | Union_of "(string \<times> c_type) list"

abbreviation (input) U8 :: c_type where "U8 \<equiv> Scalar 1"
abbreviation (input) U16 :: c_type where "U16 \<equiv> Scalar 2"
abbreviation (input) U32 :: c_type where "U32 \<equiv> Scalar 4"
abbreviation (input) U64 :: c_type where "U64 \<equiv> Scalar 8"

definition round_up :: "nat \<Rightarrow> nat \<Rightarrow> nat" where
  "round_up n a = (n + (a - 1)) div a * a"

text \<open>
  The flag of a \<open>Struct\<close> is the attribute \<^verbatim>\<open>packed\<close>. The alignment of a 64-bit integer inside a
  structure is a parameter: 4 on the i386, 8 elsewhere.
\<close>

fun alignment :: "nat \<Rightarrow> c_type \<Rightarrow> nat" and field_alignment :: "nat \<Rightarrow> (string \<times> c_type) list \<Rightarrow> nat" where
  "alignment a64 (Scalar n) = (if n = 8 then a64 else n)"
| "alignment a64 (Array n t) = alignment a64 t"
| "alignment a64 (Struct pk flds) = (if pk then 1 else field_alignment a64 flds)"
| "alignment a64 (Union_of flds) = field_alignment a64 flds"
| "field_alignment a64 [] = 1"
| "field_alignment a64 ((_, t) # flds) = max (alignment a64 t) (field_alignment a64 flds)"

fun extent :: "nat \<Rightarrow> c_type \<Rightarrow> nat" and fields_end :: "nat \<Rightarrow> bool \<Rightarrow> nat \<Rightarrow> (string \<times> c_type) list \<Rightarrow> nat"
  and widest :: "nat \<Rightarrow> (string \<times> c_type) list \<Rightarrow> nat" where
  "extent a64 (Scalar n) = n"
| "extent a64 (Array n t) = n * extent a64 t"
| "extent a64 (Struct pk flds) =
     round_up (fields_end a64 pk 0 flds) (if pk then 1 else field_alignment a64 flds)"
| "extent a64 (Union_of flds) = round_up (widest a64 flds) (field_alignment a64 flds)"
| "fields_end a64 pk off [] = off"
| "fields_end a64 pk off ((_, t) # flds) =
     fields_end a64 pk (round_up off (if pk then 1 else alignment a64 t) + extent a64 t) flds"
| "widest a64 [] = 0"
| "widest a64 ((_, t) # flds) = max (extent a64 t) (widest a64 flds)"

fun field_offsets :: "nat \<Rightarrow> bool \<Rightarrow> nat \<Rightarrow> (string \<times> c_type) list \<Rightarrow> (string \<times> nat) list" where
  "field_offsets a64 pk off [] = []"
| "field_offsets a64 pk off ((f, t) # flds) =
     (let o1 = round_up off (if pk then 1 else alignment a64 t)
      in (f, o1) # field_offsets a64 pk (o1 + extent a64 t) flds)"

fun offset_of :: "nat \<Rightarrow> c_type \<Rightarrow> string \<Rightarrow> nat option" where
  "offset_of a64 (Struct pk flds) f = map_of (field_offsets a64 pk 0 flds) f"
| "offset_of a64 _ f = None"

fun no_padding :: "nat \<Rightarrow> c_type \<Rightarrow> bool" and fields_unpadded :: "nat \<Rightarrow> (string \<times> c_type) list \<Rightarrow> bool" where
  "no_padding a64 (Scalar n) \<longleftrightarrow> True"
| "no_padding a64 (Array n t) \<longleftrightarrow> no_padding a64 t"
| "no_padding a64 (Struct pk flds) \<longleftrightarrow>
     field_offsets a64 pk 0 flds = field_offsets a64 True 0 flds \<and> fields_unpadded a64 flds"
| "no_padding a64 (Union_of flds) \<longleftrightarrow> fields_unpadded a64 flds"
| "fields_unpadded a64 [] \<longleftrightarrow> True"
| "fields_unpadded a64 ((_, t) # flds) \<longleftrightarrow> no_padding a64 t \<and> fields_unpadded a64 flds"

section \<open>\<^verbatim>\<open>gdt.h\<close>\<close>

definition struct_gdt_entry :: c_type where
  "struct_gdt_entry = Struct True
     [(''limit_low'', U16), (''base_low'', U16), (''base_middle'', U8), (''access'', U8),
      (''granularity'', U8), (''base_high'', U8)]"

definition struct_gdt_ptr :: c_type where
  "struct_gdt_ptr = Struct True [(''limit'', U16), (''base'', U32)]"

text \<open>The privilege level bits and the access bytes of code and data segments at each level.\<close>

definition gdt_dpl :: "u8 list" where
  "gdt_dpl = [0x00, 0x20, 0x40, 0x60]"

definition gdt_code_segment_pl :: "u8 list" where
  "gdt_code_segment_pl = map (\<lambda>dpl. 0x9A OR dpl) gdt_dpl"

definition gdt_data_segment_pl :: "u8 list" where
  "gdt_data_segment_pl = map (\<lambda>dpl. 0x92 OR dpl) gdt_dpl"

section \<open>\<^verbatim>\<open>multiboot2.h\<close>\<close>

text \<open>The codes of the tags of the information and of the header, without their common prefix.\<close>

definition multiboot_tag_types :: "(string \<times> u32) list" where
  "multiboot_tag_types =
    [(''END'', 0), (''CMDLINE'', 1), (''BOOT_LOADER_NAME'', 2), (''MODULE'', 3),
     (''BASIC_MEMINFO'', 4), (''BOOTDEV'', 5), (''MMAP'', 6), (''VBE'', 7), (''FRAMEBUFFER'', 8),
     (''ELF_SECTIONS'', 9), (''APM'', 10), (''EFI32'', 11), (''EFI64'', 12), (''SMBIOS'', 13),
     (''ACPI_OLD'', 14), (''ACPI_NEW'', 15), (''NETWORK'', 16), (''EFI_MMAP'', 17),
     (''EFI_BS'', 18), (''EFI32_IH'', 19), (''EFI64_IH'', 20), (''LOAD_BASE_ADDR'', 21)]"

definition multiboot_header_tags :: "(string \<times> u16) list" where
  "multiboot_header_tags =
    [(''END'', 0), (''INFORMATION_REQUEST'', 1), (''ADDRESS'', 2), (''ENTRY_ADDRESS'', 3),
     (''CONSOLE_FLAGS'', 4), (''FRAMEBUFFER'', 5), (''MODULE_ALIGN'', 6), (''EFI_BS'', 7),
     (''ENTRY_ADDRESS_EFI32'', 8), (''ENTRY_ADDRESS_EFI64'', 9), (''RELOCATABLE'', 10)]"

definition struct_multiboot_header :: c_type where
  "struct_multiboot_header = Struct False
     [(''magic'', U32), (''architecture'', U32), (''header_length'', U32), (''checksum'', U32)]"

definition struct_multiboot_header_tag :: c_type where
  "struct_multiboot_header_tag = Struct False
     [(''type'', U16), (''flags'', U16), (''size'', U32)]"

definition struct_multiboot_header_tag_information_request :: c_type where
  "struct_multiboot_header_tag_information_request = Struct False
     [(''type'', U16), (''flags'', U16), (''size'', U32), (''requests'', Array 0 U32)]"

definition struct_multiboot_header_tag_address :: c_type where
  "struct_multiboot_header_tag_address = Struct False
     [(''type'', U16), (''flags'', U16), (''size'', U32), (''header_addr'', U32), (''load_addr'', U32),
      (''load_end_addr'', U32), (''bss_end_addr'', U32)]"

definition struct_multiboot_header_tag_entry_address :: c_type where
  "struct_multiboot_header_tag_entry_address = Struct False
     [(''type'', U16), (''flags'', U16), (''size'', U32), (''entry_addr'', U32)]"

definition struct_multiboot_header_tag_console_flags :: c_type where
  "struct_multiboot_header_tag_console_flags = Struct False
     [(''type'', U16), (''flags'', U16), (''size'', U32), (''console_flags'', U32)]"

definition struct_multiboot_header_tag_framebuffer :: c_type where
  "struct_multiboot_header_tag_framebuffer = Struct False
     [(''type'', U16), (''flags'', U16), (''size'', U32), (''width'', U32), (''height'', U32),
      (''depth'', U32)]"

definition struct_multiboot_header_tag_module_align :: c_type where
  "struct_multiboot_header_tag_module_align = Struct False
     [(''type'', U16), (''flags'', U16), (''size'', U32)]"

definition struct_multiboot_header_tag_relocatable :: c_type where
  "struct_multiboot_header_tag_relocatable = Struct False
     [(''type'', U16), (''flags'', U16), (''size'', U32), (''min_addr'', U32), (''max_addr'', U32),
      (''align'', U32), (''preference'', U32)]"

definition struct_multiboot_color :: c_type where
  "struct_multiboot_color = Struct False
     [(''red'', U8), (''green'', U8), (''blue'', U8)]"

definition struct_multiboot_mmap_entry :: c_type where
  "struct_multiboot_mmap_entry = Struct False
     [(''addr'', U64), (''len'', U64), (''type'', U32), (''zero'', U32)]"

definition struct_multiboot_tag :: c_type where
  "struct_multiboot_tag = Struct False
     [(''type'', U32), (''size'', U32)]"

definition struct_multiboot_tag_string :: c_type where
  "struct_multiboot_tag_string = Struct False
     [(''type'', U32), (''size'', U32), (''string'', Array 0 U8)]"

definition struct_multiboot_tag_module :: c_type where
  "struct_multiboot_tag_module = Struct False
     [(''type'', U32), (''size'', U32), (''mod_start'', U32), (''mod_end'', U32),
      (''cmdline'', Array 0 U8)]"

definition struct_multiboot_tag_basic_meminfo :: c_type where
  "struct_multiboot_tag_basic_meminfo = Struct False
     [(''type'', U32), (''size'', U32), (''mem_lower'', U32), (''mem_upper'', U32)]"

definition struct_multiboot_tag_bootdev :: c_type where
  "struct_multiboot_tag_bootdev = Struct False
     [(''type'', U32), (''size'', U32), (''biosdev'', U32), (''slice'', U32), (''part'', U32)]"

definition struct_multiboot_tag_mmap :: c_type where
  "struct_multiboot_tag_mmap = Struct False
     [(''type'', U32), (''size'', U32), (''entry_size'', U32), (''entry_version'', U32),
      (''entries'', Array 0 struct_multiboot_mmap_entry)]"

definition struct_multiboot_vbe_info_block :: c_type where
  "struct_multiboot_vbe_info_block = Struct False
     [(''external_specification'', Array 512 U8)]"

definition struct_multiboot_vbe_mode_info_block :: c_type where
  "struct_multiboot_vbe_mode_info_block = Struct False
     [(''external_specification'', Array 256 U8)]"

definition struct_multiboot_tag_vbe :: c_type where
  "struct_multiboot_tag_vbe = Struct False
     [(''type'', U32), (''size'', U32), (''vbe_mode'', U16), (''vbe_interface_seg'', U16),
      (''vbe_interface_off'', U16), (''vbe_interface_len'', U16),
      (''vbe_control_info'', struct_multiboot_vbe_info_block),
      (''vbe_mode_info'', struct_multiboot_vbe_mode_info_block)]"

definition struct_multiboot_tag_framebuffer_common :: c_type where
  "struct_multiboot_tag_framebuffer_common = Struct False
     [(''type'', U32), (''size'', U32), (''framebuffer_addr'', U64), (''framebuffer_pitch'', U32),
      (''framebuffer_width'', U32), (''framebuffer_height'', U32), (''framebuffer_bpp'', U8),
      (''framebuffer_type'', U8), (''reserved'', U16)]"

definition struct_multiboot_tag_framebuffer :: c_type where
  "struct_multiboot_tag_framebuffer = Struct False
     [(''common'', struct_multiboot_tag_framebuffer_common),
      ('''', Union_of [
        ('''', Struct False [(''framebuffer_palette_num_colors'', U16),
          (''framebuffer_palette'', Array 0 struct_multiboot_color)]),
        ('''', Struct False [(''framebuffer_red_field_position'', U8), (''framebuffer_red_mask_size'', U8),
          (''framebuffer_green_field_position'', U8), (''framebuffer_green_mask_size'', U8),
          (''framebuffer_blue_field_position'', U8), (''framebuffer_blue_mask_size'', U8)])])]"

definition struct_multiboot_tag_elf_sections :: c_type where
  "struct_multiboot_tag_elf_sections = Struct False
     [(''type'', U32), (''size'', U32), (''num'', U32), (''entsize'', U32), (''shndx'', U32),
      (''sections'', Array 0 U8)]"

definition struct_multiboot_tag_apm :: c_type where
  "struct_multiboot_tag_apm = Struct False
     [(''type'', U32), (''size'', U32), (''version'', U16), (''cseg'', U16), (''offset'', U32),
      (''cseg_16'', U16), (''dseg'', U16), (''flags'', U16), (''cseg_len'', U16),
      (''cseg_16_len'', U16), (''dseg_len'', U16)]"

definition struct_multiboot_tag_efi32 :: c_type where
  "struct_multiboot_tag_efi32 = Struct False
     [(''type'', U32), (''size'', U32), (''pointer'', U32)]"

definition struct_multiboot_tag_efi64 :: c_type where
  "struct_multiboot_tag_efi64 = Struct False
     [(''type'', U32), (''size'', U32), (''pointer'', U64)]"

definition struct_multiboot_tag_smbios :: c_type where
  "struct_multiboot_tag_smbios = Struct False
     [(''type'', U32), (''size'', U32), (''major'', U8), (''minor'', U8), (''reserved'', Array 6 U8),
      (''tables'', Array 0 U8)]"

definition struct_multiboot_tag_old_acpi :: c_type where
  "struct_multiboot_tag_old_acpi = Struct False
     [(''type'', U32), (''size'', U32), (''rsdp'', Array 0 U8)]"

definition struct_multiboot_tag_new_acpi :: c_type where
  "struct_multiboot_tag_new_acpi = Struct False
     [(''type'', U32), (''size'', U32), (''rsdp'', Array 0 U8)]"

definition struct_multiboot_tag_network :: c_type where
  "struct_multiboot_tag_network = Struct False
     [(''type'', U32), (''size'', U32), (''dhcpack'', Array 0 U8)]"

definition struct_multiboot_tag_efi_mmap :: c_type where
  "struct_multiboot_tag_efi_mmap = Struct False
     [(''type'', U32), (''size'', U32), (''descr_size'', U32), (''descr_vers'', U32),
      (''efi_mmap'', Array 0 U8)]"

definition struct_multiboot_tag_efi32_ih :: c_type where
  "struct_multiboot_tag_efi32_ih = Struct False
     [(''type'', U32), (''size'', U32), (''pointer'', U32)]"

definition struct_multiboot_tag_efi64_ih :: c_type where
  "struct_multiboot_tag_efi64_ih = Struct False
     [(''type'', U32), (''size'', U32), (''pointer'', U64)]"

definition struct_multiboot_tag_load_base_addr :: c_type where
  "struct_multiboot_tag_load_base_addr = Struct False
     [(''type'', U32), (''size'', U32), (''load_base_addr'', U32)]"

definition multiboot_structs :: "c_type list" where
  "multiboot_structs =
    [struct_multiboot_header, struct_multiboot_header_tag,
     struct_multiboot_header_tag_information_request, struct_multiboot_header_tag_address,
     struct_multiboot_header_tag_entry_address, struct_multiboot_header_tag_console_flags,
     struct_multiboot_header_tag_framebuffer, struct_multiboot_header_tag_module_align,
     struct_multiboot_header_tag_relocatable, struct_multiboot_color, struct_multiboot_mmap_entry,
     struct_multiboot_tag, struct_multiboot_tag_string, struct_multiboot_tag_module,
     struct_multiboot_tag_basic_meminfo, struct_multiboot_tag_bootdev, struct_multiboot_tag_mmap,
     struct_multiboot_vbe_info_block, struct_multiboot_vbe_mode_info_block, struct_multiboot_tag_vbe,
     struct_multiboot_tag_framebuffer_common, struct_multiboot_tag_framebuffer,
     struct_multiboot_tag_elf_sections, struct_multiboot_tag_apm, struct_multiboot_tag_efi32,
     struct_multiboot_tag_efi64, struct_multiboot_tag_smbios, struct_multiboot_tag_old_acpi,
     struct_multiboot_tag_new_acpi, struct_multiboot_tag_network, struct_multiboot_tag_efi_mmap,
     struct_multiboot_tag_efi32_ih, struct_multiboot_tag_efi64_ih, struct_multiboot_tag_load_base_addr]"

section \<open>Where the readers look\<close>

definition field32 ::
  "nat \<Rightarrow> c_type \<Rightarrow> string \<Rightarrow> (u32 \<Rightarrow> 'm \<Rightarrow> u8 res) \<Rightarrow> u32 \<Rightarrow> 'm \<Rightarrow> u32 res" where
  "field32 a64 t f ld a m =
     (case offset_of a64 t f of None \<Rightarrow> Inl Bad_argument | Some k \<Rightarrow> ld32 ld (a + of_nat k) m)"

definition field64 ::
  "nat \<Rightarrow> c_type \<Rightarrow> string \<Rightarrow> (u32 \<Rightarrow> 'm \<Rightarrow> u8 res) \<Rightarrow> u32 \<Rightarrow> 'm \<Rightarrow> u64 res" where
  "field64 a64 t f ld a m =
     (case offset_of a64 t f of None \<Rightarrow> Inl Bad_argument | Some k \<Rightarrow> ld64 ld (a + of_nat k) m)"

text \<open>The address of an array at the end of a structure.\<close>

definition field_address :: "nat \<Rightarrow> c_type \<Rightarrow> string \<Rightarrow> u32 \<Rightarrow> u32 option" where
  "field_address a64 t f a = map_option (\<lambda>k. a + of_nat k) (offset_of a64 t f)"

lemma tag_offsets:
  "list_all (\<lambda>a64. map (\<lambda>(t, f). offset_of a64 t f)
     [(struct_multiboot_tag, ''type''), (struct_multiboot_tag, ''size''),
      (struct_multiboot_tag_module, ''mod_start''), (struct_multiboot_tag_module, ''mod_end''),
      (struct_multiboot_tag_basic_meminfo, ''mem_lower''), (struct_multiboot_tag_basic_meminfo, ''mem_upper''),
      (struct_multiboot_tag_bootdev, ''biosdev''), (struct_multiboot_tag_bootdev, ''slice''),
      (struct_multiboot_tag_bootdev, ''part''),
      (struct_multiboot_mmap_entry, ''addr''), (struct_multiboot_mmap_entry, ''len''),
      (struct_multiboot_mmap_entry, ''type''),
      (struct_multiboot_tag_string, ''string''), (struct_multiboot_tag_module, ''cmdline''),
      (struct_multiboot_tag_mmap, ''entry_size''), (struct_multiboot_tag_mmap, ''entries'')] =
   map Some [0, 4, 8, 12, 8, 12, 8, 12, 16, 0, 8, 16, 8, 16, 8, 16]) [4, 8]"
  by code_simp

lemma structs_unpadded: "list_all (\<lambda>a64. list_all (no_padding a64) multiboot_structs) [4, 8]"
  by code_simp

lemma gdt_layout:
  "extent a64 struct_gdt_entry = 8" "extent a64 struct_gdt_ptr = 6"
  "offset_of a64 struct_gdt_ptr ''base'' = Some 2"
  by (simp_all add: struct_gdt_entry_def struct_gdt_ptr_def round_up_def)

text \<open>
  The access bytes at every level describe present segments of that level, code that can be read
  and data that can be written.
\<close>

lemma gdt_access_bytes:
  assumes "n < 4"
  shows "drop_bit 5 (gdt_code_segment_pl ! n) AND 3 = of_nat n" "drop_bit 5 (gdt_data_segment_pl ! n) AND 3 = of_nat n"
    "gdt_code_segment_pl ! n AND 0x9F = 0x9A" "gdt_data_segment_pl ! n AND 0x9F = 0x92"
proof -
  have "n \<in> {0, 1, 2, 3}" using assms by auto
  then show "drop_bit 5 (gdt_code_segment_pl ! n) AND 3 = of_nat n" "drop_bit 5 (gdt_data_segment_pl ! n) AND 3 = of_nat n"
    "gdt_code_segment_pl ! n AND 0x9F = 0x9A" "gdt_data_segment_pl ! n AND 0x9F = 0x92"
    by (auto simp: gdt_code_segment_pl_def gdt_data_segment_pl_def gdt_dpl_def)
qed

lemma tag_codes:
  "distinct (map snd multiboot_tag_types)" "distinct (map snd multiboot_header_tags)"
  "map (map_of multiboot_tag_types) [''END'', ''CMDLINE'', ''BOOT_LOADER_NAME'', ''MODULE'', ''BASIC_MEMINFO'',
      ''BOOTDEV'', ''MMAP''] =
    map Some [MULTIBOOT_TAG_TYPE_END, MULTIBOOT_TAG_TYPE_CMDLINE, MULTIBOOT_TAG_TYPE_BOOT_LOADER_NAME,
      MULTIBOOT_TAG_TYPE_MODULE, MULTIBOOT_TAG_TYPE_BASIC_MEMINFO, MULTIBOOT_TAG_TYPE_BOOTDEV, MULTIBOOT_TAG_TYPE_MMAP]"
  by code_simp+

section \<open>Properties\<close>

text \<open>
  C23. Whether 64-bit integers are aligned to four bytes, as on the i386, or to eight, no structure of
  \<^verbatim>\<open>multiboot2.h\<close> has padding between its fields, so that the compiler's layout is the one the
  specification gives byte by byte, and every field that the report on the boot information uses is
  taken at the offset the compiler gives it: the scalars it loads, the strings and the memory map
  at the end of their tags, the size of a map entry, and the type and size its loops test and step by.
\<close>

theorem multiboot_layout:
  assumes "a64 = 4 \<or> a64 = 8"
  shows "list_all (no_padding a64) multiboot_structs \<and>
    load_tag ld a m =
      bindE (field32 a64 struct_multiboot_tag ''type'' ld a m) (\<lambda>t.
      bindE (field32 a64 struct_multiboot_tag ''size'' ld a m) (\<lambda>z. Inr \<lparr>tag_type = t, tag_size = z\<rparr>)) \<and>
    load_module ld a m =
      bindE (field32 a64 struct_multiboot_tag_module ''mod_start'' ld a m) (\<lambda>b.
      bindE (field32 a64 struct_multiboot_tag_module ''mod_end'' ld a m) (\<lambda>e.
      Inr \<lparr>mod_start = b, mod_end = e\<rparr>)) \<and>
    load_meminfo ld a m =
      bindE (field32 a64 struct_multiboot_tag_basic_meminfo ''mem_lower'' ld a m) (\<lambda>l.
      bindE (field32 a64 struct_multiboot_tag_basic_meminfo ''mem_upper'' ld a m) (\<lambda>h.
      Inr \<lparr>mem_lower = l, mem_upper = h\<rparr>)) \<and>
    load_bootdev ld a m =
      bindE (field32 a64 struct_multiboot_tag_bootdev ''biosdev'' ld a m) (\<lambda>d.
      bindE (field32 a64 struct_multiboot_tag_bootdev ''slice'' ld a m) (\<lambda>s.
      bindE (field32 a64 struct_multiboot_tag_bootdev ''part'' ld a m) (\<lambda>p.
      Inr \<lparr>biosdev = d, slice = s, part = p\<rparr>))) \<and>
    load_mmap_entry ld a m =
      bindE (field64 a64 struct_multiboot_mmap_entry ''addr'' ld a m) (\<lambda>b.
      bindE (field64 a64 struct_multiboot_mmap_entry ''len'' ld a m) (\<lambda>n.
      bindE (field32 a64 struct_multiboot_mmap_entry ''type'' ld a m) (\<lambda>t.
      Inr \<lparr>mmap_addr = b, mmap_len = n, mmap_type = t\<rparr>))) \<and>
    load_type ld a m = field32 a64 struct_multiboot_tag ''type'' ld a m \<and>
    load_size ld a m = field32 a64 struct_multiboot_tag ''size'' ld a m \<and>
    load_entry_size ld a m = field32 a64 struct_multiboot_tag_mmap ''entry_size'' ld a m \<and>
    field_address a64 struct_multiboot_tag_string ''string'' a = Some (tag_string a) \<and>
    field_address a64 struct_multiboot_tag_module ''cmdline'' a = Some (module_cmdline a) \<and>
    field_address a64 struct_multiboot_tag_mmap ''entries'' a = Some (mmap_entries a)"
proof -
  have *: "list_all P [4, 8] \<Longrightarrow> P a64" for P using assms by auto
  note o = * [OF tag_offsets, simplified]
  show ?thesis using * [OF structs_unpadded]
    by (simp add: field32_def field64_def field_address_def o load_tag_def load_module_def load_meminfo_def load_bootdev_def
        load_mmap_entry_def)
qed

theorem multiboot_layout_witness:
  "list_all (no_padding 4) multiboot_structs \<and>
   load_tag (\<lambda>a m. Inr (m a)) 16 (\<lambda>a. if a = 16 then 6 else 0 :: u8) = Inr \<lparr>tag_type = 6, tag_size = 0\<rparr>"
  using multiboot_layout [of 4 "\<lambda>a m. Inr (m a)" 16 "\<lambda>a. if a = 16 then 6 else 0 :: u8"]
  by (simp add: load_tag_def ld32_def)

end
