(* ===== verification/Multiboot_Header.thy ===== *)
theory Multiboot_Header
  imports Prelude
begin

text \<open>
  The Multiboot2 header that \<^verbatim>\<open>src/kernel/arch/i386/boot.S\<close> puts at the start of the kernel image, as
  the directives of the file, their assembly into bytes, and the way a boot loader checks and
  walks what it finds in the image.
\<close>

section \<open>Directives and their assembly\<close>

text \<open>
  A label, and data whose value may refer to the addresses of labels. Labels that other files or
  sections define (\<^verbatim>\<open>_start\<close>, \<^verbatim>\<open>multiboot_entry\<close>, \<^verbatim>\<open>_edata\<close>, \<^verbatim>\<open>_end\<close>) have the addresses the linker
  gives them.
\<close>

datatype asm =
    Label string
  | Short "(string \<Rightarrow> u32) \<Rightarrow> u16"
  | Long "(string \<Rightarrow> u32) \<Rightarrow> u32"

fun asm_size :: "asm \<Rightarrow> nat" where
  "asm_size (Label l) = 0"
| "asm_size (Short e) = 2"
| "asm_size (Long e) = 4"

fun label_addresses :: "u32 \<Rightarrow> asm list \<Rightarrow> (string \<times> u32) list" where
  "label_addresses at [] = []"
| "label_addresses at (Label l # ds) = (l, at) # label_addresses at ds"
| "label_addresses at (d # ds) = label_addresses (at + of_nat (asm_size d)) ds"

definition symbol :: "(string \<Rightarrow> u32) \<Rightarrow> u32 \<Rightarrow> asm list \<Rightarrow> string \<Rightarrow> u32" where
  "symbol extern at ds l = (case map_of (label_addresses at ds) l of Some a \<Rightarrow> a | None \<Rightarrow> extern l)"

definition long_bytes :: "u32 \<Rightarrow> u8 list" where
  "long_bytes w = [ucast w, ucast (drop_bit 8 w), ucast (drop_bit 16 w), ucast (drop_bit 24 w)]"

fun asm_bytes :: "(string \<Rightarrow> u32) \<Rightarrow> asm \<Rightarrow> u8 list" where
  "asm_bytes val (Label l) = []"
| "asm_bytes val (Short e) = [ucast (e val), ucast (drop_bit 8 (e val))]"
| "asm_bytes val (Long e) = long_bytes (e val)"

definition assemble :: "(string \<Rightarrow> u32) \<Rightarrow> u32 \<Rightarrow> asm list \<Rightarrow> u8 list" where
  "assemble extern at ds = concat (map (asm_bytes (symbol extern at ds)) ds)"

section \<open>The header\<close>

abbreviation (input) MULTIBOOT2_HEADER_MAGIC :: u32 where "MULTIBOOT2_HEADER_MAGIC \<equiv> 0xE85250D6"
abbreviation (input) MULTIBOOT_HEADER_ALIGN :: nat where "MULTIBOOT_HEADER_ALIGN \<equiv> 8"
abbreviation (input) MULTIBOOT_ARCHITECTURE_I386 :: u32 where "MULTIBOOT_ARCHITECTURE_I386 \<equiv> 0"
abbreviation (input) MULTIBOOT_HEADER_TAG_END :: u16 where "MULTIBOOT_HEADER_TAG_END \<equiv> 0"
abbreviation (input) MULTIBOOT_HEADER_TAG_ADDRESS :: u16 where "MULTIBOOT_HEADER_TAG_ADDRESS \<equiv> 2"
abbreviation (input) MULTIBOOT_HEADER_TAG_ENTRY_ADDRESS :: u16 where "MULTIBOOT_HEADER_TAG_ENTRY_ADDRESS \<equiv> 3"
abbreviation (input) MULTIBOOT_HEADER_TAG_OPTIONAL :: u16 where "MULTIBOOT_HEADER_TAG_OPTIONAL \<equiv> 1"

text \<open>The argument says whether the image is an ELF file, which \<^verbatim>\<open>__ELF__\<close> tells the preprocessor.\<close>

definition address_tags :: "asm list" where
  "address_tags =
     [Label ''address_tag_start'',
      Short (\<lambda>_. MULTIBOOT_HEADER_TAG_ADDRESS),
      Short (\<lambda>_. MULTIBOOT_HEADER_TAG_OPTIONAL),
      Long (\<lambda>a. a ''address_tag_end'' - a ''address_tag_start''),
      Long (\<lambda>a. a ''multiboot_header''),
      Long (\<lambda>a. a ''_start''),
      Long (\<lambda>a. a ''_edata''),
      Long (\<lambda>a. a ''_end''),
      Label ''address_tag_end'',
      Label ''entry_address_tag_start'',
      Short (\<lambda>_. MULTIBOOT_HEADER_TAG_ENTRY_ADDRESS),
      Short (\<lambda>_. MULTIBOOT_HEADER_TAG_OPTIONAL),
      Long (\<lambda>a. a ''entry_address_tag_end'' - a ''entry_address_tag_start''),
      Long (\<lambda>a. a ''multiboot_entry''),
      Label ''entry_address_tag_end'']"

definition multiboot_header :: "bool \<Rightarrow> asm list" where
  "multiboot_header elf =
     [Label ''multiboot_header'',
      Long (\<lambda>_. MULTIBOOT2_HEADER_MAGIC),
      Long (\<lambda>_. MULTIBOOT_ARCHITECTURE_I386),
      Long (\<lambda>a. a ''multiboot_header_end'' - a ''multiboot_header''),
      Long (\<lambda>a. - ((MULTIBOOT2_HEADER_MAGIC + MULTIBOOT_ARCHITECTURE_I386) +
                   (a ''multiboot_header_end'' - a ''multiboot_header'')))] @
     (if elf then [] else address_tags) @
     [Short (\<lambda>_. MULTIBOOT_HEADER_TAG_END),
      Short (\<lambda>_. 0),
      Long (\<lambda>_. 8),
      Label ''multiboot_header_end'']"

section \<open>The boot loader\<close>

text \<open>
  The Multiboot2 specification: the header is aligned to eight bytes, its four words sum to zero,
  and behind them come tags, each of a type, flags, and a size, and each starting at the next
  multiple of eight, the last of type 0 and size 8. The walk ends with the offsets and types of
  the tags it met, or with nothing when it leaves the header without meeting the last tag.
\<close>

fun half_at :: "u8 list \<Rightarrow> nat \<Rightarrow> u16 option" where
  "half_at bs k = (if k + 2 \<le> length bs then Some (ucast (bs ! k) OR push_bit 8 (ucast (bs ! (k + 1)))) else None)"

fun word_at :: "u8 list \<Rightarrow> nat \<Rightarrow> u32 option" where
  "word_at bs k =
     (if k + 4 \<le> length bs
      then Some (ucast (bs ! k) OR push_bit 8 (ucast (bs ! (k + 1))) OR push_bit 16 (ucast (bs ! (k + 2))) OR
        push_bit 24 (ucast (bs ! (k + 3))))
      else None)"

fun header_tags :: "nat \<Rightarrow> u8 list \<Rightarrow> nat \<Rightarrow> (nat \<times> u16) list option" where
  "header_tags 0 bs k = None"
| "header_tags (Suc n) bs k =
     Option.bind (half_at bs k) (\<lambda>type. Option.bind (word_at bs (k + 4)) (\<lambda>size.
     if type = MULTIBOOT_HEADER_TAG_END \<and> size = 8 then Some [(k, type)]
     else Option.bind (header_tags n bs ((k + unat size + 7) div 8 * 8)) (\<lambda>ts. Some ((k, type) # ts))))"

text \<open>
  The steps of the walk are bounded by the length of the header: a tag with a size above zero
  moves it forward.
\<close>

definition loader_accepts :: "u32 \<Rightarrow> u8 list \<Rightarrow> (nat \<times> u16) list option" where
  "loader_accepts at bs =
     Option.bind (word_at bs 0) (\<lambda>magic. Option.bind (word_at bs 4) (\<lambda>arch.
     Option.bind (word_at bs 8) (\<lambda>len. Option.bind (word_at bs 12) (\<lambda>checksum.
     if unat at mod MULTIBOOT_HEADER_ALIGN = 0 \<and> magic = MULTIBOOT2_HEADER_MAGIC \<and>
       arch = MULTIBOOT_ARCHITECTURE_I386 \<and> magic + arch + len + checksum = 0 \<and> unat len \<le> length bs
     then header_tags (unat len) (take (unat len) bs) 16
     else None))))"

section \<open>Properties\<close>

lemma elf_bytes:
  "assemble extern at (multiboot_header True) =
     [0xD6, 0x50, 0x52, 0xE8, 0, 0, 0, 0, 24, 0, 0, 0, 0x12, 0xAF, 0xAD, 0x17, 0, 0, 0, 0, 8, 0, 0, 0]"
  by (simp add: assemble_def symbol_def multiboot_header_def long_bytes_def)

lemma header_tags_step: "0 < n \<Longrightarrow> header_tags n bs k =
    Option.bind (half_at bs k) (\<lambda>type. Option.bind (word_at bs (k + 4)) (\<lambda>size.
    if type = MULTIBOOT_HEADER_TAG_END \<and> size = 8 then Some [(k, type)]
    else Option.bind (header_tags (n - 1) bs ((k + unat size + 7) div 8 * 8)) (\<lambda>ts. Some ((k, type) # ts))))"
  by (cases n) simp_all

lemma aout_bytes:
  "assemble extern at (multiboot_header False) =
     [0xD6, 0x50, 0x52, 0xE8, 0, 0, 0, 0, 60, 0, 0, 0, 0xEE, 0xAE, 0xAD, 0x17] @
     [2, 0, 1, 0, 24, 0, 0, 0] @
     concat (map long_bytes [at, extern ''_start'', extern ''_edata'', extern ''_end'']) @
     [3, 0, 1, 0, 12, 0, 0, 0] @ long_bytes (extern ''multiboot_entry'') @ [0, 0, 0, 0, 8, 0, 0, 0]"
proof -
  have n: "long_bytes 0xE85250D6 = [0xD6, 0x50, 0x52, 0xE8]" "long_bytes 0 = [0, 0, 0, 0]"
    "long_bytes 60 = [60, 0, 0, 0]" "long_bytes 24 = [24, 0, 0, 0]" "long_bytes 12 = [12, 0, 0, 0]"
    "long_bytes 8 = [8, 0, 0, 0]" "long_bytes (- 3897708818) = [0xEE, 0xAE, 0xAD, 0x17]"
    by (simp_all add: long_bytes_def)
  show ?thesis by (simp add: assemble_def symbol_def multiboot_header_def address_tags_def n)
qed

lemma length_long_bytes [simp]: "length (long_bytes w) = 4"
  by (simp add: long_bytes_def)

text \<open>
  C24. Wherever the linker puts it, at an address that the alignment directive allows, a boot loader
  accepts the header of the ELF image: magic number, architecture, length and checksum are right
  and the walk over the tags meets exactly the end tag, at the end of the header. In an image that
  is not ELF the header has two more tags, and the second, of twelve bytes, is not padded: the
  checksum is still right, but the end tag stands at offset 52 where a loader, which goes on at
  the next multiple of eight, looks for it at 56, reads the size of the end tag as a type, and
  does not accept the header.
\<close>

theorem multiboot_header_checked:
  assumes "unat at mod 8 = 0"
  shows "loader_accepts at (assemble extern at (multiboot_header True)) = Some [(16, 0)] \<and>
    (\<exists>bs. assemble extern at (multiboot_header False) = bs \<and> length bs = 60 \<and>
     word_at bs 0 = Some 0xE85250D6 \<and> word_at bs 4 = Some 0 \<and> word_at bs 8 = Some 60 \<and>
     (\<exists>c. word_at bs 12 = Some c \<and> 0xE85250D6 + 0 + 60 + c = 0) \<and>
     half_at bs 40 = Some 3 \<and> word_at bs 44 = Some 12 \<and> half_at bs 52 = Some 0 \<and> word_at bs 56 = Some 8 \<and>
     loader_accepts at bs = None)"
proof
  show "loader_accepts at (assemble extern at (multiboot_header True)) = Some [(16, 0)]"
    using assms by (simp add: elf_bytes loader_accepts_def header_tags_step [of 24])
  obtain xs ys where bs: "assemble extern at (multiboot_header False) =
      [0xD6, 0x50, 0x52, 0xE8, 0, 0, 0, 0, 60, 0, 0, 0, 0xEE, 0xAE, 0xAD, 0x17] @
      [2, 0, 1, 0, 24, 0, 0, 0] @ xs @ [3, 0, 1, 0, 12, 0, 0, 0] @ ys @ [0, 0, 0, 0, 8, 0, 0, 0]"
    and len: "length xs = 16" "length ys = 4"
    by (rule that [OF aout_bytes]) simp_all
  show "\<exists>bs. assemble extern at (multiboot_header False) = bs \<and> length bs = 60 \<and>
     word_at bs 0 = Some 0xE85250D6 \<and> word_at bs 4 = Some 0 \<and> word_at bs 8 = Some 60 \<and>
     (\<exists>c. word_at bs 12 = Some c \<and> 0xE85250D6 + 0 + 60 + c = 0) \<and>
     half_at bs 40 = Some 3 \<and> word_at bs 44 = Some 12 \<and> half_at bs 52 = Some 0 \<and> word_at bs 56 = Some 8 \<and>
     loader_accepts at bs = None"
    unfolding bs
    by (simp add: len nth_append loader_accepts_def header_tags_step [of 60] header_tags_step [of 59]
        header_tags_step [of 58])
qed

theorem multiboot_header_checked_witness:
  "loader_accepts 0x100008 (assemble (\<lambda>_. 0) 0x100008 (multiboot_header True)) = Some [(16, 0)] \<and>
   loader_accepts 0x100008 (assemble (\<lambda>_. 0) 0x100008 (multiboot_header False)) = None"
  using multiboot_header_checked [where at = "0x100008" and extern = "\<lambda>_. 0"] by auto

end
