(* ===== verification/Spec2Isabelle.thy ===== *)
theory Spec2Isabelle
  imports Stdio_Props Debug_Props Boot_Props C_Types C_Layout Multiboot_Header
begin

text \<open>
  RedOS, a small teaching kernel for the i386: a model of its code and the theorems that make it
  correct.

  \<^bold>\<open>The program.\<close> A bootstrap in assembler (\<^verbatim>\<open>src/kernel/arch/i386/boot.S\<close>) builds a page directory and one
  page table, turns paging on, jumps to the higher half and calls, in this order, a report on the boot
  information (\<^verbatim>\<open>src/kernel/kernel/multiboot.c\<close>), the set-up of the descriptor table (\<^verbatim>\<open>gdt.c\<close>), the
  initialisation of the terminal (\<^verbatim>\<open>src/kernel/arch/i386/tty.c\<close>) and the main program (\<^verbatim>\<open>kernel.c\<close>). The main
  program brings up the debug log (\<^verbatim>\<open>debug.c\<close>), which uses the serial port (\<^verbatim>\<open>serial.c\<close>) and the terminal,
  initialises paging (\<^verbatim>\<open>paging.c\<close>: a bitmap of physical frames and the page tables), tests it by mapping,
  writing, reading and unmapping a page, and reports on all of this through \<^verbatim>\<open>printf\<close> of its own libc
  (\<^verbatim>\<open>src/libc\<close>) and the log. Errors end in the panic handlers (\<^verbatim>\<open>panic.c\<close>). Everything that is printed goes
  through the page tables that the program works on, to the screen's memory and, where a flag says
  so, to the serial line.

  \<^bold>\<open>Conventions of the model.\<close> Machine integers are words of their width, so that arithmetic wraps as on
  the machine; a signed computation that would overflow is the error \<open>Signed_overflow\<close>. An operation
  that can fail returns \<open>'a res\<close>: an access outside a C array, a page fault, a protection fault, a missing
  variadic argument and a loop that never ends (\<open>No_return\<close>) are values of \<open>c_error\<close>, each at the place where
  the code would run into it. State is a record that grows by one extension per component, in the
  order \<open>serial_state\<close>, \<open>tty_state\<close>, \<open>stdio_state\<close>, \<open>debug_state\<close>, \<open>machine_state\<close>, \<open>boot_machine\<close>; the field \<open>vram\<close> of the
  terminal is the memory, either bytes by address or a \<open>paging_state\<close> (physical memory, CR0, CR3, a
  lookaside buffer of cached translations, and the variables of \<^verbatim>\<open>paging.c\<close>). Code that accesses memory
  takes the byte load and store as arguments; \<open>vm_ld\<close> and \<open>vm_st\<close> are those through the page tables. The
  device behind the ports is an arbitrary function of the history of port accesses. What the linker
  assigns and what inline assembly reads from the registers are arguments.

  \<^bold>\<open>Loops.\<close> There is no fuel. Loops with a bound are functions with a termination proof; loops that may
  run forever (busy waits, \<^verbatim>\<open>strlen\<close>, the digit loops, the marking of frames, the walks over the boot
  information, the hex dump) are partial functions to \<open>option\<close>, and that they return, or do not, is proved.

  \<^bold>\<open>Theories and sources.\<close>

  \<^item> \<open>Prelude\<close>: results, C loops, words. \<open>Kernel_Log\<close>: the output calls a component makes. \<open>Numbers\<close>: numerals and
    their digits, for the conversions of libc and of the log.

  \<^item> \<open>Libc_String\<close> (\<^verbatim>\<open>src/libc/string\<close>): \<open>memset\<close>, \<open>memcpy\<close>, \<open>memmove\<close>, \<open>memcmp\<close>, \<open>strlen\<close> over the locale \<open>byte_memory\<close>,
    which flat memory, the kernel window and the identity-mapped first megabyte satisfy.

  \<^item> \<open>Frames\<close> (the bitmap of \<^verbatim>\<open>paging.c\<close>): the operations refine insertion and removal in a set of frames;
    the locale \<open>frame_allocator\<close> shows for any allocator with these laws that no frame is handed out twice.

  \<^item> \<open>Cells\<close>, \<open>Paging\<close>, \<open>Paging_Window\<close>, \<open>Paging_Inv\<close>, \<open>Paging_Ops\<close>, \<open>Paging_Boot\<close>, \<open>Paging_Props\<close>, \<open>Paging_Run\<close> (the rest of
    \<^verbatim>\<open>paging.c\<close>, \<^verbatim>\<open>paging.h\<close>, the tables of \<^verbatim>\<open>boot.S\<close>): the window at 0xC0000000 stays mapped, the lookaside buffer
    stays coherent, tables, held pages and free frames stay apart (\<open>paging_inv\<close>, \<open>run_inv\<close>); what each
    operation does to the translation of every address; a transition system of clients and of the
    processor's own caching, with the invariant by rule induction.

  \<^item> \<open>Gdt\<close> (\<^verbatim>\<open>gdt.c\<close>, \<^verbatim>\<open>gdt.h\<close>): packed descriptors as the processor decodes them, and the reload of the segment
    registers with its checks.

  \<^item> \<open>Serial\<close> (\<^verbatim>\<open>serial.c\<close>): the driver, a 16550 as the receiver of its port accesses, when the busy waits end.

  \<^item> \<open>Tty\<close>, \<open>Tty_Screen\<close>, \<open>Vga_Memory\<close>, \<open>Tty_Props\<close> (\<^verbatim>\<open>tty.c\<close>, \<^verbatim>\<open>vga.h\<close>): the terminal refines writing to a grid of 25 by 80
    cells. The locale \<open>screen_memory\<close> extends \<open>byte_memory\<close> by what a screen needs; its interpretations are
    flat memory, the paged screen, and (in \<open>Multiboot_Props\<close>) the null pointer.

  \<^item> \<open>Stdio\<close>, \<open>Stdio_Conv\<close>, \<open>Stdio_Screen\<close>, \<open>Stdio_Props\<close> (\<^verbatim>\<open>src/libc/stdio\<close>): a format and its
    arguments denote a string (\<open>render\<close>), and \<^verbatim>\<open>printf\<close> shows exactly this string and returns its length.

  \<^item> \<open>Debug\<close>, \<open>Debug_Format\<close>, \<open>Debug_Screen\<close>, \<open>Debug_Dump\<close>, \<open>Debug_Props\<close> (\<^verbatim>\<open>debug.c\<close>): \<^verbatim>\<open>vsnprintf\<close> within its buffer, the
    lines of the log by level and target, the hex dump.

  \<^item> \<open>Console\<close>, \<open>Panic\<close>, \<open>Panic_Props\<close> (\<^verbatim>\<open>panic.c\<close>, \<^verbatim>\<open>abort.c\<close>, \<^verbatim>\<open>stack_guard.c\<close>): the handlers halt with interrupts off and report unless the log
    is silenced.

  \<^item> \<open>Kernel_Paging\<close> (\<^verbatim>\<open>paging.c\<close> again): the operations the kernel calls, on the whole machine, each output call
    made where the code makes it, through the page tables as they are at that point.

  \<^item> \<open>Kernel\<close>, \<open>Kernel_Calls\<close>, \<open>Kernel_Run\<close>, \<open>Kernel_Mapping\<close>, \<open>Kernel_Boot\<close>, \<open>Kernel_Props\<close> (\<^verbatim>\<open>kernel.c\<close>): the main program. The locale
    \<open>console_run\<close> gives one rule per call for sequences of calls that rely on a property of the paging state
    which the screen does not disturb; it is interpreted for the tables of the bootstrap and for the
    running system, and symbolic execution with its rules proves the memory test and the whole program.

  \<^item> \<open>Multiboot\<close>, \<open>Multiboot_Screen\<close>, \<open>Multiboot_Props\<close> (\<^verbatim>\<open>multiboot.c\<close>, \<^verbatim>\<open>multiboot2.h\<close>): the text that a list of tags denotes
    as an inductive relation that determines it, and that the walk prints it, rejects bad input, or
    never ends.

  \<^item> \<open>Boot\<close>, \<open>Boot_Props\<close> (\<^verbatim>\<open>boot.S\<close>): the composition of all parts, from the state in which the boot loader
    starts the system to the halt.

  \<^item> \<open>Multiboot_Header\<close> (the header in \<^verbatim>\<open>boot.S\<close>): its directives, their assembly, and what a boot loader makes of
    the bytes.

  \<^item> \<open>C_Types\<close> (\<^verbatim>\<open>bits/types.h\<close>, \<^verbatim>\<open>bits/wchar.h\<close>, \<^verbatim>\<open>stdint.h\<close>): the declarations as data, and the types and limits
    they come down to with a compiler that predefines what GCC documents. \<open>C_Layout\<close> (\<^verbatim>\<open>multiboot2.h\<close>, \<^verbatim>\<open>gdt.h\<close>): the
    layout of every structure, and that the readers in \<open>Multiboot\<close> use its offsets.

  \<^bold>\<open>What the theorems show.\<close> The top-level results are \<open>paging_run_safe\<close> (every run of clients of the paging
    system keeps its invariant), \<open>boot_runs\<close> (the system boots without a fault and halts, having reported
    success) and \<open>kernel_main_boots\<close>; below them, each component has its functional correctness, its error
    branches and its bounds. Where the code does not do what it means to, the theorem states what it
    does: an allocation of frame 0 looks like a failure, frames beyond the first 4 MiB cannot be cleared,
    a serial port that fails its test swallows what is sent, a hex dump shows its formats instead of the
    data, a tag of size zero is never left, the pointer to the boot information is overwritten
    before it is used, and the first two messages are read from the wrong addresses.

  \<^bold>\<open>Decisions.\<close> The paging system and the descriptor table are modelled twice: by themselves, where an
    output call is recorded (\<open>klog\<close>) and the properties of the operations are proved, and on the whole
    machine (\<open>_io\<close>), where it is made in its place, as the main program and the bootstrap run them. A
    handler that does not return yields the state in which the processor halts. The strings behind \<^verbatim>\<open>%s\<close>
    are read before the call prints. Variables of the C code are fields of the state and not bytes of
    the modelled memory; the stack is not modelled. The processor caches translations only when a step
    of the transition system says so, at arbitrary points. Every physical address can be read and written;
    what it holds where the image defines nothing is arbitrary. The two messages that the bootstrap prints
    while paging is off are linked to virtual addresses, so that it reads bytes the image does not define: the
    theorems on booting assume that these reach a zero byte before the screen is full (\<open>early_short\<close>), and
    \<open>early_print_overrun\<close> and \<open>early_print_endless\<close> show what happens otherwise.

  \<^bold>\<open>Not modelled.\<close> \<^verbatim>\<open>crti.S\<close> and \<^verbatim>\<open>crtn.S\<close> (a frame for code of the compiler; \<^verbatim>\<open>_init\<close> is a parameter), the linker
  script (its addresses are arguments), the constants of \<^verbatim>\<open>multiboot2.h\<close> that no code and no tag uses,
  interrupts and their table (the code sets none up), and timing.
\<close>

end
